(* ===== verification/Gateway_Prelude.thy ===== *)
theory Gateway_Prelude
  imports Main "HOL-Library.Word"
begin

text \<open>
  Shared vocabulary of the development: the types every component uses (times, durations, byte
  slices, Go maps), the two collections of facts that carry the component proofs, and generic
  lemmas on finite maps, lists and loops that no component owns.

  Go values are represented as follows. A \<open>string\<close> is a byte sequence and so is an Isabelle
  \<open>string\<close> (a list of 8-bit characters). A \<open>map[K]V\<close> is a partial function; its length is the
  number of its keys. A \<open>range\<close> over a map visits the keys in an unspecified order, which is an
  argument of the operations whose code has such a loop. A \<open>time.Time\<close> and a
  \<open>time.Duration\<close> are integers that count nanoseconds.
\<close>

type_synonym time = int

type_synonym duration = int

type_synonym byte = "8 word"

type_synonym strmap = "string \<rightharpoonup> string"

abbreviation Second :: duration where
  "Second \<equiv> 1000000000"

abbreviation Millisecond :: duration where
  "Millisecond \<equiv> 1000000"

text \<open>\<open>inv_intros\<close> collects the preservation rules of the component invariants.\<close>

named_theorems inv_intros

text \<open>\<open>go_eval\<close> collects the evaluation rules of the models of the Go library.\<close>

named_theorems go_eval

subsection \<open>The length of a Go map\<close>

definition msize :: "('k \<rightharpoonup> 'v) \<Rightarrow> nat" where
  "msize m = card (dom m)"

lemma msize_empty [simp]: "msize Map.empty = 0"
  by (simp add: msize_def)

lemma msize_upd_new [simp]: "finite (dom m) \<Longrightarrow> m k = None \<Longrightarrow> msize (m(k \<mapsto> v)) = Suc (msize m)"
  by (simp add: msize_def card_insert_if domIff)

lemma msize_upd_old [simp]: "m k \<noteq> None \<Longrightarrow> msize (m(k \<mapsto> v)) = msize m"
  by (simp add: msize_def domIff insert_absorb)

lemma msize_delete [simp]: "finite (dom m) \<Longrightarrow> m k \<noteq> None \<Longrightarrow> msize (m(k := None)) = msize m - 1"
  by (simp add: msize_def domIff)

lemma msize_eq_0 [simp]: "finite (dom m) \<Longrightarrow> msize m = 0 \<longleftrightarrow> m = Map.empty"
  by (simp add: msize_def)

lemma msize_pos_finite: "0 < msize m \<Longrightarrow> finite (dom m)"
  unfolding msize_def by (rule card_ge_0_finite)

lemma msize_delete_less: "0 < msize m \<Longrightarrow> m k \<noteq> None \<Longrightarrow> msize (m(k := None)) < msize m"
  using msize_pos_finite [of m] by simp

lemma delete_absent [simp]: "m k = None \<Longrightarrow> m(k := None) = m"
  by (simp add: fun_upd_idem)

subsection \<open>Ranges over a map\<close>

text \<open>
  A list is a visiting order of a map when it names each key once. Every finite map has one.
\<close>

definition enumerates :: "'k list \<Rightarrow> ('k \<rightharpoonup> 'v) \<Rightarrow> bool" where
  "enumerates ks m \<longleftrightarrow> distinct ks \<and> set ks = dom m"

lemma enumerates_distinct: "enumerates ks m \<Longrightarrow> distinct ks"
  by (simp add: enumerates_def)

lemma enumerates_set: "enumerates ks m \<Longrightarrow> set ks = dom m"
  by (simp add: enumerates_def)

lemma enumerates_finite: "enumerates ks m \<Longrightarrow> finite (dom m)"
  by (metis enumerates_def List.finite_set)

lemma enumerates_exists: "finite (dom m) \<Longrightarrow> \<exists>ks. enumerates ks m"
  unfolding enumerates_def using finite_distinct_list [of "dom m"] by blast

lemma enumerates_length: "enumerates ks m \<Longrightarrow> length ks = msize m"
  by (metis enumerates_def distinct_card msize_def)

subsection \<open>Arithmetic and lists\<close>

lemma mod_window:
  fixes x :: nat
  assumes "k * n \<le> x" and "x < k * n + n"
  shows "x mod n = x - k * n"
proof -
  have "x = k * n + (x - k * n)" and "x - k * n < n"
    using assms by auto
  then show ?thesis
    by (metis mod_mult_self3 mod_less)
qed

lemma filter_fst_unique:
  "distinct (map fst xs) \<Longrightarrow> (i, p) \<in> set xs \<Longrightarrow> filter (\<lambda>x. fst x = i) xs = [(i, p)]"
proof (induction xs)
  case Nil
  then show ?case by simp
next
  case (Cons x xs)
  show ?case
  proof (cases "fst x = i")
    case True
    with Cons.prems have "x = (i, p)" and "\<forall>y \<in> set xs. fst y \<noteq> i"
      by (auto simp: image_iff)
    with True show ?thesis by (simp add: filter_False)
  next
    case False
    with Cons show ?thesis by auto
  qed
qed

lemma inj_filter_agree:
  "distinct (map fst xs) \<Longrightarrow> distinct (map snd xs) \<Longrightarrow> (i, p) \<in> set xs \<Longrightarrow>
   filter (\<lambda>x. fst x \<noteq> i) xs = filter (\<lambda>x. snd x \<noteq> p) xs"
  by (rule filter_cong) (fastforce simp: distinct_map inj_on_def)+

end
