(* ===== verification/Go_Heap.thy ===== *)
theory Go_Heap
  imports Gateway_Prelude
begin

text \<open>
  The store of \<open>map[string]string\<close> objects. A Go map is a reference: the cache, the backends and
  the read handler pass such references around and the handler empties one after use, so who
  holds which reference decides whether a cached secret survives. A heap maps addresses to map
  contents and knows the next unused address; a reference is an address or nil.
\<close>

record mheap =
  cells :: "nat \<Rightarrow> strmap"
  next_addr :: nat

type_synonym mref = "nat option"

definition deref :: "mheap \<Rightarrow> mref \<Rightarrow> strmap" where
  "deref h r = (case r of None \<Rightarrow> Map.empty | Some a \<Rightarrow> cells h a)"

text \<open>\<open>make(map[string]string)\<close> filled with the entries of \<open>m\<close>.\<close>

definition make_map :: "strmap \<Rightarrow> mheap \<Rightarrow> mref \<times> mheap" where
  "make_map m h =
     (Some (next_addr h), h\<lparr>cells := (cells h)(next_addr h := m), next_addr := Suc (next_addr h)\<rparr>)"

definition write_map :: "nat \<Rightarrow> strmap \<Rightarrow> mheap \<Rightarrow> mheap" where
  "write_map a m h = h\<lparr>cells := (cells h)(a := m)\<rparr>"

text \<open>
  The loops \<open>for k, v := range in { out[k] = v }\<close> and
  \<open>for k := range m { m[k] = ""; delete(m, k) }\<close>, over the keys in the order of the
  \<open>range\<close> statement. Whatever that order is, the first ends with a copy and the second with an
  empty map.
\<close>

fun copy_loop :: "strmap \<Rightarrow> string list \<Rightarrow> strmap \<Rightarrow> strmap" where
  "copy_loop m [] out = out"
| "copy_loop m (k # ks) out = copy_loop m ks (out(k := m k))"

fun clear_loop :: "string list \<Rightarrow> strmap \<Rightarrow> strmap" where
  "clear_loop [] m = m"
| "clear_loop (k # ks) m = clear_loop ks ((m(k \<mapsto> ''''))(k := None))"

lemma copy_loop_eq: "copy_loop m ks out = (\<lambda>k. if k \<in> set ks then m k else out k)"
  by (induction ks arbitrary: out) auto

lemma copy_loop_copies: "enumerates ks m \<Longrightarrow> copy_loop m ks Map.empty = m"
  by (auto simp: copy_loop_eq enumerates_def fun_eq_iff)

lemma clear_loop_eq: "clear_loop ks m = (\<lambda>k. if k \<in> set ks then None else m k)"
  by (induction ks arbitrary: m) auto

lemma clear_loop_empties: "enumerates ks m \<Longrightarrow> clear_loop ks m = Map.empty"
  by (auto simp: clear_loop_eq enumerates_def fun_eq_iff)

text \<open>\<open>extends h h'\<close>: nothing allocated before \<open>h\<close> was changed on the way to \<open>h'\<close>.\<close>

definition extends :: "mheap \<Rightarrow> mheap \<Rightarrow> bool" where
  "extends h h' \<longleftrightarrow> next_addr h \<le> next_addr h' \<and> (\<forall>a < next_addr h. cells h' a = cells h a)"

lemma extends_refl [simp]: "extends h h"
  by (simp add: extends_def)

lemma extends_trans [trans]: "extends h h' \<Longrightarrow> extends h' h'' \<Longrightarrow> extends h h''"
  by (auto simp: extends_def)

lemma extends_make_map: "make_map m h = (r, h') \<Longrightarrow> extends h h'"
  by (auto simp: make_map_def extends_def)

lemma make_map_deref: "make_map m h = (r, h') \<Longrightarrow> r = Some (next_addr h) \<and> deref h' r = m \<and> next_addr h' = Suc (next_addr h)"
  by (auto simp: make_map_def deref_def)

lemma extends_deref: "extends h h' \<Longrightarrow> r = None \<or> the r < next_addr h \<Longrightarrow> deref h' r = deref h r"
  by (cases r) (auto simp: extends_def deref_def)

lemma write_map_deref: "r \<noteq> Some a \<Longrightarrow> deref (write_map a m h) r = deref h r"
  by (auto simp: write_map_def deref_def split: option.split)

lemma next_write_map [simp]: "next_addr (write_map a m h) = next_addr h"
  by (simp add: write_map_def)

end
