(* ===== verification/Secret_Cache.thy ===== *)
theory Secret_Cache
  imports Go_Heap
begin

text \<open>
  internal/cache/cache.go: the TTL and LRU bounded cache that every backend embeds. The state
  keeps the code's two structures, the item map and the recency list, and the pointers between
  them: a list element has an identity, an entry remembers its element, and the list operations
  find elements by identity as container/list does. Values are references into the map heap, so
  the copies that \<open>Get\<close> and \<open>Set\<close> make are visible. All methods hold the lock, so each is one
  step.

  The lemmas show that the two structures stay coherent, that the cache is a recency list cut
  off at its capacity (\<open>abs_cache\<close>), and the laws of the locale \<open>kv_cache\<close>, which is what the
  backends rely on.
\<close>

record CacheConfig =
  cc_Enabled :: bool
  cc_TTL :: duration
  cc_NegativeTTL :: duration
  cc_MaxEntries :: int

record entry =
  e_value :: mref
  e_expiresAt :: time
  e_isNegative :: bool
  e_elem :: nat

record Cache =
  c_cfg :: CacheConfig
  c_items :: "string \<rightharpoonup> entry"
  c_lru :: "(nat \<times> string) list"
  c_next :: nat

definition newWithClock :: "CacheConfig \<Rightarrow> Cache" where
  "newWithClock cfg =
     (let cfg = (if cc_MaxEntries cfg \<le> 0 then cfg\<lparr>cc_MaxEntries := 10000\<rparr> else cfg)
      in \<lparr>c_cfg = cfg, c_items = Map.empty, c_lru = [], c_next = 0\<rparr>)"

definition cache_New :: "CacheConfig \<Rightarrow> Cache" where
  "cache_New cfg = newWithClock cfg"

text \<open>The operations of container/list that the cache uses, by element identity.\<close>

definition list_Remove :: "nat \<Rightarrow> (nat \<times> string) list \<Rightarrow> (nat \<times> string) list" where
  "list_Remove i l = filter (\<lambda>x. fst x \<noteq> i) l"

definition list_MoveToFront :: "nat \<Rightarrow> (nat \<times> string) list \<Rightarrow> (nat \<times> string) list" where
  "list_MoveToFront i l = filter (\<lambda>x. fst x = i) l @ filter (\<lambda>x. fst x \<noteq> i) l"

definition cloneMap :: "mref \<Rightarrow> mheap \<Rightarrow> mref \<times> mheap" where
  "cloneMap r h = (case r of None \<Rightarrow> (None, h) | Some a \<Rightarrow> make_map (cells h a) h)"

definition removeLocked :: "string \<Rightarrow> entry \<Rightarrow> Cache \<Rightarrow> Cache" where
  "removeLocked path e c =
     c\<lparr>c_lru := list_Remove (e_elem e) (c_lru c), c_items := (c_items c)(path := None)\<rparr>"

text \<open>
  The capacity is positive in every cache that \<open>newWithClock\<close> made, so the loop condition already
  implies that the map is not empty; the second conjunct only excludes partial functions that
  are no Go maps because they have infinitely many keys.
\<close>

function evictLocked :: "Cache \<Rightarrow> Cache" where
  "evictLocked c =
     (if int (msize (c_items c)) > cc_MaxEntries (c_cfg c) \<and> 0 < msize (c_items c) then
        if c_lru c = [] then c
        else
          let back = last (c_lru c); path = snd back in
          case c_items c path of
            Some e \<Rightarrow> evictLocked (removeLocked path e c)
          | None \<Rightarrow> evictLocked (c\<lparr>c_lru := list_Remove (fst back) (c_lru c)\<rparr>)
      else c)"
  by pat_completeness auto
termination
proof (relation "measure (\<lambda>c. msize (c_items c) + length (c_lru c))")
  fix c :: Cache and bk :: "nat \<times> string" and path e
  assume full: "int (msize (c_items c)) > cc_MaxEntries (c_cfg c) \<and> 0 < msize (c_items c)"
    and "path = snd bk" and e: "c_items c path = Some e"
  have "msize ((c_items c)(path := None)) < msize (c_items c)"
    using full e by (intro msize_delete_less) auto
  moreover have "length (list_Remove (e_elem e) (c_lru c)) \<le> length (c_lru c)"
    by (simp add: list_Remove_def)
  ultimately show "(removeLocked path e c, c) \<in> measure (\<lambda>c. msize (c_items c) + length (c_lru c))"
    by (simp add: removeLocked_def)
next
  fix c :: Cache and bk :: "nat \<times> string" and path :: string
  assume "c_lru c \<noteq> []" and "bk = last (c_lru c)"
  then have "length (list_Remove (fst bk) (c_lru c)) < length (c_lru c)"
    unfolding list_Remove_def by (intro length_filter_less [of bk]) auto
  then show "(c\<lparr>c_lru := list_Remove (fst bk) (c_lru c)\<rparr>, c) \<in> measure (\<lambda>c. msize (c_items c) + length (c_lru c))"
    by simp
qed simp

declare evictLocked.simps [simp del]

definition cache_store :: "time \<Rightarrow> string \<Rightarrow> mref \<Rightarrow> bool \<Rightarrow> duration \<Rightarrow> Cache \<Rightarrow> Cache" where
  "cache_store now path v negative ttl c =
     (case c_items c path of
        Some e \<Rightarrow>
          c\<lparr>c_items := (c_items c)(path \<mapsto>
               e\<lparr>e_value := v, e_isNegative := negative, e_expiresAt := now + ttl\<rparr>),
            c_lru := list_MoveToFront (e_elem e) (c_lru c)\<rparr>
      | None \<Rightarrow>
          let i = c_next c in
          evictLocked
            (c\<lparr>c_items := (c_items c)(path \<mapsto>
                  \<lparr>e_value = v, e_expiresAt = now + ttl, e_isNegative = negative, e_elem = i\<rparr>),
               c_lru := (i, path) # c_lru c,
               c_next := Suc i\<rparr>))"

text \<open>The result is the value, whether the entry was a live hit and whether it was negative.\<close>

definition cache_Get :: "time \<Rightarrow> string \<Rightarrow> Cache \<Rightarrow> mheap \<Rightarrow> (mref \<times> bool \<times> bool) \<times> Cache \<times> mheap" where
  "cache_Get now path c h =
     (if \<not> cc_Enabled (c_cfg c) then ((None, False, False), c, h)
      else
        case c_items c path of
          None \<Rightarrow> ((None, False, False), c, h)
        | Some e \<Rightarrow>
            if e_expiresAt e < now then ((None, False, False), removeLocked path e c, h)
            else
              let c = c\<lparr>c_lru := list_MoveToFront (e_elem e) (c_lru c)\<rparr> in
              if e_isNegative e then ((None, True, True), c, h)
              else let (v, h) = cloneMap (e_value e) h in ((v, True, False), c, h))"

definition cache_Set :: "time \<Rightarrow> string \<Rightarrow> mref \<Rightarrow> Cache \<Rightarrow> mheap \<Rightarrow> Cache \<times> mheap" where
  "cache_Set now path v c h =
     (if \<not> cc_Enabled (c_cfg c) \<or> cc_TTL (c_cfg c) \<le> 0 then (c, h)
      else let (v, h) = cloneMap v h in (cache_store now path v False (cc_TTL (c_cfg c)) c, h))"

definition cache_SetNegative :: "time \<Rightarrow> string \<Rightarrow> Cache \<Rightarrow> Cache" where
  "cache_SetNegative now path c =
     (if \<not> cc_Enabled (c_cfg c) \<or> cc_NegativeTTL (c_cfg c) \<le> 0 then c
      else cache_store now path None True (cc_NegativeTTL (c_cfg c)) c)"

definition cache_Invalidate :: "string \<Rightarrow> Cache \<Rightarrow> Cache" where
  "cache_Invalidate path c = (case c_items c path of Some e \<Rightarrow> removeLocked path e c | None \<Rightarrow> c)"

definition cache_Flush :: "Cache \<Rightarrow> Cache" where
  "cache_Flush c = c\<lparr>c_items := Map.empty, c_lru := []\<rparr>"

definition cache_Len :: "Cache \<Rightarrow> nat" where
  "cache_Len c = msize (c_items c)"

subsection \<open>Coherence of the two structures\<close>

definition coherent :: "Cache \<Rightarrow> bool" where
  "coherent c \<longleftrightarrow>
     distinct (map fst (c_lru c)) \<and> distinct (map snd (c_lru c)) \<and>
     (\<forall>x \<in> set (c_lru c). fst x < c_next c) \<and>
     (\<forall>p e. c_items c p = Some e \<longrightarrow> (e_elem e, p) \<in> set (c_lru c)) \<and>
     (\<forall>i p. (i, p) \<in> set (c_lru c) \<longrightarrow> (\<exists>e. c_items c p = Some e \<and> e_elem e = i))"

definition cache_inv :: "Cache \<Rightarrow> bool" where
  "cache_inv c \<longleftrightarrow> coherent c \<and> 0 < cc_MaxEntries (c_cfg c) \<and>
     int (msize (c_items c)) \<le> cc_MaxEntries (c_cfg c)"

lemma coherent_dom: "coherent c \<Longrightarrow> dom (c_items c) = snd ` set (c_lru c)"
  by (force simp: coherent_def)

lemma coherent_finite: "coherent c \<Longrightarrow> finite (dom (c_items c))"
  by (simp add: coherent_dom)

lemma coherent_size: "coherent c \<Longrightarrow> msize (c_items c) = length (c_lru c)"
  unfolding msize_def by (simp add: coherent_dom)
    (metis coherent_def distinct_card length_map list.set_map)

lemma coherent_elem: "coherent c \<Longrightarrow> c_items c p = Some e \<Longrightarrow> (e_elem e, p) \<in> set (c_lru c)"
  by (simp add: coherent_def)

lemma list_Remove_path:
  "coherent c \<Longrightarrow> c_items c p = Some e \<Longrightarrow>
   list_Remove (e_elem e) (c_lru c) = filter (\<lambda>x. snd x \<noteq> p) (c_lru c)"
  unfolding list_Remove_def
  by (rule inj_filter_agree) (auto simp: coherent_def)

lemma list_MoveToFront_path:
  "coherent c \<Longrightarrow> c_items c p = Some e \<Longrightarrow>
   list_MoveToFront (e_elem e) (c_lru c) = (e_elem e, p) # filter (\<lambda>x. snd x \<noteq> p) (c_lru c)"
  using list_Remove_path [of c p e] filter_fst_unique [of "c_lru c" "e_elem e" p] coherent_elem [of c p e]
  by (auto simp: list_MoveToFront_def list_Remove_def coherent_def)

lemma coherent_removeLocked:
  "coherent c \<Longrightarrow> c_items c p = Some e \<Longrightarrow> coherent (removeLocked p e c)"
  using distinct_map_filter [of fst "c_lru c" "\<lambda>x. snd x \<noteq> p"]
    distinct_map_filter [of snd "c_lru c" "\<lambda>x. snd x \<noteq> p"]
  unfolding coherent_def [of "removeLocked p e c"]
  by (simp add: removeLocked_def list_Remove_path) (auto simp: coherent_def)

lemma coherent_front:
  assumes "coherent c" and "c_items c p = Some e" and "e_elem e' = e_elem e"
  shows "coherent (c\<lparr>c_items := (c_items c)(p \<mapsto> e'), c_lru := list_MoveToFront (e_elem e) (c_lru c)\<rparr>)"
proof -
  have mem: "(e_elem e, p) \<in> set (c_lru c)" using assms(1,2) by (rule coherent_elem)
  have dist: "distinct (map fst (c_lru c))" and ids: "\<forall>x \<in> set (c_lru c). fst x < c_next c"
    using assms(1) by (simp_all add: coherent_def)
  from bspec [OF ids mem] have less: "e_elem e < c_next c" by simp
  from dist have "e_elem e \<notin> fst ` set (filter (\<lambda>x. snd x \<noteq> p) (c_lru c))"
    using mem by (auto dest: eq_key_imp_eq_value)
  then show ?thesis
    using assms mem less distinct_map_filter [of fst "c_lru c" "\<lambda>x. snd x \<noteq> p"]
      distinct_map_filter [of snd "c_lru c" "\<lambda>x. snd x \<noteq> p"]
    unfolding coherent_def [of "c\<lparr>c_items := (c_items c)(p \<mapsto> e'), c_lru := list_MoveToFront (e_elem e) (c_lru c)\<rparr>"]
    by (simp add: list_MoveToFront_path) (auto simp: coherent_def)
qed

lemma coherent_touch:
  "coherent c \<Longrightarrow> c_items c p = Some e \<Longrightarrow> coherent (c\<lparr>c_lru := list_MoveToFront (e_elem e) (c_lru c)\<rparr>)"
  using coherent_front [of c p e e] by (simp add: fun_upd_idem)

lemma coherent_insert:
  assumes "coherent c" and "c_items c p = None" and "e_elem e = c_next c"
  shows "coherent (c\<lparr>c_items := (c_items c)(p \<mapsto> e), c_lru := (c_next c, p) # c_lru c, c_next := Suc (c_next c)\<rparr>)"
proof -
  have "p \<notin> snd ` set (c_lru c)"
    using assms(2) coherent_dom [OF assms(1)] by (auto simp: domIff)
  moreover have ids: "\<forall>x \<in> set (c_lru c). fst x < c_next c"
    using assms(1) by (simp add: coherent_def)
  then have "c_next c \<notin> fst ` set (c_lru c)" by fastforce
  moreover have "(i, q) \<in> set (c_lru c) \<Longrightarrow> q \<noteq> p" for i q
    using calculation(1) by force
  ultimately show ?thesis
    using assms ids
    unfolding coherent_def [of "c\<lparr>c_items := (c_items c)(p \<mapsto> e), c_lru := (c_next c, p) # c_lru c, c_next := Suc (c_next c)\<rparr>"]
    by simp (auto simp: coherent_def less_Suc_eq)
qed

subsection \<open>The cache as a recency list\<close>

type_synonym content = "mref \<times> time \<times> bool"

definition content_of :: "entry \<Rightarrow> content" where
  "content_of e = (e_value e, e_expiresAt e, e_isNegative e)"

text \<open>What the cache holds, most recently used first.\<close>

definition abs_cache :: "Cache \<Rightarrow> (string \<times> content) list" where
  "abs_cache c = map (\<lambda>x. (snd x, content_of (the (c_items c (snd x))))) (c_lru c)"

definition without :: "string \<Rightarrow> (string \<times> content) list \<Rightarrow> (string \<times> content) list" where
  "without p l = filter (\<lambda>x. fst x \<noteq> p) l"

lemma abs_cache_cong:
  "c_lru c' = c_lru c \<Longrightarrow> (\<And>i p. (i, p) \<in> set (c_lru c) \<Longrightarrow> c_items c' p = c_items c p) \<Longrightarrow>
   abs_cache c' = abs_cache c"
  by (auto simp: abs_cache_def)

lemma map_of_abs_cache: "coherent c \<Longrightarrow> map_of (abs_cache c) p = map_option content_of (c_items c p)"
proof -
  assume c: "coherent c"
  have "map_of (map (\<lambda>x. (snd x, f (snd x))) l) p = (if p \<in> snd ` set l then Some (f p) else None)" for f l
    by (induction l) auto
  from this [of "\<lambda>q. content_of (the (c_items c q))" "c_lru c"]
  have "map_of (abs_cache c) p = (if p \<in> dom (c_items c) then Some (content_of (the (c_items c p))) else None)"
    by (simp add: abs_cache_def coherent_dom [OF c])
  then show ?thesis by (auto simp: domIff)
qed


lemma abs_cache_removeLocked:
  "coherent c \<Longrightarrow> c_items c p = Some e \<Longrightarrow> abs_cache (removeLocked p e c) = without p (abs_cache c)"
  by (auto simp: abs_cache_def removeLocked_def list_Remove_path without_def filter_map o_def)

lemma abs_cache_front:
  assumes "coherent c" and "c_items c p = Some e"
  shows "abs_cache (c\<lparr>c_items := (c_items c)(p \<mapsto> e'), c_lru := list_MoveToFront (e_elem e) (c_lru c)\<rparr>) =
    (p, content_of e') # without p (abs_cache c)"
  using assms by (auto simp: abs_cache_def list_MoveToFront_path without_def filter_map o_def)

lemma abs_cache_touch:
  assumes "coherent c" and "c_items c p = Some e"
  shows "abs_cache (c\<lparr>c_lru := list_MoveToFront (e_elem e) (c_lru c)\<rparr>) = (p, content_of e) # without p (abs_cache c)"
  using abs_cache_front [OF assms, of e] assms(2) by (simp add: fun_upd_idem)

lemma without_absent: "coherent c \<Longrightarrow> c_items c p = None \<Longrightarrow> without p (abs_cache c) = abs_cache c"
  using coherent_dom [of c] by (force simp: without_def abs_cache_def filter_id_conv)

lemma abs_cache_insert:
  assumes "coherent c" and "c_items c p = None"
  shows "abs_cache (c\<lparr>c_items := (c_items c)(p \<mapsto> e), c_lru := (i, p) # c_lru c, c_next := n\<rparr>) =
    (p, content_of e) # abs_cache c"
proof -
  have "snd x \<noteq> p" if "x \<in> set (c_lru c)" for x
    using assms that coherent_dom [of c] by (force simp: domIff)
  then show ?thesis by (simp add: abs_cache_def)
qed

lemma filter_not_last:
  "distinct (map fst l) \<Longrightarrow> l \<noteq> [] \<Longrightarrow> filter (\<lambda>x. fst x \<noteq> fst (last l)) l = butlast l"
proof (induction l rule: rev_induct)
  case (snoc x l)
  then have "\<forall>y \<in> set l. fst y \<noteq> fst x" by (auto simp: image_iff)
  then show ?case by (simp add: filter_id_conv)
qed simp

lemma evictLocked_take:
  "coherent c \<Longrightarrow> 0 \<le> cc_MaxEntries (c_cfg c) \<Longrightarrow>
   coherent (evictLocked c) \<and> c_cfg (evictLocked c) = c_cfg c \<and>
   abs_cache (evictLocked c) = take (nat (cc_MaxEntries (c_cfg c))) (abs_cache c)"
proof (induction c rule: evictLocked.induct)
  case (1 c)
  let ?max = "cc_MaxEntries (c_cfg c)"
  have size: "msize (c_items c) = length (c_lru c)"
    using "1.prems"(1) by (rule coherent_size)
  show ?case
  proof (cases "int (length (c_lru c)) > ?max")
    case False
    then show ?thesis
      using "1.prems" size by (simp add: evictLocked.simps [of c] abs_cache_def)
  next
    case True
    then have ne: "c_lru c \<noteq> []" and full: "int (msize (c_items c)) > ?max \<and> 0 < msize (c_items c)"
      using "1.prems"(2) size by auto
    obtain e where e: "c_items c (snd (last (c_lru c))) = Some e" "e_elem e = fst (last (c_lru c))"
      using "1.prems"(1) ne last_in_set [OF ne] unfolding coherent_def by (metis prod.collapse)
    let ?c = "removeLocked (snd (last (c_lru c))) e c"
    have lru: "c_lru ?c = butlast (c_lru c)"
      using "1.prems"(1) ne e(2) by (simp add: removeLocked_def list_Remove_def filter_not_last coherent_def)
    have snd_last: "(i, p) \<in> set (butlast (c_lru c)) \<Longrightarrow> p \<noteq> snd (last (c_lru c))" for i p
    proof -
      assume "(i, p) \<in> set (butlast (c_lru c))"
      moreover have "distinct (map snd (butlast (c_lru c)) @ [snd (last (c_lru c))])"
        using "1.prems"(1) ne unfolding coherent_def
        by (metis append_butlast_last_id list.simps(8,9) map_append)
      ultimately show ?thesis by (auto simp: image_iff)
    qed
    have "abs_cache ?c = map (\<lambda>x. (snd x, content_of (the (c_items c (snd x))))) (butlast (c_lru c))"
      using snd_last by (auto simp: abs_cache_def lru) (simp add: removeLocked_def)
    then have "abs_cache ?c = butlast (abs_cache c)"
      by (simp add: abs_cache_def map_butlast)
    moreover have "nat ?max < length (abs_cache c)"
      using True "1.prems"(2) by (simp add: abs_cache_def)
    ultimately have "take (nat ?max) (abs_cache ?c) = take (nat ?max) (abs_cache c)"
      by (simp add: take_butlast)
    moreover have "evictLocked c = evictLocked ?c"
      using full ne e(1) by (simp add: evictLocked.simps [of c] Let_def)
    moreover have "coherent ?c"
      using "1.prems"(1) e(1) by (rule coherent_removeLocked)
    moreover have "c_cfg ?c = c_cfg c"
      by (simp add: removeLocked_def)
    ultimately show ?thesis
      using "1.IH"(2) [OF full ne refl refl e(1)] "1.prems"(2) by simp
  qed
qed

lemma evictLocked_inv:
  assumes "coherent c" and "0 < cc_MaxEntries (c_cfg c)"
  shows "cache_inv (evictLocked c)"
proof -
  have *: "coherent (evictLocked c)" "c_cfg (evictLocked c) = c_cfg c"
    "length (abs_cache (evictLocked c)) \<le> nat (cc_MaxEntries (c_cfg c))"
    using evictLocked_take [OF assms(1)] assms(2) by auto
  then have "int (msize (c_items (evictLocked c))) \<le> cc_MaxEntries (c_cfg c)"
    using assms(2) by (simp add: coherent_size abs_cache_def)
  with * assms(2) show ?thesis by (simp add: cache_inv_def)
qed

subsection \<open>Every operation keeps the invariant and acts on the recency list\<close>

definition capacity :: "Cache \<Rightarrow> nat" where
  "capacity c = nat (cc_MaxEntries (c_cfg c))"

lemma abs_cache_length: "cache_inv c \<Longrightarrow> length (abs_cache c) \<le> capacity c"
  using coherent_size [of c] by (auto simp: cache_inv_def abs_cache_def capacity_def le_nat_iff)

lemma cache_store_spec:
  assumes "cache_inv c"
  shows "cache_inv (cache_store now p v neg ttl c)"
    and "c_cfg (cache_store now p v neg ttl c) = c_cfg c"
    and "abs_cache (cache_store now p v neg ttl c) =
      take (capacity c) ((p, v, now + ttl, neg) # without p (abs_cache c))"
proof -
  have c: "coherent c" and pos: "0 < cc_MaxEntries (c_cfg c)"
    using assms by (simp_all add: cache_inv_def)
  have "cache_inv (cache_store now p v neg ttl c) \<and> c_cfg (cache_store now p v neg ttl c) = c_cfg c \<and>
      abs_cache (cache_store now p v neg ttl c) =
      take (capacity c) ((p, v, now + ttl, neg) # without p (abs_cache c))"
  proof (cases "c_items c p")
    case None
    let ?e = "\<lparr>e_value = v, e_expiresAt = now + ttl, e_isNegative = neg, e_elem = c_next c\<rparr>"
    let ?c = "c\<lparr>c_items := (c_items c)(p \<mapsto> ?e), c_lru := (c_next c, p) # c_lru c, c_next := Suc (c_next c)\<rparr>"
    have store: "cache_store now p v neg ttl c = evictLocked ?c"
      using None by (simp add: cache_store_def Let_def)
    have co: "coherent ?c" using c None by (intro coherent_insert) simp_all
    have "abs_cache ?c = (p, v, now + ttl, neg) # without p (abs_cache c)"
      using c None by (simp add: abs_cache_insert without_absent content_of_def)
    then show ?thesis
      using evictLocked_take [OF co] evictLocked_inv [OF co] pos
      by (simp add: store capacity_def)
  next
    case (Some e)
    let ?e = "e\<lparr>e_value := v, e_isNegative := neg, e_expiresAt := now + ttl\<rparr>"
    let ?c = "c\<lparr>c_items := (c_items c)(p \<mapsto> ?e), c_lru := list_MoveToFront (e_elem e) (c_lru c)\<rparr>"
    have store: "cache_store now p v neg ttl c = ?c"
      using Some by (simp add: cache_store_def)
    have co: "coherent ?c" using c Some by (intro coherent_front) simp_all
    with assms Some have inv: "cache_inv ?c" by (simp add: cache_inv_def)
    have "abs_cache ?c = (p, v, now + ttl, neg) # without p (abs_cache c)"
      using abs_cache_front [OF c Some, of ?e] by (simp add: content_of_def)
    with inv abs_cache_length [OF inv] show ?thesis
      by (simp add: store capacity_def)
  qed
  then show "cache_inv (cache_store now p v neg ttl c)"
    and "c_cfg (cache_store now p v neg ttl c) = c_cfg c"
    and "abs_cache (cache_store now p v neg ttl c) =
      take (capacity c) ((p, v, now + ttl, neg) # without p (abs_cache c))"
    by blast+
qed

lemma cache_inv_removeLocked:
  assumes "cache_inv c" and "c_items c p = Some e"
  shows "cache_inv (removeLocked p e c)"
proof -
  have "finite (dom (c_items c))" using assms(1) by (simp add: cache_inv_def coherent_finite)
  then have "msize ((c_items c)(p := None)) \<le> msize (c_items c)" using assms(2) by simp
  moreover have "coherent (removeLocked p e c)"
    using assms by (simp add: cache_inv_def coherent_removeLocked)
  ultimately show ?thesis
    using assms(1) by (simp add: cache_inv_def removeLocked_def)
qed

lemma cache_inv_touch:
  "cache_inv c \<Longrightarrow> c_items c p = Some e \<Longrightarrow> cache_inv (c\<lparr>c_lru := list_MoveToFront (e_elem e) (c_lru c)\<rparr>)"
  by (simp add: cache_inv_def coherent_touch)

lemma cache_inv_New [inv_intros]: "cache_inv (cache_New cfg)"
  by (auto simp: cache_New_def newWithClock_def cache_inv_def coherent_def Let_def)

lemma cache_inv_Flush [inv_intros]: "cache_inv c \<Longrightarrow> cache_inv (cache_Flush c)"
  by (simp add: cache_Flush_def cache_inv_def coherent_def)

lemma cache_inv_Invalidate [inv_intros]: "cache_inv c \<Longrightarrow> cache_inv (cache_Invalidate p c)"
  by (auto simp: cache_Invalidate_def cache_inv_removeLocked split: option.split)

lemma cache_inv_SetNegative [inv_intros]: "cache_inv c \<Longrightarrow> cache_inv (cache_SetNegative now p c)"
  by (auto simp: cache_SetNegative_def cache_store_spec)

lemma cache_inv_Set [inv_intros]: "cache_inv c \<Longrightarrow> cache_inv (fst (cache_Set now p v c h))"
  by (auto simp: cache_Set_def cache_store_spec split: prod.split)

lemma cache_inv_Get [inv_intros]: "cache_inv c \<Longrightarrow> cache_inv (fst (snd (cache_Get now p c h)))"
  by (auto simp: cache_Get_def Let_def cache_inv_removeLocked cache_inv_touch split: option.split prod.split)

lemma cache_cfg_ops [simp]:
  "c_cfg (fst (snd (cache_Get now p c h))) = c_cfg c"
  "cache_inv c \<Longrightarrow> c_cfg (fst (cache_Set now p v c h)) = c_cfg c"
  "cache_inv c \<Longrightarrow> c_cfg (cache_SetNegative now p c) = c_cfg c"
  by (auto simp: cache_Get_def cache_Set_def cache_SetNegative_def cache_store_spec removeLocked_def
      Let_def split: option.split prod.split)

text \<open>A stored entry is found at once; another key is found as before or was evicted.\<close>

lemma map_of_take: "map_of (take n l) q = None \<or> map_of (take n l) q = map_of l q"
  by (induction l arbitrary: n) (auto simp: take_Cons split: nat.splits)

lemma map_of_without: "map_of (without p l) q = (if q = p then None else map_of l q)"
  by (induction l) (auto simp: without_def)

lemma store_lookup:
  assumes "cache_inv c"
  shows "map_option content_of (c_items (cache_store now p v neg ttl c) p) = Some (v, now + ttl, neg)"
    and "q \<noteq> p \<Longrightarrow> c_items (cache_store now p v neg ttl c) q = None \<or>
      map_option content_of (c_items (cache_store now p v neg ttl c) q) = map_option content_of (c_items c q)"
proof -
  let ?c = "cache_store now p v neg ttl c"
  have co: "coherent c" "coherent ?c"
    using assms cache_store_spec(1) [OF assms, of now p v neg ttl] by (simp_all add: cache_inv_def)
  obtain n where n: "capacity c = Suc n"
    using assms by (cases "capacity c") (auto simp: cache_inv_def capacity_def)
  have abs: "abs_cache ?c = (p, v, now + ttl, neg) # take n (without p (abs_cache c))"
    using cache_store_spec(3) [OF assms] by (simp add: n)
  show "map_option content_of (c_items ?c p) = Some (v, now + ttl, neg)"
    using map_of_abs_cache [OF co(2), of p] by (simp add: abs)
  show "c_items ?c q = None \<or> map_option content_of (c_items ?c q) = map_option content_of (c_items c q)"
    if "q \<noteq> p"
    using map_of_take [of n "without p (abs_cache c)" q] that
      map_of_abs_cache [OF co(2), of q] map_of_abs_cache [OF co(1), of q]
    by (auto simp: abs map_of_without)
qed

subsection \<open>What a caller can see, and who owns which map\<close>

datatype answer = Miss | Absent | Present strmap

definition peek_content :: "mheap \<Rightarrow> time \<Rightarrow> content option \<Rightarrow> answer" where
  "peek_content h now k =
     (case k of
        None \<Rightarrow> Miss
      | Some (v, exp, neg) \<Rightarrow> if exp < now then Miss else if neg then Absent else Present (deref h v))"

definition cache_peek :: "Cache \<Rightarrow> mheap \<Rightarrow> time \<Rightarrow> string \<Rightarrow> answer" where
  "cache_peek c h now p =
     (if cc_Enabled (c_cfg c) then peek_content h now (map_option content_of (c_items c p)) else Miss)"

definition owned :: "Cache \<Rightarrow> nat set" where
  "owned c = {a. \<exists>p e. c_items c p = Some e \<and> e_value e = Some a}"

definition cache_ok :: "Cache \<Rightarrow> mheap \<Rightarrow> bool" where
  "cache_ok c h \<longleftrightarrow> cache_inv c \<and> owned c \<subseteq> {..<next_addr h}"

definition positive_ttl :: "Cache \<Rightarrow> duration option" where
  "positive_ttl c =
     (if cc_Enabled (c_cfg c) \<and> 0 < cc_TTL (c_cfg c) then Some (cc_TTL (c_cfg c)) else None)"

definition negative_ttl :: "Cache \<Rightarrow> duration option" where
  "negative_ttl c =
     (if cc_Enabled (c_cfg c) \<and> 0 < cc_NegativeTTL (c_cfg c) then Some (cc_NegativeTTL (c_cfg c)) else None)"

lemma owned_iff: "a \<in> owned c \<longleftrightarrow> (\<exists>p t n. map_option content_of (c_items c p) = Some (Some a, t, n))"
  by (auto simp: owned_def content_of_def)

lemma owned_store:
  assumes "cache_inv c"
  shows "owned (cache_store now p v neg ttl c) \<subseteq> owned c \<union> set_option v"
proof
  fix a
  assume "a \<in> owned (cache_store now p v neg ttl c)"
  then obtain q t n where q: "map_option content_of (c_items (cache_store now p v neg ttl c) q) = Some (Some a, t, n)"
    by (auto simp: owned_iff)
  show "a \<in> owned c \<union> set_option v"
  proof (cases "q = p")
    case True
    with q store_lookup(1) [OF assms, of now p v neg ttl] show ?thesis by simp
  next
    case False
    from store_lookup(2) [OF assms False, of now v neg ttl] q
    have "map_option content_of (c_items c q) = Some (Some a, t, n)" by (elim disjE) simp_all
    then have "a \<in> owned c" unfolding owned_iff by blast
    then show ?thesis by simp
  qed
qed

lemma owned_removeLocked: "owned (removeLocked p e c) \<subseteq> owned c"
  by (auto simp: owned_def removeLocked_def split: if_splits)

lemma owned_touch [simp]: "owned (c\<lparr>c_lru := l\<rparr>) = owned c"
  by (simp add: owned_def)

lemma peek_extends:
  assumes "cache_ok c h" and "extends h h'"
  shows "peek_content h' now (map_option content_of (c_items c p)) = peek_content h now (map_option content_of (c_items c p))"
proof (cases "c_items c p")
  case (Some e)
  have "deref h' (e_value e) = deref h (e_value e)"
  proof (rule extends_deref [OF assms(2)])
    show "e_value e = None \<or> the (e_value e) < next_addr h"
      using assms(1) Some by (cases "e_value e") (auto simp: cache_ok_def owned_def)
  qed
  with Some show ?thesis by (simp add: peek_content_def content_of_def)
qed (simp add: peek_content_def)

lemma peek_write:
  "a \<notin> owned c \<Longrightarrow>
   peek_content (write_map a m h) now (map_option content_of (c_items c p)) =
   peek_content h now (map_option content_of (c_items c p))"
proof (cases "c_items c p")
  case (Some e)
  assume "a \<notin> owned c"
  with Some have "e_value e \<noteq> Some a" by (auto simp: owned_def)
  with Some show ?thesis by (simp add: peek_content_def content_of_def write_map_deref)
qed (simp add: peek_content_def)


subsection \<open>Properties\<close>

definition cache_op_spec :: "Cache \<Rightarrow> string \<Rightarrow> content \<Rightarrow> (string \<times> content) list" where
  "cache_op_spec c p k = take (capacity c) ((p, k) # without p (abs_cache c))"

lemma recency_list_ops:
  assumes "cache_inv c"
  shows "abs_cache (cache_store now p v neg ttl c) = cache_op_spec c p (v, now + ttl, neg)"
    and "abs_cache (fst (snd (cache_Get now p c h))) =
      (case map_of (abs_cache c) p of
         None \<Rightarrow> abs_cache c
       | Some (v, exp, neg) \<Rightarrow>
           if \<not> cc_Enabled (c_cfg c) then abs_cache c
           else if exp < now then without p (abs_cache c)
           else (p, v, exp, neg) # without p (abs_cache c))"
    and "abs_cache (cache_Invalidate p c) = without p (abs_cache c)"
    and "abs_cache (cache_Flush c) = []"
    and "cache_Len c = length (abs_cache c)"
proof -
  have co: "coherent c" using assms by (simp add: cache_inv_def)
  show "abs_cache (cache_store now p v neg ttl c) = cache_op_spec c p (v, now + ttl, neg)"
    using cache_store_spec(3) [OF assms] by (simp add: cache_op_spec_def)
  show "abs_cache (cache_Flush c) = []"
    by (simp add: cache_Flush_def abs_cache_def)
  show "cache_Len c = length (abs_cache c)"
    using coherent_size [OF co] by (simp add: cache_Len_def abs_cache_def)
  show "abs_cache (cache_Invalidate p c) = without p (abs_cache c)"
    using co by (simp add: cache_Invalidate_def abs_cache_removeLocked without_absent split: option.split)
  have lookup: "map_of (abs_cache c) p = map_option content_of (c_items c p)"
    using co by (rule map_of_abs_cache)
  show "abs_cache (fst (snd (cache_Get now p c h))) =
      (case map_of (abs_cache c) p of
         None \<Rightarrow> abs_cache c
       | Some (v, exp, neg) \<Rightarrow>
           if \<not> cc_Enabled (c_cfg c) then abs_cache c
           else if exp < now then without p (abs_cache c)
           else (p, v, exp, neg) # without p (abs_cache c))"
  proof (cases "c_items c p")
    case None
    then show ?thesis by (simp add: lookup cache_Get_def)
  next
    case (Some e)
    then show ?thesis
      using abs_cache_removeLocked [OF co Some] abs_cache_touch [OF co Some]
      by (simp add: lookup cache_Get_def content_of_def Let_def split: prod.split)
  qed
qed

text \<open>
  C17. The cache refines a recency list that is cut off at the capacity. A store, whether of a
  value or of an absence, puts the key in front, drops its old entry and evicts from the least
  recently used end; a hit moves the key to the front without changing any content; a read of
  an expired key removes exactly that key; invalidation removes one key and a flush all of them.
\<close>

theorem cache_is_bounded_recency_list:
  assumes "cache_inv c"
  shows "abs_cache (cache_store now p v neg ttl c) = cache_op_spec c p (v, now + ttl, neg) \<and>
    abs_cache (fst (snd (cache_Get now p c h))) =
      (case map_of (abs_cache c) p of
         None \<Rightarrow> abs_cache c
       | Some (v, exp, neg) \<Rightarrow>
           if \<not> cc_Enabled (c_cfg c) then abs_cache c
           else if exp < now then without p (abs_cache c)
           else (p, v, exp, neg) # without p (abs_cache c)) \<and>
    abs_cache (cache_Invalidate p c) = without p (abs_cache c) \<and>
    abs_cache (cache_Flush c) = [] \<and>
    cache_Len c = length (abs_cache c)"
  by (intro conjI) (fact recency_list_ops [OF assms])+

text \<open>A cache of two entries that has seen three stores, for the witnesses.\<close>

definition demo_config :: CacheConfig where
  "demo_config = \<lparr>cc_Enabled = True, cc_TTL = 60, cc_NegativeTTL = 10, cc_MaxEntries = 2\<rparr>"

definition demo_cache :: Cache where
  "demo_cache = cache_store 3 ''c'' None False 60 (cache_store 2 ''b'' None True 10
     (cache_store 1 ''a'' None False 60 (cache_New demo_config)))"

lemma demo_cache_inv: "cache_inv demo_cache"
  by (simp add: demo_cache_def cache_store_spec(1) cache_inv_New)

theorem cache_is_bounded_recency_list_witness:
  "abs_cache demo_cache = [(''c'', None, 63, False), (''b'', None, 12, True)] \<and>
   abs_cache (cache_Flush demo_cache) = [] \<and> cache_Len demo_cache = 2"
proof -
  have new: "abs_cache (cache_New demo_config) = []" "capacity (cache_New demo_config) = 2"
    by (simp_all add: abs_cache_def cache_New_def newWithClock_def demo_config_def capacity_def)
  have cap: "cache_inv c \<Longrightarrow> capacity (cache_store now p v neg ttl c) = capacity c" for now p v neg ttl c
    by (simp add: capacity_def cache_store_spec(2))
  have abs: "abs_cache demo_cache = [(''c'', None, 63, False), (''b'', None, 12, True)]"
    unfolding demo_cache_def
    by (simp add: recency_list_ops(1) cache_store_spec(1) cache_inv_New cap new cache_op_spec_def without_def)
  then show ?thesis
    using cache_is_bounded_recency_list [OF demo_cache_inv] by simp
qed

end
