(* ===== verification/Cache_Contract.thy ===== *)
theory Cache_Contract
  imports Secret_Cache
begin

text \<open>
  What the backends may rely on. The locale \<open>kv_cache\<close> states the laws of a cache of heap
  allocated maps whose callers keep writing to the maps they passed in and were handed; the
  cache of internal/cache/cache.go is shown to satisfy them. From the laws follows that every
  history of a cache answers like a plain map of last stores with expiry, or misses.
\<close>

subsection \<open>The contract the backends rely on\<close>

text \<open>A reference that may be passed around in heap \<open>h\<close>: nil or an allocated map.\<close>

definition valid_ref :: "mheap \<Rightarrow> mref \<Rightarrow> bool" where
  "valid_ref h v \<longleftrightarrow> (\<forall>a. v = Some a \<longrightarrow> a < next_addr h)"

text \<open>A reference that was allocated between \<open>h\<close> and \<open>h'\<close>, so that nobody else holds it.\<close>

definition fresh_ref :: "mheap \<Rightarrow> mheap \<Rightarrow> mref \<Rightarrow> bool" where
  "fresh_ref h h' v \<longleftrightarrow> (\<forall>a. v = Some a \<longrightarrow> next_addr h \<le> a \<and> a < next_addr h')"

definition answers :: "mheap \<Rightarrow> answer \<Rightarrow> mref \<times> bool \<times> bool \<Rightarrow> bool" where
  "answers h ans r =
     (case (ans, r) of
        (Miss, (v, hit, neg)) \<Rightarrow> v = None \<and> \<not> hit \<and> \<not> neg
      | (Absent, (v, hit, neg)) \<Rightarrow> v = None \<and> hit \<and> neg
      | (Present m, (v, hit, neg)) \<Rightarrow> hit \<and> \<not> neg \<and> deref h v = m)"

locale kv_cache =
  fixes ok :: "'c \<Rightarrow> mheap \<Rightarrow> bool"
    and peek :: "'c \<Rightarrow> mheap \<Rightarrow> time \<Rightarrow> string \<Rightarrow> answer"
    and held :: "'c \<Rightarrow> nat set"
    and ttl :: "'c \<Rightarrow> duration option"
    and neg_ttl :: "'c \<Rightarrow> duration option"
    and get :: "time \<Rightarrow> string \<Rightarrow> 'c \<Rightarrow> mheap \<Rightarrow> (mref \<times> bool \<times> bool) \<times> 'c \<times> mheap"
    and put :: "time \<Rightarrow> string \<Rightarrow> mref \<Rightarrow> 'c \<Rightarrow> mheap \<Rightarrow> 'c \<times> mheap"
    and put_neg :: "time \<Rightarrow> string \<Rightarrow> 'c \<Rightarrow> 'c"
  assumes held_allocated: "ok c h \<Longrightarrow> held c \<subseteq> {..<next_addr h}"
    and heap_grows: "ok c h \<Longrightarrow> extends h h' \<Longrightarrow> ok c h' \<and> peek c h' = peek c h"
    and foreign_write: "ok c h \<Longrightarrow> a \<notin> held c \<Longrightarrow>
      ok c (write_map a m h) \<and> peek c (write_map a m h) = peek c h"
    and get_keeps: "ok c h \<Longrightarrow> get now p c h = (r, c', h') \<Longrightarrow>
      ok c' h' \<and> extends h h' \<and> held c' \<subseteq> held c \<and> ttl c' = ttl c \<and> neg_ttl c' = neg_ttl c"
    and get_answers: "ok c h \<Longrightarrow> get now p c h = (r, c', h') \<Longrightarrow>
      answers h' (peek c h now p) r \<and> fresh_ref h h' (fst r)"
    and get_frame: "ok c h \<Longrightarrow> get now p c h = (r, c', h') \<Longrightarrow> now \<le> t \<Longrightarrow> peek c' h' t q = peek c h t q"
    and put_keeps: "ok c h \<Longrightarrow> valid_ref h v \<Longrightarrow> put now p v c h = (c', h') \<Longrightarrow>
      ok c' h' \<and> extends h h' \<and> held c' \<subseteq> held c \<union> {next_addr h..<next_addr h'} \<and>
      ttl c' = ttl c \<and> neg_ttl c' = neg_ttl c"
    and put_peek: "ok c h \<Longrightarrow> valid_ref h v \<Longrightarrow> put now p v c h = (c', h') \<Longrightarrow>
      peek c' h' t p = (case ttl c of None \<Rightarrow> peek c h t p
                        | Some d \<Rightarrow> if t \<le> now + d then Present (deref h v) else Miss)"
    and put_frame: "ok c h \<Longrightarrow> valid_ref h v \<Longrightarrow> put now p v c h = (c', h') \<Longrightarrow> q \<noteq> p \<Longrightarrow>
      peek c' h' t q = Miss \<or> peek c' h' t q = peek c h t q"
    and put_neg_keeps: "ok c h \<Longrightarrow>
      ok (put_neg now p c) h \<and> held (put_neg now p c) \<subseteq> held c \<and>
      ttl (put_neg now p c) = ttl c \<and> neg_ttl (put_neg now p c) = neg_ttl c"
    and put_neg_peek: "ok c h \<Longrightarrow>
      peek (put_neg now p c) h t p = (case neg_ttl c of None \<Rightarrow> peek c h t p
                        | Some d \<Rightarrow> if t \<le> now + d then Absent else Miss)"
    and put_neg_frame: "ok c h \<Longrightarrow> q \<noteq> p \<Longrightarrow>
      peek (put_neg now p c) h t q = Miss \<or> peek (put_neg now p c) h t q = peek c h t q"
begin

text \<open>
  A caller that keeps the map it stored, or the map it was handed, may do with it what it likes:
  the next read still answers with what was stored.
\<close>

lemma fresh_not_held: "ok c h \<Longrightarrow> fresh_ref h h' (Some a) \<Longrightarrow> held c' \<subseteq> held c \<Longrightarrow> a \<notin> held c'"
  using held_allocated by (fastforce simp: fresh_ref_def)

lemma put_not_held:
  assumes "ok c h" and "valid_ref h (Some a)" and "a \<notin> held c" and "put now p (Some a) c h = (c', h')"
  shows "a \<notin> held c'"
  using put_keeps [OF assms(1,2,4)] assms(2,3) by (auto simp: valid_ref_def)

lemma put_mutate_get:
  assumes "ok c h" and "valid_ref h (Some a)" and "a \<notin> held c" and "ttl c = Some d"
    and "put t0 p (Some a) c h = (c1, h1)"
    and "get t p c1 (write_map a junk h1) = (r, c2, h2)" and "t \<le> t0 + d"
  shows "fst (snd r) \<and> \<not> snd (snd r) \<and> deref h2 (fst r) = cells h a"
proof -
  have ok1: "ok c1 h1" using put_keeps [OF assms(1,2,5)] by simp
  have "a \<notin> held c1" using assms(1-3,5) by (rule put_not_held)
  then have ok2: "ok c1 (write_map a junk h1)" and same: "peek c1 (write_map a junk h1) = peek c1 h1"
    using foreign_write [OF ok1] by auto
  have "peek c1 h1 t p = Present (cells h a)"
    using put_peek [OF assms(1,2,5), of t] assms(4,7) by (simp add: deref_def)
  with get_answers [OF ok2 assms(6)] same show ?thesis
    by (auto simp: answers_def split: prod.splits)
qed

lemma get_mutate_get:
  assumes "ok c h" and "get t0 p c h = ((Some a, True, False), c1, h1)"
    and "get t p c1 (write_map a junk h1) = (r, c2, h2)" and "t0 \<le> t" and "peek c h t p = Present m"
  shows "fst (snd r) \<and> \<not> snd (snd r) \<and> deref h2 (fst r) = m"
proof -
  have ok1: "ok c1 h1" and sub: "held c1 \<subseteq> held c" using get_keeps [OF assms(1,2)] by auto
  have "fresh_ref h h1 (Some a)" using get_answers [OF assms(1,2)] by simp
  then have "a \<notin> held c1" using fresh_not_held [OF assms(1) _ sub] by blast
  then have ok2: "ok c1 (write_map a junk h1)" and same: "peek c1 (write_map a junk h1) = peek c1 h1"
    using foreign_write [OF ok1] by auto
  have "peek c1 h1 t p = Present m"
    using get_frame [OF assms(1,2,4)] assms(5) by simp
  with get_answers [OF ok2 assms(3)] same show ?thesis
    by (auto simp: answers_def split: prod.splits)
qed

end


subsection \<open>The cache meets the contract\<close>

lemma cloneMap_spec:
  assumes "cloneMap v h = (v', h')"
  shows "extends h h'" and "fresh_ref h h' v'" and "valid_ref h v \<Longrightarrow> deref h' v' = deref h v"
    and "set_option v' = {next_addr h..<next_addr h'}"
  using assms extends_make_map [of _ h v' h'] make_map_deref [of _ h v' h']
  by (auto simp: cloneMap_def fresh_ref_def deref_def split: option.splits)

lemma cache_ok_sub: "cache_ok c h \<Longrightarrow> cache_inv c' \<Longrightarrow> owned c' \<subseteq> owned c \<Longrightarrow> extends h h' \<Longrightarrow> cache_ok c' h'"
  by (fastforce simp: cache_ok_def extends_def)

lemma cache_heap_grows: "cache_ok c h \<Longrightarrow> extends h h' \<Longrightarrow> cache_ok c h' \<and> cache_peek c h' = cache_peek c h"
  using cache_ok_sub [of c h c h'] peek_extends [of c h h']
  by (auto simp: cache_ok_def cache_peek_def fun_eq_iff)

lemma cache_foreign_write:
  "cache_ok c h \<Longrightarrow> a \<notin> owned c \<Longrightarrow>
   cache_ok c (write_map a m h) \<and> cache_peek c (write_map a m h) = cache_peek c h"
  by (auto simp: cache_ok_def cache_peek_def fun_eq_iff peek_write)

lemma cache_Get_cases:
  assumes "cache_Get now p c h = (r, c', h')"
  obtains (off) "\<not> cc_Enabled (c_cfg c)" "r = (None, False, False)" "c' = c" "h' = h"
  | (absent) "cc_Enabled (c_cfg c)" "c_items c p = None" "r = (None, False, False)" "c' = c" "h' = h"
  | (expired) e where "cc_Enabled (c_cfg c)" "c_items c p = Some e" "e_expiresAt e < now"
      "r = (None, False, False)" "c' = removeLocked p e c" "h' = h"
  | (negative) e where "cc_Enabled (c_cfg c)" "c_items c p = Some e" "\<not> e_expiresAt e < now" "e_isNegative e"
      "r = (None, True, True)" "c' = c\<lparr>c_lru := list_MoveToFront (e_elem e) (c_lru c)\<rparr>" "h' = h"
  | (positive) e v where "cc_Enabled (c_cfg c)" "c_items c p = Some e" "\<not> e_expiresAt e < now" "\<not> e_isNegative e"
      "r = (v, True, False)" "c' = c\<lparr>c_lru := list_MoveToFront (e_elem e) (c_lru c)\<rparr>"
      "cloneMap (e_value e) h = (v, h')"
  using assms
  by (auto simp: cache_Get_def Let_def split: if_splits option.splits prod.splits)

lemma cache_Get_keeps:
  assumes "cache_ok c h" and "cache_Get now p c h = (r, c', h')"
  shows "cache_ok c' h'" and "extends h h'" and "owned c' \<subseteq> owned c" and "c_cfg c' = c_cfg c"
proof -
  show ext: "extends h h'"
    using assms(2) by (cases rule: cache_Get_cases) (auto dest: cloneMap_spec(1))
  show own: "owned c' \<subseteq> owned c"
    using assms(2) by (cases rule: cache_Get_cases) (use owned_removeLocked in auto)
  show "c_cfg c' = c_cfg c"
    using cache_cfg_ops(1) [of now p c h] assms(2) by simp
  have "cache_inv c'"
    using cache_inv_Get [of c now p h] assms by (simp add: cache_ok_def)
  from cache_ok_sub [OF assms(1) this own ext] show "cache_ok c' h'" .
qed

lemma cache_Get_answers:
  assumes "cache_ok c h" and "cache_Get now p c h = (r, c', h')"
  shows "answers h' (cache_peek c h now p) r \<and> fresh_ref h h' (fst r)"
  using assms(2)
proof (cases rule: cache_Get_cases)
  case (positive e v)
  have "valid_ref h (e_value e)"
    using assms(1) positive(2) by (auto simp: cache_ok_def owned_def valid_ref_def)
  with positive show ?thesis
    using cloneMap_spec(2,3) [OF positive(7)]
    by (simp add: cache_peek_def peek_content_def content_of_def answers_def)
qed (auto simp: cache_peek_def peek_content_def content_of_def answers_def fresh_ref_def)

lemma cache_Get_frame:
  assumes "cache_ok c h" and "cache_Get now p c h = (r, c', h')" and "now \<le> t"
  shows "cache_peek c' h' t q = cache_peek c h t q"
proof -
  have "extends h h'" using cache_Get_keeps [OF assms(1,2)] by simp
  from peek_extends [OF assms(1) this, of t q]
  have same: "peek_content h' t (map_option content_of (c_items c q)) = peek_content h t (map_option content_of (c_items c q))" .
  show ?thesis
    using assms(2)
  proof (cases rule: cache_Get_cases)
    case (expired e)
    then show ?thesis
      using assms(3) by (auto simp: cache_peek_def removeLocked_def peek_content_def content_of_def)
  qed (use same in \<open>simp_all add: cache_peek_def\<close>)
qed

lemma cache_Set_cases:
  assumes "cache_Set now p v c h = (c', h')"
  obtains (off) "positive_ttl c = None" "c' = c" "h' = h"
  | (stored) v' where "positive_ttl c = Some (cc_TTL (c_cfg c))" "cloneMap v h = (v', h')"
      "c' = cache_store now p v' False (cc_TTL (c_cfg c)) c"
proof (cases "cc_Enabled (c_cfg c) \<and> 0 < cc_TTL (c_cfg c)")
  case True
  then have ttl: "positive_ttl c = Some (cc_TTL (c_cfg c))" by (simp add: positive_ttl_def)
  obtain v' h'' where clone: "cloneMap v h = (v', h'')" by (cases "cloneMap v h")
  have "(cache_store now p v' False (cc_TTL (c_cfg c)) c, h'') = (c', h')"
    using True assms clone by (simp add: cache_Set_def)
  with clone show ?thesis by (intro stored [OF ttl, of v']) auto
next
  case False
  then have none: "positive_ttl c = None" by (simp only: positive_ttl_def) simp
  have "(c, h) = (c', h')" using False assms by (auto simp: cache_Set_def)
  then show ?thesis by (intro off [OF none]) simp_all
qed

lemma cache_Set_keeps:
  assumes "cache_ok c h" and "cache_Set now p v c h = (c', h')"
  shows "cache_ok c' h'" and "extends h h'" and "owned c' \<subseteq> owned c \<union> {next_addr h..<next_addr h'}"
    and "c_cfg c' = c_cfg c"
proof -
  have inv: "cache_inv c" using assms(1) by (simp add: cache_ok_def)
  show ext: "extends h h'"
    using assms(2) by (cases rule: cache_Set_cases) (auto dest: cloneMap_spec(1))
  show own: "owned c' \<subseteq> owned c \<union> {next_addr h..<next_addr h'}"
    using assms(2)
  proof (cases rule: cache_Set_cases)
    case (stored v')
    then show ?thesis
      using owned_store [OF inv, of now p v' False "cc_TTL (c_cfg c)"] cloneMap_spec(4) [OF stored(2)] by simp
  qed simp
  show "c_cfg c' = c_cfg c"
    using cache_cfg_ops(2) [OF inv, of now p v h] assms(2) by simp
  have "cache_inv c'" using cache_inv_Set [OF inv, of now p v h] assms(2) by simp
  moreover have "owned c' \<subseteq> {..<next_addr h'}"
    using own ext assms(1) by (fastforce simp: cache_ok_def extends_def)
  ultimately show "cache_ok c' h'" by (simp add: cache_ok_def)
qed

lemma store_peek:
  assumes "cache_inv c"
  shows "peek_content h t (map_option content_of (c_items (cache_store now p v neg ttl c) p)) =
      (if now + ttl < t then Miss else if neg then Absent else Present (deref h v))"
    and "q \<noteq> p \<Longrightarrow>
      peek_content h t (map_option content_of (c_items (cache_store now p v neg ttl c) q)) = Miss \<or>
      peek_content h t (map_option content_of (c_items (cache_store now p v neg ttl c) q)) =
        peek_content h t (map_option content_of (c_items c q))"
proof -
  show "peek_content h t (map_option content_of (c_items (cache_store now p v neg ttl c) p)) =
      (if now + ttl < t then Miss else if neg then Absent else Present (deref h v))"
    by (simp only: store_lookup(1) [OF assms]) (simp add: peek_content_def)
  show "peek_content h t (map_option content_of (c_items (cache_store now p v neg ttl c) q)) = Miss \<or>
      peek_content h t (map_option content_of (c_items (cache_store now p v neg ttl c) q)) =
        peek_content h t (map_option content_of (c_items c q))" if "q \<noteq> p"
    using store_lookup(2) [OF assms that, of now v neg ttl]
    by (elim disjE) (simp_all add: peek_content_def)
qed

lemma cache_Set_peek:
  assumes "cache_ok c h" and "valid_ref h v" and "cache_Set now p v c h = (c', h')"
  shows "cache_peek c' h' t p = (case positive_ttl c of None \<Rightarrow> cache_peek c h t p
           | Some d \<Rightarrow> if t \<le> now + d then Present (deref h v) else Miss)"
    and "q \<noteq> p \<Longrightarrow> cache_peek c' h' t q = Miss \<or> cache_peek c' h' t q = cache_peek c h t q"
proof -
  have inv: "cache_inv c" using assms(1) by (simp add: cache_ok_def)
  have ext: "extends h h'" and cfg: "c_cfg c' = c_cfg c"
    using cache_Set_keeps [OF assms(1,3)] by auto
  show "cache_peek c' h' t p = (case positive_ttl c of None \<Rightarrow> cache_peek c h t p
           | Some d \<Rightarrow> if t \<le> now + d then Present (deref h v) else Miss)"
    using assms(3)
  proof (cases rule: cache_Set_cases)
    case (stored v')
    then have "cc_Enabled (c_cfg c)" by (simp add: positive_ttl_def split: if_splits)
    with stored cfg show ?thesis
      using cloneMap_spec(3) [OF stored(2) assms(2)] by (simp add: cache_peek_def store_peek(1) [OF inv])
  qed simp
  show "cache_peek c' h' t q = Miss \<or> cache_peek c' h' t q = cache_peek c h t q" if "q \<noteq> p"
    using assms(3)
  proof (cases rule: cache_Set_cases)
    case (stored v')
    show ?thesis
      using store_peek(2) [OF inv that, of h' t now v' False "cc_TTL (c_cfg c)"] peek_extends [OF assms(1) ext, of t q]
      by (auto simp: cache_peek_def stored(3) cache_store_spec(2) [OF inv])
  qed simp
qed

lemma cache_SetNegative_keeps:
  assumes "cache_ok c h"
  shows "cache_ok (cache_SetNegative now p c) h" and "owned (cache_SetNegative now p c) \<subseteq> owned c"
    and "c_cfg (cache_SetNegative now p c) = c_cfg c"
proof -
  have inv: "cache_inv c" using assms by (simp add: cache_ok_def)
  show "owned (cache_SetNegative now p c) \<subseteq> owned c"
    using owned_store [OF inv, of now p None True] by (auto simp: cache_SetNegative_def)
  with cache_inv_SetNegative [OF inv] assms show "cache_ok (cache_SetNegative now p c) h"
    by (auto simp: cache_ok_def)
  show "c_cfg (cache_SetNegative now p c) = c_cfg c" using inv by (rule cache_cfg_ops)
qed

lemma cache_SetNegative_peek:
  assumes "cache_ok c h"
  shows "cache_peek (cache_SetNegative now p c) h t p = (case negative_ttl c of None \<Rightarrow> cache_peek c h t p
           | Some d \<Rightarrow> if t \<le> now + d then Absent else Miss)"
    and "q \<noteq> p \<Longrightarrow> cache_peek (cache_SetNegative now p c) h t q = Miss \<or>
           cache_peek (cache_SetNegative now p c) h t q = cache_peek c h t q"
proof -
  have inv: "cache_inv c" using assms by (simp add: cache_ok_def)
  note cfg = cache_store_spec(2) [OF inv]
  show "cache_peek (cache_SetNegative now p c) h t p = (case negative_ttl c of None \<Rightarrow> cache_peek c h t p
           | Some d \<Rightarrow> if t \<le> now + d then Absent else Miss)"
    by (simp add: cache_SetNegative_def cache_peek_def negative_ttl_def cfg store_peek(1) [OF inv])
  show "cache_peek (cache_SetNegative now p c) h t q = Miss \<or>
           cache_peek (cache_SetNegative now p c) h t q = cache_peek c h t q" if "q \<noteq> p"
    using store_peek(2) [OF inv that, of h t now None True]
    by (auto simp: cache_SetNegative_def cache_peek_def cfg)
qed

interpretation lru: kv_cache cache_ok cache_peek owned positive_ttl negative_ttl cache_Get cache_Set cache_SetNegative
proof unfold_locales
  show "owned c \<subseteq> {..<next_addr h}" if "cache_ok c h" for c h
    using that by (simp add: cache_ok_def)
  show "cache_ok c' h' \<and> extends h h' \<and> owned c' \<subseteq> owned c \<and> positive_ttl c' = positive_ttl c \<and> negative_ttl c' = negative_ttl c"
    if "cache_ok c h" "cache_Get now p c h = (r, c', h')" for c h now p r c' h'
    using cache_Get_keeps [OF that] by (simp add: positive_ttl_def negative_ttl_def)
  show "cache_ok c' h' \<and> extends h h' \<and> owned c' \<subseteq> owned c \<union> {next_addr h..<next_addr h'} \<and>
      positive_ttl c' = positive_ttl c \<and> negative_ttl c' = negative_ttl c"
    if "cache_ok c h" "valid_ref h v" "cache_Set now p v c h = (c', h')" for c h v now p c' h'
    using cache_Set_keeps [OF that(1,3)] by (simp add: positive_ttl_def negative_ttl_def)
  show "cache_ok (cache_SetNegative now p c) h \<and> owned (cache_SetNegative now p c) \<subseteq> owned c \<and>
      positive_ttl (cache_SetNegative now p c) = positive_ttl c \<and> negative_ttl (cache_SetNegative now p c) = negative_ttl c"
    if "cache_ok c h" for c h now p
    using cache_SetNegative_keeps [OF that] by (simp add: positive_ttl_def negative_ttl_def)
qed (fact cache_heap_grows cache_foreign_write cache_Get_answers cache_Get_frame
    cache_Set_peek cache_SetNegative_peek)+


subsection \<open>Histories of a cache and its callers\<close>

text \<open>
  A caller stores a map of its own and goes on writing to it, or reads a map and writes to it
  afterwards; \<open>junk\<close> is what it leaves there. The specification is a plain map from keys to the
  last answer stored and its expiry.
\<close>

datatype cache_op =
    Op_Set time string strmap strmap
  | Op_SetNegative time string
  | Op_Get time string strmap
  | Op_Invalidate string
  | Op_Flush

fun cache_step :: "cache_op \<Rightarrow> Cache \<times> mheap \<Rightarrow> Cache \<times> mheap" where
  "cache_step (Op_Set now p m junk) (c, h) =
     (let (v, h) = make_map m h; (c, h) = cache_Set now p v c h in (c, write_map (the v) junk h))"
| "cache_step (Op_SetNegative now p) (c, h) = (cache_SetNegative now p c, h)"
| "cache_step (Op_Get now p junk) (c, h) =
     (case cache_Get now p c h of
        ((Some a, _, _), c, h) \<Rightarrow> (c, write_map a junk h)
      | ((None, _, _), c, h) \<Rightarrow> (c, h))"
| "cache_step (Op_Invalidate p) (c, h) = (cache_Invalidate p c, h)"
| "cache_step Op_Flush (c, h) = (cache_Flush c, h)"

fun op_time :: "cache_op \<Rightarrow> time option" where
  "op_time (Op_Set now p m junk) = Some now"
| "op_time (Op_SetNegative now p) = Some now"
| "op_time (Op_Get now p junk) = Some now"
| "op_time _ = None"

fun ttl_map_step :: "CacheConfig \<Rightarrow> cache_op \<Rightarrow> (string \<rightharpoonup> answer \<times> time) \<Rightarrow> (string \<rightharpoonup> answer \<times> time)" where
  "ttl_map_step cfg (Op_Set now p m junk) s =
     (if cc_Enabled cfg \<and> 0 < cc_TTL cfg then s(p \<mapsto> (Present m, now + cc_TTL cfg)) else s)"
| "ttl_map_step cfg (Op_SetNegative now p) s =
     (if cc_Enabled cfg \<and> 0 < cc_NegativeTTL cfg then s(p \<mapsto> (Absent, now + cc_NegativeTTL cfg)) else s)"
| "ttl_map_step cfg (Op_Get now p junk) s = s"
| "ttl_map_step cfg (Op_Invalidate p) s = s(p := None)"
| "ttl_map_step cfg Op_Flush s = Map.empty"

definition ttl_map_peek :: "(string \<rightharpoonup> answer \<times> time) \<Rightarrow> time \<Rightarrow> string \<Rightarrow> answer" where
  "ttl_map_peek s t p = (case s p of Some (ans, exp) \<Rightarrow> if t \<le> exp then ans else Miss | None \<Rightarrow> Miss)"

definition agrees :: "time \<Rightarrow> Cache \<Rightarrow> mheap \<Rightarrow> (string \<rightharpoonup> answer \<times> time) \<Rightarrow> bool" where
  "agrees t c h s \<longleftrightarrow> (\<forall>p. cache_peek c h t p = Miss \<or> cache_peek c h t p = ttl_map_peek s t p)"

lemma agrees_same: "agrees t c h s \<Longrightarrow> (\<And>p. cache_peek c' h' t p = cache_peek c h t p) \<Longrightarrow> agrees t c' h' s"
  by (simp add: agrees_def)

lemma step_Set:
  assumes "cache_ok c h" and "agrees t c h s" and "cache_step (Op_Set now p m junk) (c, h) = (c', h')"
  shows "cache_ok c' h' \<and> c_cfg c' = c_cfg c \<and> agrees t c' h' (ttl_map_step (c_cfg c) (Op_Set now p m junk) s)"
proof -
  obtain v h1 where v: "make_map m h = (v, h1)" by (cases "make_map m h")
  obtain h2 where set: "cache_Set now p v c h1 = (c', h2)" and h': "h' = write_map (the v) junk h2"
    using assms(3) v by (simp split: prod.splits)
  have a: "v = Some (next_addr h)" "deref h1 v = m" "valid_ref h1 v" "extends h h1"
    using make_map_deref [OF v] extends_make_map [OF v] by (auto simp: valid_ref_def)
  have ok1: "cache_ok c h1" and same: "cache_peek c h1 = cache_peek c h"
    using lru.heap_grows [OF assms(1) a(4)] by auto
  have "next_addr h \<notin> owned c" using lru.held_allocated [OF assms(1)] by auto
  then have "next_addr h \<notin> owned c'"
    using lru.put_not_held [OF ok1, of "next_addr h"] a set by auto
  moreover have "cache_ok c' h2" and cfg: "c_cfg c' = c_cfg c" using cache_Set_keeps [OF ok1 set] by auto
  ultimately have ok': "cache_ok c' h'" and peek': "cache_peek c' h' = cache_peek c' h2"
    using lru.foreign_write h' a(1) by auto
  have "cache_peek c' h' t q = Miss \<or>
      cache_peek c' h' t q = ttl_map_peek (ttl_map_step (c_cfg c) (Op_Set now p m junk) s) t q" for q
  proof (cases "q = p")
    case True
    then show ?thesis
      using cache_Set_peek(1) [OF ok1 a(3) set, of t] assms(2) a(2)
      by (auto simp: peek' same agrees_def ttl_map_peek_def positive_ttl_def)
  next
    case False
    then show ?thesis
      using cache_Set_peek(2) [OF ok1 a(3) set False, of t] assms(2)
      by (auto simp: peek' same agrees_def ttl_map_peek_def)
  qed
  with ok' cfg show ?thesis by (simp add: agrees_def)
qed

lemma step_Get:
  assumes "cache_ok c h" and "agrees t c h s" and "now \<le> t" and "cache_step (Op_Get now p junk) (c, h) = (c', h')"
  shows "cache_ok c' h' \<and> c_cfg c' = c_cfg c \<and> agrees t c' h' s"
proof -
  obtain v hit neg h1 where get: "cache_Get now p c h = ((v, hit, neg), c', h1)"
    and h': "h' = (case v of Some a \<Rightarrow> write_map a junk h1 | None \<Rightarrow> h1)"
    using assms(4) by (cases "cache_Get now p c h") (auto split: option.splits)
  note keeps = cache_Get_keeps [OF assms(1) get]
  have "cache_ok c' h' \<and> cache_peek c' h' = cache_peek c' h1"
  proof (cases v)
    case (Some a)
    have "fresh_ref h h1 (Some a)" using lru.get_answers [OF assms(1) get] Some by simp
    from lru.fresh_not_held [OF assms(1) this keeps(3)] lru.foreign_write [OF keeps(1)] Some h'
    show ?thesis by simp
  qed (use keeps h' in simp)
  then show ?thesis
    using agrees_same [OF assms(2), of c' h'] lru.get_frame [OF assms(1) get assms(3)] keeps(4) by simp
qed

lemma step_remove:
  assumes "cache_ok c h" and "agrees t c h s"
  shows "cache_ok (cache_Invalidate p c) h \<and> c_cfg (cache_Invalidate p c) = c_cfg c \<and>
      agrees t (cache_Invalidate p c) h (s(p := None))"
    and "cache_ok (cache_Flush c) h \<and> c_cfg (cache_Flush c) = c_cfg c \<and> agrees t (cache_Flush c) h Map.empty"
proof -
  have inv: "cache_inv c" using assms(1) by (simp add: cache_ok_def)
  have items: "c_items (cache_Invalidate p c) = (c_items c)(p := None)" "c_cfg (cache_Invalidate p c) = c_cfg c"
    by (auto simp: cache_Invalidate_def removeLocked_def split: option.split)
  then have "owned (cache_Invalidate p c) \<subseteq> owned c" by (auto simp: owned_def split: if_splits)
  with items cache_inv_Invalidate [OF inv] assms
  show "cache_ok (cache_Invalidate p c) h \<and> c_cfg (cache_Invalidate p c) = c_cfg c \<and>
      agrees t (cache_Invalidate p c) h (s(p := None))"
    by (auto simp: cache_ok_def agrees_def cache_peek_def ttl_map_peek_def peek_content_def)
  show "cache_ok (cache_Flush c) h \<and> c_cfg (cache_Flush c) = c_cfg c \<and> agrees t (cache_Flush c) h Map.empty"
    using cache_inv_Flush [OF inv]
    by (auto simp: cache_ok_def agrees_def cache_peek_def peek_content_def owned_def cache_Flush_def)
qed

lemma step_SetNegative:
  assumes "cache_ok c h" and "agrees t c h s"
  shows "cache_ok (cache_SetNegative now p c) h \<and> c_cfg (cache_SetNegative now p c) = c_cfg c \<and>
    agrees t (cache_SetNegative now p c) h (ttl_map_step (c_cfg c) (Op_SetNegative now p) s)"
proof -
  have "cache_peek (cache_SetNegative now p c) h t q = Miss \<or>
      cache_peek (cache_SetNegative now p c) h t q =
        ttl_map_peek (ttl_map_step (c_cfg c) (Op_SetNegative now p) s) t q" for q
  proof (cases "q = p")
    case True
    then show ?thesis
      using cache_SetNegative_peek(1) [OF assms(1), of now p t] assms(2)
      by (auto simp: agrees_def ttl_map_peek_def negative_ttl_def)
  next
    case False
    then show ?thesis
      using cache_SetNegative_peek(2) [OF assms(1) False, of now t] assms(2)
      by (auto simp: agrees_def ttl_map_peek_def)
  qed
  with cache_SetNegative_keeps [OF assms(1)] show ?thesis by (simp add: agrees_def)
qed

lemma cache_step_agrees:
  assumes "cache_ok c h" and "agrees t c h s" and "pred_option (\<lambda>now. now \<le> t) (op_time opn)"
    and "cache_step opn (c, h) = (c', h')"
  shows "cache_ok c' h' \<and> c_cfg c' = c_cfg c \<and> agrees t c' h' (ttl_map_step (c_cfg c) opn s)"
proof (cases opn)
  case (Op_Set now p m junk)
  with step_Set [OF assms(1,2)] assms(4) show ?thesis by blast
next
  case (Op_SetNegative now p)
  with step_SetNegative [OF assms(1,2), of now p] assms(4) show ?thesis by auto
next
  case (Op_Get now p junk)
  with step_Get [OF assms(1,2), of now p junk c' h'] assms(3,4) show ?thesis
    by (simp only: op_time.simps option.pred_inject ttl_map_step.simps)
next
  case (Op_Invalidate p)
  with step_remove(1) [OF assms(1,2), of p] assms(4) show ?thesis by auto
next
  case Op_Flush
  with step_remove(2) [OF assms(1,2)] assms(4) show ?thesis by auto
qed

lemma cache_run_agrees:
  assumes "cache_ok c h" and "agrees t c h s" and "list_all (\<lambda>opn. pred_option (\<lambda>now. now \<le> t) (op_time opn)) ops"
    and "fold cache_step ops (c, h) = (c', h')"
  shows "cache_ok c' h' \<and> c_cfg c' = c_cfg c \<and> agrees t c' h' (fold (ttl_map_step (c_cfg c)) ops s)"
  using assms
proof (induction ops arbitrary: c h s)
  case (Cons opn ops)
  obtain c1 h1 where step: "cache_step opn (c, h) = (c1, h1)" by (cases "cache_step opn (c, h)")
  from Cons.prems(3) have "pred_option (\<lambda>now. now \<le> t) (op_time opn)" by simp
  from cache_step_agrees [OF Cons.prems(1,2) this step]
  have "cache_ok c1 h1" "c_cfg c1 = c_cfg c" "agrees t c1 h1 (ttl_map_step (c_cfg c) opn s)" by auto
  with Cons.IH [of c1 h1 "ttl_map_step (c_cfg c) opn s"] Cons.prems(3,4) step show ?case by simp
qed simp

text \<open>
  C16. Whatever sequence of operations the callers of a new cache ran, and whatever they wrote
  into the maps they passed in or were handed, a read afterwards either misses or answers with
  the last thing stored for that very key, within its time to live; a later absence overrides
  an earlier value and the other way round, and nothing survives an invalidation or a flush.
  The number of entries is within the configured bound, or 10000 when none is configured.
\<close>

theorem cache_read_is_last_store_or_miss:
  assumes "fold cache_step ops (cache_New cfg, h) = (c, h')"
    and "list_all (\<lambda>opn. pred_option (\<lambda>now. now \<le> t) (op_time opn)) ops"
    and "cache_Get t p c h' = ((v, hit, neg), c', h'')"
    and "ans = ttl_map_peek (fold (ttl_map_step cfg) ops Map.empty) t p"
  shows "(\<not> hit \<or> (if neg then ans = Absent else ans = Present (deref h'' v))) \<and>
    int (cache_Len c) \<le> (if cc_MaxEntries cfg \<le> 0 then 10000 else cc_MaxEntries cfg)"
proof -
  have new: "cache_ok (cache_New cfg) h" "agrees t (cache_New cfg) h Map.empty"
    using cache_inv_New [of cfg]
    by (auto simp: cache_ok_def agrees_def owned_def cache_New_def newWithClock_def cache_peek_def peek_content_def)
  have steps: "ttl_map_step (c_cfg (cache_New cfg)) = ttl_map_step cfg"
  proof -
    have "ttl_map_step (c_cfg (cache_New cfg)) opn s = ttl_map_step cfg opn s" for opn s
      by (cases opn) (auto simp: cache_New_def newWithClock_def Let_def)
    then show ?thesis by blast
  qed
  have ok: "cache_ok c h'" and cfg: "c_cfg c = c_cfg (cache_New cfg)"
    and "agrees t c h' (fold (ttl_map_step cfg) ops Map.empty)"
    using cache_run_agrees [OF new assms(2,1)] steps by auto
  then have "cache_peek c h' t p = Miss \<or> cache_peek c h' t p = ans"
    by (simp add: agrees_def assms(4))
  moreover have "answers h'' (cache_peek c h' t p) (v, hit, neg)"
    using lru.get_answers [OF ok assms(3)] by simp
  ultimately have "\<not> hit \<or> (if neg then ans = Absent else ans = Present (deref h'' v))"
    by (cases "cache_peek c h' t p") (auto simp: answers_def)
  moreover have "int (cache_Len c) \<le> cc_MaxEntries (c_cfg (cache_New cfg))"
    using ok cfg by (simp add: cache_ok_def cache_inv_def cache_Len_def)
  ultimately show ?thesis
    by (simp add: cache_New_def newWithClock_def Let_def split: if_splits)
qed

definition demo_heap :: mheap where
  "demo_heap = \<lparr>cells = (\<lambda>_. Map.empty), next_addr = 0\<rparr>"

definition demo_ops :: "cache_op list" where
  "demo_ops = [Op_Set 1 ''a'' [''k'' \<mapsto> ''v''] Map.empty, Op_Get 2 ''a'' Map.empty]"

theorem cache_read_is_last_store_or_miss_witness:
  "\<exists>v c' h''. cache_Get 3 ''a'' (fst (fold cache_step demo_ops (cache_New demo_config, demo_heap)))
       (snd (fold cache_step demo_ops (cache_New demo_config, demo_heap))) = ((v, True, False), c', h'') \<and>
     deref h'' v = [''k'' \<mapsto> ''v'']"
proof -
  define s where "s = fold cache_step demo_ops (cache_New demo_config, demo_heap)"
  have "fst (cache_Get 3 ''a'' (fst s) (snd s)) = (Some 3, True, False)"
    unfolding s_def demo_ops_def demo_config_def demo_heap_def
    by (simp add: cache_New_def newWithClock_def cache_Set_def cloneMap_def make_map_def cache_store_def
        cache_Get_def evictLocked.simps msize_def list_MoveToFront_def)
  then obtain c' h'' where get: "cache_Get 3 ''a'' (fst s) (snd s) = ((Some 3, True, False), c', h'')"
    by (cases "cache_Get 3 ''a'' (fst s) (snd s)") auto
  have "list_all (\<lambda>opn. pred_option (\<lambda>now. now \<le> 3) (op_time opn)) demo_ops"
    by (simp add: demo_ops_def)
  from cache_read_is_last_store_or_miss [OF _ this get refl, of demo_config demo_heap]
  have "ttl_map_peek (fold (ttl_map_step demo_config) demo_ops Map.empty) 3 ''a'' = Present (deref h'' (Some 3))"
    by (simp add: s_def)
  then have "deref h'' (Some 3) = [''k'' \<mapsto> ''v'']"
    by (simp add: demo_ops_def demo_config_def ttl_map_peek_def)
  with get show ?thesis by (auto simp: s_def)
qed

end
