(* ===== verification/Go_Utf8.thy ===== *)
theory Go_Utf8
  imports Gateway_Prelude
begin

text \<open>
  What the gateway uses of Go's UTF-8 support: decoding the first and the last rune of a byte
  string (package unicode/utf8), the \<open>range\<close> statement over a string, the white-space
  predicate of package unicode and the trimming functions built on them. An invalid or
  truncated encoding decodes to the replacement rune with width one, as in Go, so decoding is
  total and always makes progress.
\<close>

type_synonym rune = nat

abbreviation RuneError :: rune where
  "RuneError \<equiv> 65533"

abbreviation RuneSelf :: nat where
  "RuneSelf \<equiv> 128"

definition code :: "char \<Rightarrow> nat" where
  "code c = of_char c"

definition is_cont :: "nat \<Rightarrow> bool" where
  "is_cont b \<longleftrightarrow> 128 \<le> b \<and> b \<le> 191"

text \<open>The accepted range of the second byte, by the first (\<open>acceptRanges\<close> in unicode/utf8).\<close>

definition second_ok :: "nat \<Rightarrow> nat \<Rightarrow> bool" where
  "second_ok b0 b1 \<longleftrightarrow>
     (if b0 = 224 then 160 \<le> b1 \<and> b1 \<le> 191
      else if b0 = 237 then 128 \<le> b1 \<and> b1 \<le> 159
      else if b0 = 240 then 144 \<le> b1 \<and> b1 \<le> 191
      else if b0 = 244 then 128 \<le> b1 \<and> b1 \<le> 143
      else is_cont b1)"

text \<open>The number of bytes of an encoding, by its first byte; 0 for a byte that starts none.\<close>

definition rune_len :: "nat \<Rightarrow> nat" where
  "rune_len b0 =
     (if b0 < 128 then 1
      else if 194 \<le> b0 \<and> b0 \<le> 223 then 2
      else if 224 \<le> b0 \<and> b0 \<le> 239 then 3
      else if 240 \<le> b0 \<and> b0 \<le> 244 then 4
      else 0)"

definition decode_codes :: "nat list \<Rightarrow> rune \<times> nat" where
  "decode_codes bs =
     (case bs of
        [] \<Rightarrow> (RuneError, 0)
      | b0 # r \<Rightarrow>
          (let n = rune_len b0 in
           if n = 1 then (b0, 1)
           else if n = 0 \<or> length bs < n \<or> \<not> second_ok b0 (r ! 0) then (RuneError, 1)
           else if n = 2 then ((b0 mod 32) * 64 + r ! 0 mod 64, 2)
           else if \<not> is_cont (r ! 1) then (RuneError, 1)
           else if n = 3 then ((b0 mod 16) * 4096 + (r ! 0 mod 64) * 64 + r ! 1 mod 64, 3)
           else if \<not> is_cont (r ! 2) then (RuneError, 1)
           else ((b0 mod 8) * 262144 + (r ! 0 mod 64) * 4096 + (r ! 1 mod 64) * 64 + r ! 2 mod 64, 4)))"

definition DecodeRune :: "string \<Rightarrow> rune \<times> nat" where
  "DecodeRune s = decode_codes (map code (take 4 s))"

lemma decode_codes_width_pos: "bs \<noteq> [] \<Longrightarrow> 0 < snd (decode_codes bs)"
  by (simp add: decode_codes_def Let_def split: list.splits)

lemma DecodeRune_width_pos: "s \<noteq> [] \<Longrightarrow> 0 < snd (DecodeRune s)"
  by (simp add: DecodeRune_def decode_codes_width_pos)

text \<open>\<open>for _, r := range s\<close> produces the runes of \<open>s\<close> from left to right.\<close>

function runes :: "string \<Rightarrow> rune list" where
  "runes s = (if s = [] then [] else fst (DecodeRune s) # runes (drop (snd (DecodeRune s)) s))"
  by pat_completeness auto
termination
  by (relation "measure length") (auto simp: DecodeRune_width_pos)

declare runes.simps [simp del]

definition RuneStart :: "char \<Rightarrow> bool" where
  "RuneStart c \<longleftrightarrow> \<not> is_cont (code c)"

definition DecodeLastRune :: "string \<Rightarrow> rune \<times> nat" where
  "DecodeLastRune s =
     (if s = [] then (RuneError, 0)
      else if code (last s) < RuneSelf then (code (last s), 1)
      else
        let lim = length s - 4;
            start = (case find (\<lambda>i. RuneStart (s ! i)) (rev [lim..<length s - 1]) of
                       Some i \<Rightarrow> i
                     | None \<Rightarrow> lim - 1);
            (r, size) = DecodeRune (drop start s)
        in if start + size \<noteq> length s then (RuneError, 1) else (r, size))"

definition IsSpace :: "rune \<Rightarrow> bool" where
  "IsSpace r \<longleftrightarrow>
     (9 \<le> r \<and> r \<le> 13) \<or> r = 32 \<or> r = 133 \<or> r = 160 \<or> r = 5760 \<or>
     (8192 \<le> r \<and> r \<le> 8202) \<or> r = 8232 \<or> r = 8233 \<or> r = 8239 \<or> r = 8287 \<or> r = 12288"

function TrimLeftFunc :: "(rune \<Rightarrow> bool) \<Rightarrow> string \<Rightarrow> string" where
  "TrimLeftFunc f s =
     (if s \<noteq> [] \<and> f (fst (DecodeRune s)) then TrimLeftFunc f (drop (snd (DecodeRune s)) s) else s)"
  by pat_completeness auto
termination
  by (relation "measure (\<lambda>(f, s). length s)") (auto simp: DecodeRune_width_pos)

declare TrimLeftFunc.simps [simp del]

lemma DecodeLastRune_width_pos: "s \<noteq> [] \<Longrightarrow> 0 < snd (DecodeLastRune s)"
proof -
  assume s: "s \<noteq> []"
  have "0 < snd (let lim = l; (r, size) = DecodeRune (drop start s)
                 in if start + size \<noteq> length s then (RuneError, 1) else (r, size))"
    if "start < length s" for l start
    using DecodeRune_width_pos [of "drop start s"] that by (auto simp: Let_def split: prod.splits)
  moreover have "(case find P (rev [l..<length s - 1]) of Some i \<Rightarrow> i | None \<Rightarrow> l - 1) < length s"
    if "l < length s" for l P
    using that s by (auto simp: find_Some_iff rev_nth split: option.split)
  ultimately show ?thesis
    using s by (simp add: DecodeLastRune_def Let_def)
qed

function TrimRightFunc :: "(rune \<Rightarrow> bool) \<Rightarrow> string \<Rightarrow> string" where
  "TrimRightFunc f s =
     (if s \<noteq> [] \<and> f (fst (DecodeLastRune s))
      then TrimRightFunc f (take (length s - snd (DecodeLastRune s)) s) else s)"
  by pat_completeness auto
termination
  by (relation "measure (\<lambda>(f, s). length s)") (auto simp: DecodeLastRune_width_pos)

declare TrimRightFunc.simps [simp del]

definition TrimSpace :: "string \<Rightarrow> string" where
  "TrimSpace s = TrimRightFunc IsSpace (TrimLeftFunc IsSpace s)"

subsection \<open>Runes and bytes\<close>

lemma code_less_256: "code c < 256"
  unfolding code_def by (metis of_char_mod_256 mod_less_divisor zero_less_numeral)

lemma code_inj: "code a = code b \<longleftrightarrow> a = b"
  by (simp add: code_def)

lemma DecodeRune_ascii: "s \<noteq> [] \<Longrightarrow> code (hd s) < 128 \<Longrightarrow> DecodeRune s = (code (hd s), 1)"
  by (cases s) (auto simp: DecodeRune_def decode_codes_def rune_len_def Let_def)

text \<open>A multi-byte encoding and the replacement rune are never below 128.\<close>

lemma decode_codes_ge_128:
  assumes "128 \<le> b0"
  shows "128 \<le> fst (decode_codes (b0 # r))"
proof -
  have two: "128 \<le> (b0 mod 32) * 64 + x" if "194 \<le> b0" "b0 \<le> 223" for x
  proof -
    from that have "2 \<le> b0 mod 32" by (simp add: mod_window [of 6])
    then show ?thesis by simp
  qed
  have three: "128 \<le> (b0 mod 16) * 4096 + (x mod 64) * 64 + y"
    if "224 \<le> b0" "b0 \<le> 239" "second_ok b0 x" for x y
  proof (cases "b0 = 224")
    case True
    with that(3) have "160 \<le> x" "x \<le> 191" by (auto simp: second_ok_def)
    then have "32 \<le> x mod 64" by (simp add: mod_window [of 2])
    then show ?thesis by simp
  next
    case False
    with that(1,2) have "1 \<le> b0 mod 16" by (simp add: mod_window [of 14])
    then show ?thesis by simp
  qed
  have four: "128 \<le> (b0 mod 8) * 262144 + (x mod 64) * 4096 + y"
    if "240 \<le> b0" "b0 \<le> 244" "second_ok b0 x" for x y
  proof (cases "b0 = 240")
    case True
    with that(3) have "144 \<le> x" "x \<le> 191" by (auto simp: second_ok_def)
    then have "16 \<le> x mod 64" by (simp add: mod_window [of 2])
    then show ?thesis by simp
  next
    case False
    with that(1,2) have "1 \<le> b0 mod 8" by (simp add: mod_window [of 30])
    then show ?thesis by simp
  qed
  show ?thesis
    using assms two three four
    by (auto simp: decode_codes_def rune_len_def Let_def add.assoc split: if_splits)
qed

lemma DecodeRune_ge_128: "128 \<le> code c \<Longrightarrow> 128 \<le> fst (DecodeRune (c # s))"
  by (simp add: DecodeRune_def decode_codes_ge_128)

lemma runes_Nil [simp]: "runes [] = []"
  by (simp add: runes.simps)

lemma runes_Cons_ascii [simp]: "code c < 128 \<Longrightarrow> runes (c # s) = code c # runes s"
  using DecodeRune_ascii [of "c # s"] by (simp add: runes.simps [of "c # s"])

lemma runes_Cons_high:
  "128 \<le> code c \<Longrightarrow> \<exists>r rs. runes (c # s) = r # rs \<and> 128 \<le> r"
  using DecodeRune_ge_128 [of c s] by (simp add: runes.simps [of "c # s"])

lemma runes_ascii: "\<forall>c \<in> set s. code c < 128 \<Longrightarrow> runes s = map code s"
  by (induction s) auto

text \<open>
  A test that only ASCII runes pass holds of every rune of a string exactly when it holds of
  every byte: a loop over runes and a loop over bytes accept the same strings.
\<close>

lemma list_all_runes_bytes:
  assumes "\<And>r. P r \<Longrightarrow> r < 128"
  shows "list_all P (runes s) \<longleftrightarrow> list_all (\<lambda>c. P (code c)) s"
proof (induction s)
  case Nil
  then show ?case by simp
next
  case (Cons c s)
  show ?case
  proof (cases "code c < 128")
    case True
    with Cons show ?thesis by simp
  next
    case False
    then obtain r rs where "runes (c # s) = r # rs" and "128 \<le> r"
      using runes_Cons_high [of c s] by auto
    moreover have "\<not> P r" and "\<not> P (code c)"
      using assms [of r] assms [of "code c"] False \<open>128 \<le> r\<close> by linarith+
    ultimately show ?thesis by simp
  qed
qed

subsection \<open>Trimming\<close>

lemma TrimLeftFunc_keep:
  "s = [] \<or> \<not> f (fst (DecodeRune s)) \<Longrightarrow> TrimLeftFunc f s = s"
  by (auto simp: TrimLeftFunc.simps [of f s])

lemma TrimRightFunc_keep:
  "s = [] \<or> \<not> f (fst (DecodeLastRune s)) \<Longrightarrow> TrimRightFunc f s = s"
  by (auto simp: TrimRightFunc.simps [of f s])

lemma TrimSpace_Nil [simp]: "TrimSpace [] = []"
  by (simp add: TrimSpace_def TrimLeftFunc_keep TrimRightFunc_keep)

text \<open>A string that starts and ends with a visible ASCII byte is not changed by trimming.\<close>

lemma TrimSpace_visible:
  assumes "s \<noteq> []" and "code (hd s) < 128" "\<not> IsSpace (code (hd s))"
    and "code (last s) < 128" "\<not> IsSpace (code (last s))"
  shows "TrimSpace s = s"
proof -
  have "TrimLeftFunc IsSpace s = s"
    using assms(1-3) by (intro TrimLeftFunc_keep) (simp add: DecodeRune_ascii)
  moreover have "TrimRightFunc IsSpace s = s"
    using assms(1,4,5) by (intro TrimRightFunc_keep) (simp add: DecodeLastRune_def)
  ultimately show ?thesis by (simp add: TrimSpace_def)
qed

end
