(* ===== verification/Go_Strings.thy ===== *)
theory Go_Strings
  imports Go_Utf8
begin

unbundle bit_operations_syntax

text \<open>
  What the gateway uses of the Go packages strings, encoding/hex, strconv and net on byte
  strings: searching and splitting at a separator byte, prefixes, trimming of one byte,
  hexadecimal encoding, decimal conversion and the splitting of a host-port address. Each
  definition follows the library's control flow; the lemmas give the algebra that the
  component theories use instead of unfolding it.
\<close>

subsection \<open>Searching\<close>

fun IndexByte :: "string \<Rightarrow> char \<Rightarrow> nat option" where
  "IndexByte [] c = None"
| "IndexByte (x # xs) c = (if x = c then Some 0 else map_option Suc (IndexByte xs c))"

definition LastIndexByte :: "string \<Rightarrow> char \<Rightarrow> nat option" where
  "LastIndexByte s c = map_option (\<lambda>i. length s - 1 - i) (IndexByte (rev s) c)"

definition HasPrefix :: "string \<Rightarrow> string \<Rightarrow> bool" where
  "HasPrefix s p \<longleftrightarrow> length p \<le> length s \<and> take (length p) s = p"

definition TrimPrefix :: "string \<Rightarrow> string \<Rightarrow> string" where
  "TrimPrefix s p = (if HasPrefix s p then drop (length p) s else s)"

definition CutPrefix :: "string \<Rightarrow> string \<Rightarrow> string \<times> bool" where
  "CutPrefix s p = (if HasPrefix s p then (drop (length p) s, True) else (s, False))"

fun Contains :: "string \<Rightarrow> string \<Rightarrow> bool" where
  "Contains [] p = HasPrefix [] p"
| "Contains (x # xs) p = (HasPrefix (x # xs) p \<or> Contains xs p)"

subsection \<open>Splitting and joining\<close>

fun Split :: "string \<Rightarrow> char \<Rightarrow> string list" where
  "Split [] c = [[]]"
| "Split (x # xs) c =
     (if x = c then [] # Split xs c
      else (case Split xs c of [] \<Rightarrow> [[x]] | y # ys \<Rightarrow> (x # y) # ys))"

text \<open>\<open>strings.SplitN(s, sep, 2)\<close> for a separator of one byte.\<close>

definition SplitN2 :: "string \<Rightarrow> char \<Rightarrow> string list" where
  "SplitN2 s c = (case IndexByte s c of None \<Rightarrow> [s] | Some i \<Rightarrow> [take i s, drop (Suc i) s])"

fun Join :: "string list \<Rightarrow> string \<Rightarrow> string" where
  "Join [] sep = []"
| "Join [x] sep = x"
| "Join (x # y # ys) sep = x @ sep @ Join (y # ys) sep"

subsection \<open>Trimming one byte\<close>

definition TrimLeftByte :: "string \<Rightarrow> char \<Rightarrow> string" where
  "TrimLeftByte s c = dropWhile (\<lambda>x. x = c) s"

definition TrimRightByte :: "string \<Rightarrow> char \<Rightarrow> string" where
  "TrimRightByte s c = rev (dropWhile (\<lambda>x. x = c) (rev s))"

definition TrimByte :: "string \<Rightarrow> char \<Rightarrow> string" where
  "TrimByte s c = TrimRightByte (TrimLeftByte s c) c"

subsection \<open>Hexadecimal and decimal text\<close>

definition hextable :: string where
  "hextable = ''0123456789abcdef''"

definition hex_byte :: "byte \<Rightarrow> string" where
  "hex_byte v = [hextable ! unat (drop_bit 4 v), hextable ! unat (v AND 15)]"

definition EncodeToString :: "byte list \<Rightarrow> string" where
  "EncodeToString b = concat (map hex_byte b)"

fun dec_digits :: "nat \<Rightarrow> string" where
  "dec_digits n =
     (if n < 10 then [hextable ! n] else dec_digits (n div 10) @ [hextable ! (n mod 10)])"

declare dec_digits.simps [simp del]

definition Itoa :: "int \<Rightarrow> string" where
  "Itoa i = (if i < 0 then CHR ''-'' # dec_digits (nat (- i)) else dec_digits (nat i))"

definition is_digit :: "char \<Rightarrow> bool" where
  "is_digit c \<longleftrightarrow> 48 \<le> code c \<and> code c \<le> 57"

fun dec_value :: "string \<Rightarrow> nat \<Rightarrow> nat" where
  "dec_value [] acc = acc"
| "dec_value (c # cs) acc = dec_value cs (acc * 10 + (code c - 48))"

text \<open>\<open>strconv.Atoi\<close>: an optional sign, decimal digits only, and the range of a 64-bit int.\<close>

definition Atoi :: "string \<Rightarrow> int option" where
  "Atoi s =
     (let neg = HasPrefix s ''-'';
          d = (if HasPrefix s ''-'' \<or> HasPrefix s ''+'' then drop 1 s else s)
      in if d = [] \<or> \<not> list_all is_digit d then None
         else let v = (if neg then - int (dec_value d 0) else int (dec_value d 0))
              in if - (2 ^ 63) \<le> v \<and> v < 2 ^ 63 then Some v else None)"

subsection \<open>Host and port\<close>

text \<open>\<open>net.SplitHostPort\<close>; \<open>None\<close> is its error.\<close>

definition SplitHostPort :: "string \<Rightarrow> (string \<times> string) option" where
  "SplitHostPort hp =
     (case LastIndexByte hp CHR '':'' of
        None \<Rightarrow> None
      | Some i \<Rightarrow>
          if HasPrefix hp ''['' then
            (case IndexByte hp CHR '']'' of
               None \<Rightarrow> None
             | Some e \<Rightarrow>
                 if Suc e = i \<and> CHR ''['' \<notin> set (drop 1 hp) \<and> CHR '']'' \<notin> set (drop (Suc e) hp)
                 then Some (take (e - 1) (drop 1 hp), drop (Suc i) hp) else None)
          else if CHR '':'' \<notin> set (take i hp) \<and> CHR ''['' \<notin> set hp \<and> CHR '']'' \<notin> set hp
          then Some (take i hp, drop (Suc i) hp) else None)"

text \<open>The verb %q on printable ASCII without quotes and backslashes.\<close>

definition quoted :: "string \<Rightarrow> string" where
  "quoted s = ''\"'' @ s @ ''\"''"

text \<open>\<open>net.JoinHostPort\<close>: an IPv6 literal (a host with a colon) is put in brackets.\<close>

definition JoinHostPort :: "string \<Rightarrow> string \<Rightarrow> string" where
  "JoinHostPort host port =
     (if IndexByte host CHR '':'' \<noteq> None then ''['' @ host @ '']:'' @ port else host @ '':'' @ port)"

subsection \<open>Facts about searching\<close>

lemma IndexByte_None [simp]: "IndexByte s c = None \<longleftrightarrow> c \<notin> set s"
  by (induction s) auto

lemma IndexByte_append [simp]: "c \<notin> set a \<Longrightarrow> IndexByte (a @ c # b) c = Some (length a)"
  by (induction a) auto

lemma IndexByte_Some:
  "IndexByte s c = Some i \<Longrightarrow> s = take i s @ c # drop (Suc i) s \<and> c \<notin> set (take i s) \<and> i < length s"
  by (induction s arbitrary: i) (fastforce split: if_splits)+

lemma HasPrefix_iff: "HasPrefix s p \<longleftrightarrow> (\<exists>t. s = p @ t)"
  by (auto simp: HasPrefix_def) (metis append_take_drop_id)

lemma HasPrefix_append [simp]: "HasPrefix (p @ t) p"
  by (simp add: HasPrefix_def)

lemma TrimPrefix_append [simp]: "TrimPrefix (p @ t) p = t"
  by (simp add: TrimPrefix_def)

lemma CutPrefix_append [simp]: "CutPrefix (p @ t) p = (t, True)"
  by (simp add: CutPrefix_def)

lemma CutPrefix_True: "CutPrefix s p = (t, True) \<longleftrightarrow> s = p @ t"
  by (auto simp: CutPrefix_def HasPrefix_iff)

lemma Contains_iff: "Contains s p \<longleftrightarrow> (\<exists>a b. s = a @ p @ b)"
proof (induction s)
  case Nil
  then show ?case by (auto simp: HasPrefix_iff)
next
  case (Cons x xs)
  have "(\<exists>a b. x # xs = a @ p @ b) \<longleftrightarrow> (\<exists>t. x # xs = p @ t) \<or> (\<exists>a b. xs = a @ p @ b)"
    by (auto simp: Cons_eq_append_conv)
  with Cons show ?case by (simp add: HasPrefix_iff)
qed

subsection \<open>Facts about splitting\<close>

lemma Split_nonempty [simp]: "Split s c \<noteq> []"
  by (induction s) (auto split: list.splits)

lemma Split_sep [simp]: "Split (c # s) c = [] # Split s c"
  by simp

lemma Split_no_sep: "c \<notin> set s \<Longrightarrow> Split s c = [s]"
  by (induction s) auto

lemma Split_segments: "seg \<in> set (Split s c) \<Longrightarrow> c \<notin> set seg"
  by (induction s arbitrary: seg) (auto split: if_splits list.splits)

lemma Split_append_sep: "Split (a @ c # b) c = Split a c @ Split b c"
  by (induction a) (auto split: list.splits)

lemma Split_chars: "\<Union> (set ` set (Split s c)) = set s - {c}"
proof (induction s)
  case Nil
  then show ?case by simp
next
  case (Cons x s)
  then show ?case by (cases "Split s c"; cases "x = c") (simp_all, blast)
qed

lemma Split_Nil_iff: "Split s c = [[]] \<longleftrightarrow> s = []"
  by (cases s) (auto split: list.splits)

lemma Join_Cons: "xs \<noteq> [] \<Longrightarrow> Join (x # xs) sep = x @ sep @ Join xs sep"
  by (cases xs) auto

lemma Join_Split: "Join (Split s c) [c] = s"
proof (induction s)
  case Nil
  then show ?case by simp
next
  case (Cons x xs)
  then show ?case
    by (cases "Split xs c"; cases "tl (Split xs c)") (auto simp: Join_Cons)
qed

lemma Split_inj: "Split s c = Split t c \<Longrightarrow> s = t"
  by (metis Join_Split)

lemma Split_Join:
  "xs \<noteq> [] \<Longrightarrow> \<forall>x \<in> set xs. c \<notin> set x \<Longrightarrow> Split (Join xs [c]) c = xs"
proof (induction xs)
  case Nil
  then show ?case by simp
next
  case (Cons x xs)
  then show ?case
    by (cases "xs = []") (auto simp: Split_no_sep Join_Cons Split_append_sep)
qed

lemma SplitN2_two: "SplitN2 s c = [a, b] \<longleftrightarrow> s = a @ c # b \<and> c \<notin> set a"
proof
  assume "SplitN2 s c = [a, b]"
  then obtain i where "IndexByte s c = Some i" "a = take i s" "b = drop (Suc i) s"
    by (auto simp: SplitN2_def split: option.splits)
  then show "s = a @ c # b \<and> c \<notin> set a"
    using IndexByte_Some [of s c i] by auto
next
  assume "s = a @ c # b \<and> c \<notin> set a"
  then show "SplitN2 s c = [a, b]" by (simp add: SplitN2_def)
qed

lemma SplitN2_one: "SplitN2 s c = [a] \<longleftrightarrow> s = a \<and> c \<notin> set s"
  by (cases "IndexByte s c") (auto simp: SplitN2_def simp flip: IndexByte_None)

lemma SplitN2_cases:
  obtains (one) "SplitN2 s c = [s]" "c \<notin> set s"
    | (two) a b where "SplitN2 s c = [a, b]" "s = a @ c # b" "c \<notin> set a"
proof (cases "c \<in> set s")
  case True
  then obtain a b where "s = a @ c # b" "c \<notin> set a"
    by (meson split_list_first)
  then show ?thesis using two SplitN2_two by blast
next
  case False
  then show ?thesis using one SplitN2_one by blast
qed

subsection \<open>Facts about trimming one byte\<close>

lemma TrimByte_keep: "s = [] \<or> (hd s \<noteq> c \<and> last s \<noteq> c) \<Longrightarrow> TrimByte s c = s"
proof -
  assume s: "s = [] \<or> (hd s \<noteq> c \<and> last s \<noteq> c)"
  then have "dropWhile (\<lambda>x. x = c) s = s" and "dropWhile (\<lambda>x. x = c) (rev s) = rev s"
    by (auto simp: dropWhile_eq_self_iff hd_rev)
  then show ?thesis by (simp add: TrimByte_def TrimLeftByte_def TrimRightByte_def)
qed

lemma TrimByte_Cons_sep [simp]: "TrimByte (c # s) c = TrimByte s c"
  by (simp add: TrimByte_def TrimLeftByte_def)

lemma TrimByte_snoc_sep [simp]: "TrimByte (s @ [c]) c = TrimByte s c"
  by (cases "\<forall>x \<in> set s. x = c")
    (auto simp: TrimByte_def TrimLeftByte_def TrimRightByte_def dropWhile_append3 dropWhile_append
      dest: set_dropWhileD)

subsection \<open>Facts about hexadecimal text\<close>

lemma length_hextable [simp]: "length hextable = 16"
  by (simp add: hextable_def)

lemma distinct_hextable: "distinct hextable"
  by (simp add: hextable_def)

lemma hex_nibbles:
  "unat (drop_bit 4 (v :: byte)) = unat v div 16" "unat (v AND 15) = unat v mod 16"
proof -
  show "unat (drop_bit 4 v) = unat v div 16"
    by (simp add: drop_bit_eq_div unat_div)
  have "v AND 15 = take_bit 4 v"
    by (simp add: take_bit_eq_mask mask_eq_exp_minus_1)
  then show "unat (v AND 15) = unat v mod 16"
    by (simp add: take_bit_eq_mod unat_mod)
qed

lemma unat_byte_bound: "unat (v :: byte) < 256"
  using unsigned_less [of v, where ?'a = nat] by simp

lemma length_hex_byte [simp]: "length (hex_byte v) = 2"
  by (simp add: hex_byte_def)

lemma hex_byte_inj: "hex_byte v = hex_byte w \<longleftrightarrow> v = w"
proof
  assume "hex_byte v = hex_byte w"
  moreover have "unat v div 16 < 16" "unat w div 16 < 16"
    using unat_byte_bound [of v] unat_byte_bound [of w] by auto
  ultimately have "unat v div 16 = unat w div 16" and "unat v mod 16 = unat w mod 16"
    using nth_eq_iff_index_eq [OF distinct_hextable] by (auto simp: hex_byte_def hex_nibbles)
  then have "unat v = unat w"
    by (metis div_mult_mod_eq)
  then show "v = w" by (rule unsigned_word_eqI)
qed simp

lemma length_EncodeToString: "length (EncodeToString b) = 2 * length b"
  by (induction b) (auto simp: EncodeToString_def)

lemma EncodeToString_inj: "EncodeToString b = EncodeToString b' \<longleftrightarrow> b = b'"
proof
  show "EncodeToString b = EncodeToString b' \<Longrightarrow> b = b'"
  proof (induction b arbitrary: b')
    case Nil
    then show ?case
      by (cases b') (auto simp: EncodeToString_def hex_byte_def)
  next
    case (Cons v b)
    then obtain w bs where b': "b' = w # bs"
      by (cases b') (auto simp: EncodeToString_def hex_byte_def)
    with Cons.prems have "hex_byte v @ EncodeToString b = hex_byte w @ EncodeToString bs"
      by (simp add: EncodeToString_def)
    then have "hex_byte v = hex_byte w" and "EncodeToString b = EncodeToString bs"
      by auto
    with Cons.IH b' show ?case by (simp add: hex_byte_inj)
  qed
qed simp

lemma hex_byte_digits: "set (hex_byte v) \<subseteq> set hextable"
  using unat_byte_bound [of v] by (auto simp: hex_byte_def hex_nibbles)

lemma EncodeToString_digits: "set (EncodeToString b) \<subseteq> set hextable"
  using hex_byte_digits by (fastforce simp: EncodeToString_def)

end
