(* ===== verification/Gateway_World.thy ===== *)
theory Gateway_World
  imports Cache_Contract Go_Strings
begin

text \<open>
  The state the components share besides their own: the heap of maps, the metrics of
  internal/metrics/metrics.go and the structured log. A counter, a gauge or a histogram with
  labels is a function from the label values; a histogram keeps the observed durations. What is
  registered with Prometheus is a list of descriptors; the registry and its text exposition are the
  library's.
  Components hold a metrics pointer that may be nil; since the process has one \<open>Metrics\<close>, the
  pointer is a flag.
\<close>

record Metrics =
  m_AuthRequests :: "string \<times> string \<Rightarrow> nat"
  m_SecretRequests :: "string \<times> string \<Rightarrow> nat"
  m_CacheHits :: "string \<Rightarrow> nat"
  m_CacheMisses :: "string \<Rightarrow> nat"
  m_RateLimitExceeded :: nat
  m_SecretDuration :: "string \<Rightarrow> duration list"
  m_AuthDuration :: "duration list"
  m_HealthCheckDur :: "string \<Rightarrow> duration list"
  m_ActiveTokens :: nat
  m_CacheEntries :: "string \<Rightarrow> nat"
  m_Info :: "string \<times> string \<times> string \<Rightarrow> nat"

definition metrics_New :: Metrics where
  "metrics_New =
     \<lparr>m_AuthRequests = (\<lambda>_. 0), m_SecretRequests = (\<lambda>_. 0), m_CacheHits = (\<lambda>_. 0), m_CacheMisses = (\<lambda>_. 0),
      m_RateLimitExceeded = 0, m_SecretDuration = (\<lambda>_. []), m_AuthDuration = [], m_HealthCheckDur = (\<lambda>_. []),
      m_ActiveTokens = 0, m_CacheEntries = (\<lambda>_. 0), m_Info = (\<lambda>_. 0)\<rparr>"

text \<open>
  The descriptors that \<open>New\<close> registers, in the order of the call of \<open>MustRegister\<close>. The call panics on a
  name that is registered already, and on a name or a label that Prometheus does not allow.
\<close>

record collector =
  co_Name :: string
  co_Labels :: "string list"

definition collectors :: "collector list" where
  "collectors =
     [\<lparr>co_Name = ''vault_gateway_auth_requests_total'', co_Labels = [''status'', ''role'']\<rparr>,
      \<lparr>co_Name = ''vault_gateway_secret_requests_total'', co_Labels = [''status'', ''backend'']\<rparr>,
      \<lparr>co_Name = ''vault_gateway_cache_hits_total'', co_Labels = [''backend'']\<rparr>,
      \<lparr>co_Name = ''vault_gateway_cache_misses_total'', co_Labels = [''backend'']\<rparr>,
      \<lparr>co_Name = ''vault_gateway_rate_limit_exceeded_total'', co_Labels = []\<rparr>,
      \<lparr>co_Name = ''vault_gateway_secret_request_duration_seconds'', co_Labels = [''backend'']\<rparr>,
      \<lparr>co_Name = ''vault_gateway_auth_request_duration_seconds'', co_Labels = []\<rparr>,
      \<lparr>co_Name = ''vault_gateway_backend_health_check_duration_seconds'', co_Labels = [''backend'']\<rparr>,
      \<lparr>co_Name = ''vault_gateway_active_tokens'', co_Labels = []\<rparr>,
      \<lparr>co_Name = ''vault_gateway_cache_entries'', co_Labels = [''backend'']\<rparr>,
      \<lparr>co_Name = ''vault_gateway_info'', co_Labels = [''version'', ''backend'', ''go_version'']\<rparr>]"

definition metric_name_ok :: "string \<Rightarrow> bool" where
  "metric_name_ok s \<longleftrightarrow> s \<noteq> '''' \<and> \<not> is_digit (hd s) \<and>
     list_all (\<lambda>c. is_digit c \<or> 97 \<le> code c \<and> code c \<le> 122 \<or> c = CHR ''_'') s"

lemma collectors_can_be_registered:
  "distinct (map co_Name collectors)"
  "list_all (\<lambda>c. metric_name_ok (co_Name c) \<and> distinct (co_Labels c) \<and> list_all metric_name_ok (co_Labels c)) collectors"
  by (simp add: collectors_def, simp add: collectors_def metric_name_ok_def is_digit_def code_def)

definition SetInfo :: "string \<Rightarrow> string \<Rightarrow> string \<Rightarrow> Metrics \<Rightarrow> Metrics" where
  "SetInfo ver be go m = m\<lparr>m_Info := (m_Info m)((ver, be, go) := 1)\<rparr>"

text \<open>\<open>WithLabelValues(l).Inc()\<close> and \<open>WithLabelValues(l).Observe(d)\<close>.\<close>

definition inc :: "'l \<Rightarrow> ('l \<Rightarrow> nat) \<Rightarrow> 'l \<Rightarrow> nat" where
  "inc l f = f(l := Suc (f l))"

definition observe :: "'l \<Rightarrow> duration \<Rightarrow> ('l \<Rightarrow> duration list) \<Rightarrow> 'l \<Rightarrow> duration list" where
  "observe l d f = f(l := f l @ [d])"

datatype level = LevelDebug | LevelInfo | LevelWarn | LevelError

record log_entry =
  l_level :: level
  l_msg :: string
  l_attrs :: "(string \<times> string) list"

record world =
  w_heap :: mheap
  w_metrics :: Metrics
  w_log :: "log_entry list"

definition slog :: "level \<Rightarrow> string \<Rightarrow> (string \<times> string) list \<Rightarrow> world \<Rightarrow> world" where
  "slog lv msg attrs w = w\<lparr>w_log := w_log w @ [\<lparr>l_level = lv, l_msg = msg, l_attrs = attrs\<rparr>]\<rparr>"

definition bool_str :: "bool \<Rightarrow> string" where
  "bool_str b = (if b then ''true'' else ''false'')"

definition upd_metrics :: "bool \<Rightarrow> (Metrics \<Rightarrow> Metrics) \<Rightarrow> world \<Rightarrow> world" where
  "upd_metrics present f w = (if present then w\<lparr>w_metrics := f (w_metrics w)\<rparr> else w)"

lemma slog_fields [simp]:
  "w_heap (slog lv msg attrs w) = w_heap w" "w_metrics (slog lv msg attrs w) = w_metrics w"
  by (simp_all add: slog_def)

lemma upd_metrics_fields [simp]:
  "w_heap (upd_metrics b f w) = w_heap w" "w_log (upd_metrics b f w) = w_log w"
  by (simp_all add: upd_metrics_def)

end
