(* ===== verification/Secret_Backend.thy ===== *)
theory Secret_Backend
  imports Gateway_World
begin

text \<open>
  internal/backend/backend.go: the sentinel errors and the \<open>SecretBackend\<close> interface, here the
  locale \<open>secret_backend\<close>, and the read-through discipline all four implementations follow. The
  discipline is stated once, as \<open>read_through\<close>, with its laws; each backend theory shows that
  the backend's own \<open>GetSecret\<close> is an instance of it and interprets the locale.
\<close>

text \<open>An error that wraps one of the sentinels, or none, with its message.\<close>

datatype backend_error =
    ErrSecretNotFound string
  | ErrBackendUnavailable string
  | ErrOther string

fun error_text :: "backend_error \<Rightarrow> string" where
  "error_text (ErrSecretNotFound s) = s"
| "error_text (ErrBackendUnavailable s) = s"
| "error_text (ErrOther s) = s"

abbreviation errSecretNotFound :: backend_error where
  "errSecretNotFound \<equiv> ErrSecretNotFound ''secret not found''"

definition is_sentinel :: "backend_error \<Rightarrow> bool" where
  "is_sentinel e = (case e of ErrOther _ \<Rightarrow> False | _ \<Rightarrow> True)"

text \<open>What asking the remote store came to: a map (or nil), an absence that is worth
  remembering, or an error that is not.\<close>

datatype outcome = Value "strmap option" | Missing | Failed backend_error

definition alloc :: "strmap option \<Rightarrow> mheap \<Rightarrow> mref \<times> mheap" where
  "alloc m h = (case m of None \<Rightarrow> (None, h) | Some m \<Rightarrow> make_map m h)"

definition alloc_deref :: "strmap option \<Rightarrow> strmap" where
  "alloc_deref m = (case m of None \<Rightarrow> Map.empty | Some m \<Rightarrow> m)"

definition bump_hits :: "string \<Rightarrow> bool \<Rightarrow> world \<Rightarrow> world" where
  "bump_hits name present = upd_metrics present (\<lambda>m. m\<lparr>m_CacheHits := inc name (m_CacheHits m)\<rparr>)"

definition bump_misses :: "string \<Rightarrow> bool \<Rightarrow> world \<Rightarrow> world" where
  "bump_misses name present = upd_metrics present (\<lambda>m. m\<lparr>m_CacheMisses := inc name (m_CacheMisses m)\<rparr>)"

definition gauge_entries :: "string \<Rightarrow> bool \<Rightarrow> nat \<Rightarrow> world \<Rightarrow> world" where
  "gauge_entries name present n = upd_metrics present (\<lambda>m. m\<lparr>m_CacheEntries := (m_CacheEntries m)(name := n)\<rparr>)"

definition read_through ::
  "string \<Rightarrow> bool \<Rightarrow> outcome \<times> (world \<Rightarrow> world) \<Rightarrow> time \<Rightarrow> time \<Rightarrow> string \<Rightarrow> Cache \<Rightarrow> world \<Rightarrow>
   (backend_error + mref) \<times> Cache \<times> world" where
  "read_through name metric fetched t1 t2 key c w =
     (case cache_Get t1 key c (w_heap w) of
        ((v, hit, neg), c, h) \<Rightarrow>
          let w = w\<lparr>w_heap := h\<rparr> in
          if hit then
            let w = bump_hits name metric w in
            if neg then (Inl errSecretNotFound, c, w) else (Inr v, c, w)
          else
            let w = snd fetched (bump_misses name metric w) in
            (case fst fetched of
               Failed e \<Rightarrow> (Inl e, c, w)
             | Missing \<Rightarrow> (Inl errSecretNotFound, cache_SetNegative t2 key c, w)
             | Value m \<Rightarrow>
                 let (v, h) = alloc m (w_heap w);
                     (c, h) = cache_Set t2 key v c h
                 in (Inr v, c, gauge_entries name metric (cache_Len c) (w\<lparr>w_heap := h\<rparr>))))"

lemma world_effects [simp]:
  "w_heap (bump_hits name b w) = w_heap w" "w_log (bump_hits name b w) = w_log w"
  "w_heap (bump_misses name b w) = w_heap w" "w_log (bump_misses name b w) = w_log w"
  "w_heap (gauge_entries name b n w) = w_heap w" "w_log (gauge_entries name b n w) = w_log w"
  by (simp_all add: bump_hits_def bump_misses_def gauge_entries_def)

lemma alloc_spec:
  assumes "alloc m h = (v, h')"
  shows "extends h h'" and "fresh_ref h h' v" and "valid_ref h' v" and "deref h' v = alloc_deref m"
  using assms extends_make_map [of _ h v h'] make_map_deref [of _ h v h']
  by (auto simp: alloc_def alloc_deref_def fresh_ref_def valid_ref_def deref_def split: option.splits)

lemma fresh_valid: "fresh_ref h h' v \<Longrightarrow> valid_ref h' v"
  by (auto simp: fresh_ref_def valid_ref_def)

lemma fresh_extends: "fresh_ref h h' v \<Longrightarrow> extends h' h'' \<Longrightarrow> fresh_ref h h'' v"
  by (auto simp: fresh_ref_def extends_def)

lemma fresh_extends_left: "extends h h' \<Longrightarrow> fresh_ref h' h'' v \<Longrightarrow> fresh_ref h h'' v"
  by (auto simp: fresh_ref_def extends_def)

lemma valid_extends_deref: "valid_ref h v \<Longrightarrow> extends h h' \<Longrightarrow> deref h' v = deref h v"
  by (cases v) (auto simp: extends_def deref_def valid_ref_def)

subsection \<open>The contract of a backend\<close>

text \<open>
  \<open>view\<close> is what the backend's cache would answer for a path, \<open>fetch\<close> what the remote store
  answers now, \<open>held\<close> the maps the backend keeps. A result is a map nobody else holds, so that
  the caller may erase it.
\<close>

definition result_ok :: "answer \<Rightarrow> outcome \<Rightarrow> mheap \<Rightarrow> backend_error + mref \<Rightarrow> bool" where
  "result_ok ans out h r =
     (case ans of
        Present m \<Rightarrow> (\<exists>v. r = Inr v \<and> deref h v = m)
      | Absent \<Rightarrow> r = Inl errSecretNotFound
      | Miss \<Rightarrow>
          (case out of
             Value m \<Rightarrow> (\<exists>v. r = Inr v \<and> deref h v = alloc_deref m)
           | Missing \<Rightarrow> r = Inl errSecretNotFound
           | Failed e \<Rightarrow> r = Inl e))"

locale secret_backend =
  fixes ok :: "'b \<Rightarrow> mheap \<Rightarrow> bool"
    and view :: "'b \<Rightarrow> mheap \<Rightarrow> time \<Rightarrow> string \<Rightarrow> answer"
    and held :: "'b \<Rightarrow> nat set"
    and fetch :: "'b \<Rightarrow> string \<Rightarrow> outcome"
    and GetSecret :: "time \<Rightarrow> time \<Rightarrow> string \<Rightarrow> 'b \<Rightarrow> world \<Rightarrow> (backend_error + mref) \<times> 'b \<times> world"
  assumes sentinel: "fetch b path = Failed e \<Longrightarrow> is_sentinel e"
    and foreign: "ok b h \<Longrightarrow> a \<notin> held b \<Longrightarrow> ok b (write_map a m h) \<and> view b (write_map a m h) = view b h"
    and keeps: "ok b (w_heap w) \<Longrightarrow> GetSecret t1 t2 path b w = (r, b', w') \<Longrightarrow>
      ok b' (w_heap w') \<and> extends (w_heap w) (w_heap w')"
    and result: "ok b (w_heap w) \<Longrightarrow> GetSecret t1 t2 path b w = (r, b', w') \<Longrightarrow>
      result_ok (view b (w_heap w) t1 path) (fetch b path) (w_heap w') r"
    and fresh: "ok b (w_heap w) \<Longrightarrow> GetSecret t1 t2 path b w = (Inr (Some a), b', w') \<Longrightarrow>
      a \<notin> held b' \<and> next_addr (w_heap w) \<le> a \<and> a < next_addr (w_heap w')"
    and silent: "GetSecret t1 t2 path b w = (Inr v, b', w') \<Longrightarrow> w_log w' = w_log w"
begin

lemma only_sentinels:
  assumes "ok b (w_heap w)" and "GetSecret t1 t2 path b w = (Inl e, b', w')"
  shows "is_sentinel e"
  using result [OF assms] sentinel [of b path]
  by (auto simp: result_ok_def is_sentinel_def split: answer.splits outcome.splits)

text \<open>Erasing the returned map leaves the backend as it was.\<close>

lemma erase_result:
  assumes "ok b (w_heap w)" and "GetSecret t1 t2 path b w = (Inr (Some a), b', w')"
  shows "ok b' (write_map a m (w_heap w'))" and "view b' (write_map a m (w_heap w')) = view b' (w_heap w')"
  using foreign [of b' "w_heap w'" a m] fresh [OF assms] keeps [OF assms] by auto

end

subsection \<open>Read-through meets it\<close>

text \<open>The logging a fetch does leaves heap and metrics alone.\<close>

definition logs_only :: "(world \<Rightarrow> world) \<Rightarrow> bool" where
  "logs_only f \<longleftrightarrow> (\<forall>w. w_heap (f w) = w_heap w)"

lemma logs_only_intros [simp]: "logs_only id" "logs_only (\<lambda>w. w)" "logs_only (slog lv msg attrs)"
  by (simp_all add: logs_only_def)

text \<open>What a fetch stores: the cache keeps a copy, so the value that is returned stays the caller's own.\<close>

lemma alloc_then_Set:
  assumes "cache_ok c h" and al: "alloc m h = (v, h1)" and set: "cache_Set t key v c h1 = (c', h')"
  shows "cache_ok c' h'" and "extends h h'" and "deref h' v = alloc_deref m"
    and "v = Some a \<Longrightarrow> a \<notin> owned c' \<and> next_addr h \<le> a \<and> a < next_addr h'"
proof -
  have ok: "cache_ok c h1" using lru.heap_grows [OF assms(1) alloc_spec(1) [OF al]] by simp
  note keep = cache_Set_keeps [OF ok set]
  from keep show "cache_ok c' h'" by simp
  show "extends h h'" by (rule extends_trans [OF alloc_spec(1) [OF al] keep(2)])
  show "deref h' v = alloc_deref m"
    using valid_extends_deref [OF alloc_spec(3) [OF al] keep(2)] alloc_spec(4) [OF al] by simp
  assume "v = Some a"
  then have "next_addr h \<le> a" "a < next_addr h1" using alloc_spec(2) [OF al] by (auto simp: fresh_ref_def)
  moreover from this have "a \<notin> owned c" using lru.held_allocated [OF assms(1)] by auto
  ultimately show "a \<notin> owned c' \<and> next_addr h \<le> a \<and> a < next_addr h'" using keep(2,3) by (auto simp: extends_def)
qed

lemma read_through_spec:
  assumes "cache_ok c (w_heap w)" and "logs_only (snd fetched)"
    and "read_through name metric fetched t1 t2 key c w = (r, c', w')"
  shows "cache_ok c' (w_heap w') \<and> extends (w_heap w) (w_heap w') \<and>
    result_ok (cache_peek c (w_heap w) t1 key) (fst fetched) (w_heap w') r \<and>
    (\<forall>a. r = Inr (Some a) \<longrightarrow> a \<notin> owned c' \<and> next_addr (w_heap w) \<le> a \<and> a < next_addr (w_heap w'))"
proof -
  obtain v hit neg c1 h1 where get: "cache_Get t1 key c (w_heap w) = ((v, hit, neg), c1, h1)"
    by (cases "cache_Get t1 key c (w_heap w)") auto
  note keep = cache_Get_keeps [OF assms(1) get]
  have ans: "answers h1 (cache_peek c (w_heap w) t1 key) (v, hit, neg)" and fr: "fresh_ref (w_heap w) h1 v"
    using lru.get_answers [OF assms(1) get] by auto
  have quiet: "w_heap (snd fetched u) = w_heap u" for u
    using assms(2) by (simp add: logs_only_def)
  show ?thesis
  proof (cases hit)
    case True
    then have "cache_peek c (w_heap w) t1 key \<noteq> Miss" using ans by (auto simp: answers_def)
    then show ?thesis
      using True assms(3) get keep ans fr lru.fresh_not_held [OF assms(1), of h1 _ c1]
      by (cases "cache_peek c (w_heap w) t1 key")
        (auto simp: read_through_def answers_def result_ok_def Let_def fresh_ref_def split: if_splits)
  next
    case False
    then have miss: "cache_peek c (w_heap w) t1 key = Miss"
      using ans by (auto simp: answers_def split: answer.splits)
    show ?thesis
    proof (cases "fst fetched")
      case (Value m)
      obtain v2 h2 where al: "alloc m h1 = (v2, h2)" by (cases "alloc m h1")
      obtain c3 h3 where set: "cache_Set t2 key v2 c1 h2 = (c3, h3)" by (cases "cache_Set t2 key v2 c1 h2")
      have eq: "r = Inr v2" "c' = c3" "w_heap w' = h3"
        using assms(3) get False Value al set by (auto simp: read_through_def Let_def quiet)
      note stored = alloc_then_Set [OF keep(1) al set]
      have "next_addr (w_heap w) \<le> next_addr h1" using keep(2) by (simp add: extends_def)
      with stored(4) have "a \<notin> owned c3 \<and> next_addr (w_heap w) \<le> a \<and> a < next_addr h3" if "v2 = Some a" for a
        using that order_trans by blast
      with stored(1,3) eq miss extends_trans [OF keep(2) stored(2)] show ?thesis by (simp add: result_ok_def Value)
    next
      case Missing
      then show ?thesis
        using assms(3) get False miss keep cache_SetNegative_keeps [OF keep(1), of t2 key]
        by (auto simp: read_through_def result_ok_def Let_def quiet)
    next
      case (Failed e)
      then show ?thesis
        using assms(3) get False miss keep
        by (auto simp: read_through_def result_ok_def Let_def quiet)
    qed
  qed
qed

text \<open>A read that returns a value, from the cache or from the store, logs nothing.\<close>

definition silent_values :: "outcome \<times> (world \<Rightarrow> world) \<Rightarrow> bool" where
  "silent_values fetched \<longleftrightarrow> (case fst fetched of Value _ \<Rightarrow> snd fetched = (\<lambda>w. w) | _ \<Rightarrow> True)"

lemma read_through_silent:
  "silent_values fetched \<Longrightarrow> read_through name metric fetched t1 t2 key c w = (Inr v, c', w') \<Longrightarrow> w_log w' = w_log w"
  by (auto simp: read_through_def silent_values_def Let_def split: prod.splits if_splits outcome.splits)

lemma read_through_miss:
  assumes "cache_ok c (w_heap w)"  and "cache_peek c (w_heap w) t1 key \<noteq> Miss"
  shows "read_through name metric fetched t1 t2 key c w = read_through name metric fetched' t1 t2' key c w"
proof -
  obtain v hit neg c1 h1 where get: "cache_Get t1 key c (w_heap w) = ((v, hit, neg), c1, h1)"
    by (cases "cache_Get t1 key c (w_heap w)") auto
  have hit
    using lru.get_answers [OF assms(1) get] assms(2)
    by (cases "cache_peek c (w_heap w) t1 key") (auto simp: answers_def)
  with get show ?thesis by (simp add: read_through_def)
qed

end
