(* ===== verification/Go_Json.thy ===== *)
theory Go_Json
  imports Go_Strings
begin

text \<open>
  What the gateway uses of encoding/json for reading: a document is scanned byte by byte by a
  state machine, checked against the grammar with a stack of open arrays and objects (at most
  10000 deep) and only then stored into the destination. Two destinations occur: a
  \<open>map[string]string\<close> and a struct of string fields. String literals are unquoted the way Go
  does it: escapes, surrogate pairs, and the replacement rune for broken surrogates and for
  bytes that are not UTF-8.
\<close>

datatype jvalue =
    JNull
  | JBool bool
  | JNumber string
  | JString string
  | JArray "jvalue list"
  | JObject "(string \<times> jvalue) list"

subsection \<open>Unquoting a string literal\<close>

text \<open>The body of a literal: plain bytes and \<open>\u\<close> escapes with their 16-bit value.\<close>

datatype sunit = SByte char | SEscape nat

definition utf8_bytes :: "nat list \<Rightarrow> string" where
  "utf8_bytes bs = map char_of bs"

definition EncodeRune :: "rune \<Rightarrow> string" where
  "EncodeRune r =
     (if r < 128 then utf8_bytes [r]
      else if r < 2048 then utf8_bytes [192 + r div 64, 128 + r mod 64]
      else if 1114111 < r \<or> (55296 \<le> r \<and> r \<le> 57343) then utf8_bytes [239, 191, 189]
      else if r < 65536 then utf8_bytes [224 + r div 4096, 128 + r div 64 mod 64, 128 + r mod 64]
      else utf8_bytes [240 + r div 262144, 128 + r div 4096 mod 64, 128 + r div 64 mod 64, 128 + r mod 64])"

definition is_byte :: "sunit \<Rightarrow> bool" where
  "is_byte u = (case u of SByte _ \<Rightarrow> True | SEscape _ \<Rightarrow> False)"

definition byte_of :: "sunit \<Rightarrow> char" where
  "byte_of u = (case u of SByte c \<Rightarrow> c | SEscape _ \<Rightarrow> CHR 0x00)"

definition high_surrogate :: "nat \<Rightarrow> bool" where
  "high_surrogate n \<longleftrightarrow> 55296 \<le> n \<and> n < 56320"

definition low_surrogate :: "nat \<Rightarrow> bool" where
  "low_surrogate n \<longleftrightarrow> 56320 \<le> n \<and> n < 57344"

text \<open>
  A run of bytes is decoded rune by rune, so that an invalid byte becomes the replacement rune;
  a high surrogate escape directly followed by a low one is one rune.
\<close>

function unquote :: "sunit list \<Rightarrow> string" where
  "unquote [] = []"
| "unquote (SByte c # us) =
     concat (map EncodeRune (runes (c # map byte_of (takeWhile is_byte us)))) @ unquote (dropWhile is_byte us)"
| "unquote (SEscape n # us) =
     (case us of
        SEscape m # us' \<Rightarrow>
          if high_surrogate n \<and> low_surrogate m
          then EncodeRune ((n - 55296) * 1024 + (m - 56320) + 65536) @ unquote us'
          else EncodeRune n @ unquote us
      | _ \<Rightarrow> EncodeRune n @ unquote us)"
  by pat_completeness auto
termination
  by (relation "measure length") (auto simp: le_imp_less_Suc length_dropWhile_le)

subsection \<open>The scanner\<close>

datatype tok = LBrace | RBrace | LBrack | RBrack | Comma | Colon | TStr string | TVal jvalue

datatype nstate = NNeg | NZero | NInt | NDot | NFrac | NE | NESign | NExp

datatype mode =
    Between
  | InString "sunit list"
  | InEscape "sunit list"
  | InUnicode "sunit list" nat nat
  | InNumber nstate string
  | InLiteral string tok

definition hex_value :: "char \<Rightarrow> nat option" where
  "hex_value c =
     (let n = code c in
      if 48 \<le> n \<and> n \<le> 57 then Some (n - 48)
      else if 97 \<le> n \<and> n \<le> 102 then Some (n - 87)
      else if 65 \<le> n \<and> n \<le> 70 then Some (n - 55)
      else None)"

definition digit19 :: "char \<Rightarrow> bool" where
  "digit19 c \<longleftrightarrow> 49 \<le> code c \<and> code c \<le> 57"

text \<open>What a byte does where a token may begin.\<close>

definition dispatch :: "char \<Rightarrow> (tok list \<times> mode) option" where
  "dispatch c =
     (if code c \<in> {32, 9, 10, 13} then Some ([], Between)
      else if c = CHR ''{'' then Some ([LBrace], Between)
      else if c = CHR ''}'' then Some ([RBrace], Between)
      else if c = CHR ''['' then Some ([LBrack], Between)
      else if c = CHR '']'' then Some ([RBrack], Between)
      else if c = CHR '','' then Some ([Comma], Between)
      else if c = CHR '':'' then Some ([Colon], Between)
      else if code c = 34 then Some ([], InString [])
      else if c = CHR ''-'' then Some ([], InNumber NNeg [c])
      else if c = CHR ''0'' then Some ([], InNumber NZero [c])
      else if digit19 c then Some ([], InNumber NInt [c])
      else if c = CHR ''t'' then Some ([], InLiteral ''rue'' (TVal (JBool True)))
      else if c = CHR ''f'' then Some ([], InLiteral ''alse'' (TVal (JBool False)))
      else if c = CHR ''n'' then Some ([], InLiteral ''ull'' (TVal JNull))
      else None)"

definition number_ends :: "nstate \<Rightarrow> bool" where
  "number_ends st \<longleftrightarrow> st \<in> {NZero, NInt, NFrac, NExp}"

definition number_next :: "nstate \<Rightarrow> char \<Rightarrow> nstate option" where
  "number_next st c =
     (case st of
        NNeg \<Rightarrow> if c = CHR ''0'' then Some NZero else if digit19 c then Some NInt else None
      | NZero \<Rightarrow> if c = CHR ''.'' then Some NDot else if c \<in> {CHR ''e'', CHR ''E''} then Some NE else None
      | NInt \<Rightarrow> if is_digit c then Some NInt else if c = CHR ''.'' then Some NDot
               else if c \<in> {CHR ''e'', CHR ''E''} then Some NE else None
      | NDot \<Rightarrow> if is_digit c then Some NFrac else None
      | NFrac \<Rightarrow> if is_digit c then Some NFrac else if c \<in> {CHR ''e'', CHR ''E''} then Some NE else None
      | NE \<Rightarrow> if is_digit c then Some NExp else if c \<in> {CHR ''+'', CHR ''-''} then Some NESign else None
      | NESign \<Rightarrow> if is_digit c then Some NExp else None
      | NExp \<Rightarrow> if is_digit c then Some NExp else None)"

definition escaped :: "char \<Rightarrow> nat option" where
  "escaped c =
     (if code c \<in> {34, 92, 47} then Some (code c)
      else if c = CHR ''b'' then Some 8
      else if c = CHR ''f'' then Some 12
      else if c = CHR ''n'' then Some 10
      else if c = CHR ''r'' then Some 13
      else if c = CHR ''t'' then Some 9
      else None)"

fun scan_step :: "mode \<Rightarrow> char \<Rightarrow> (tok list \<times> mode) option" where
  "scan_step Between c = dispatch c"
| "scan_step (InString us) c =
     (if code c = 34 then Some ([TStr (unquote us)], Between)
      else if code c = 92 then Some ([], InEscape us)
      else if code c < 32 then None
      else Some ([], InString (us @ [SByte c])))"
| "scan_step (InEscape us) c =
     (if c = CHR ''u'' then Some ([], InUnicode us 0 0)
      else case escaped c of
             Some n \<Rightarrow> Some ([], InString (us @ [SEscape n]))
           | None \<Rightarrow> None)"
| "scan_step (InUnicode us k n) c =
     (case hex_value c of
        None \<Rightarrow> None
      | Some d \<Rightarrow>
          if k = 3 then Some ([], InString (us @ [SEscape (16 * n + d)]))
          else Some ([], InUnicode us (Suc k) (16 * n + d)))"
| "scan_step (InNumber st txt) c =
     (case number_next st c of
        Some st' \<Rightarrow> Some ([], InNumber st' (txt @ [c]))
      | None \<Rightarrow>
          if number_ends st
          then map_option (\<lambda>(ts, m). (TVal (JNumber txt) # ts, m)) (dispatch c)
          else None)"
| "scan_step (InLiteral rest t) c =
     (if rest \<noteq> [] \<and> c = hd rest
      then Some (if tl rest = [] then ([t], Between) else ([], InLiteral (tl rest) t))
      else None)"

fun scan :: "mode \<Rightarrow> string \<Rightarrow> tok list option" where
  "scan m [] =
     (case m of
        Between \<Rightarrow> Some []
      | InNumber st txt \<Rightarrow> if number_ends st then Some [TVal (JNumber txt)] else None
      | _ \<Rightarrow> None)"
| "scan m (c # s) =
     (case scan_step m c of
        None \<Rightarrow> None
      | Some (ts, m') \<Rightarrow> map_option ((@) ts) (scan m' s))"

subsection \<open>The grammar\<close>

datatype frame =
    FArr "jvalue list"
  | FObj "(string \<times> jvalue) list"
  | FKey "(string \<times> jvalue) list" string

datatype phase = WantValue | WantValueOrClose | WantKey | WantKeyOrClose | WantColon | AfterValue | Finished jvalue

abbreviation maxNestingDepth :: nat where
  "maxNestingDepth \<equiv> 10000"

type_synonym pstate = "phase \<times> frame list"

fun deliver :: "jvalue \<Rightarrow> frame list \<Rightarrow> pstate option" where
  "deliver v [] = Some (Finished v, [])"
| "deliver v (FArr vs # st) = Some (AfterValue, FArr (vs @ [v]) # st)"
| "deliver v (FKey kvs k # st) = Some (AfterValue, FObj (kvs @ [(k, v)]) # st)"
| "deliver v (FObj kvs # st) = None"

definition push_frame :: "frame \<Rightarrow> phase \<Rightarrow> frame list \<Rightarrow> pstate option" where
  "push_frame f ph st = (if length st < maxNestingDepth then Some (ph, f # st) else None)"

fun begin_value :: "tok \<Rightarrow> frame list \<Rightarrow> pstate option" where
  "begin_value (TStr s) st = deliver (JString s) st"
| "begin_value (TVal v) st = deliver v st"
| "begin_value LBrack st = push_frame (FArr []) WantValueOrClose st"
| "begin_value LBrace st = push_frame (FObj []) WantKeyOrClose st"
| "begin_value _ st = None"

fun object_key :: "tok \<Rightarrow> frame list \<Rightarrow> pstate option" where
  "object_key (TStr k) (FObj kvs # st) = Some (WantColon, FKey kvs k # st)"
| "object_key _ _ = None"

fun close_frame :: "tok \<Rightarrow> frame list \<Rightarrow> pstate option" where
  "close_frame RBrack (FArr vs # st) = deliver (JArray vs) st"
| "close_frame RBrace (FObj kvs # st) = deliver (JObject kvs) st"
| "close_frame _ _ = None"

fun parse_step :: "tok \<Rightarrow> pstate \<Rightarrow> pstate option" where
  "parse_step t (WantValue, st) = begin_value t st"
| "parse_step t (WantValueOrClose, st) = (if t = RBrack then close_frame t st else begin_value t st)"
| "parse_step t (WantKey, st) = object_key t st"
| "parse_step t (WantKeyOrClose, st) = (if t = RBrace then close_frame t st else object_key t st)"
| "parse_step t (WantColon, st) = (if t = Colon then Some (WantValue, st) else None)"
| "parse_step t (AfterValue, st) =
     (if t = Comma
      then (case st of
              FArr _ # _ \<Rightarrow> Some (WantValue, st)
            | FObj _ # _ \<Rightarrow> Some (WantKey, st)
            | _ \<Rightarrow> None)
      else close_frame t st)"
| "parse_step t (Finished v, st) = None"

fun parse_tokens :: "tok list \<Rightarrow> pstate \<Rightarrow> jvalue option" where
  "parse_tokens [] (Finished v, st) = Some v"
| "parse_tokens [] _ = None"
| "parse_tokens (t # ts) p = (case parse_step t p of None \<Rightarrow> None | Some p' \<Rightarrow> parse_tokens ts p')"

definition parse_json :: "string \<Rightarrow> jvalue option" where
  "parse_json s = (case scan Between s of None \<Rightarrow> None | Some ts \<Rightarrow> parse_tokens ts (WantValue, []))"

subsection \<open>Storing into the destination\<close>

text \<open>
  Into a \<open>map[string]string\<close>: null gives the nil map; the members of an object are stored in
  order, a null member as the empty string; any other value is a type error.
\<close>

fun store_members :: "(string \<times> jvalue) list \<Rightarrow> strmap \<Rightarrow> strmap option" where
  "store_members [] m = Some m"
| "store_members ((k, JString s) # kvs) m = store_members kvs (m(k \<mapsto> s))"
| "store_members ((k, JNull) # kvs) m = store_members kvs (m(k \<mapsto> ''''))"
| "store_members _ m = None"

definition Unmarshal_map :: "string \<Rightarrow> strmap option option" where
  "Unmarshal_map s =
     (case parse_json s of
        Some JNull \<Rightarrow> Some None
      | Some (JObject kvs) \<Rightarrow> map_option Some (store_members kvs Map.empty)
      | _ \<Rightarrow> None)"

text \<open>
  Into a struct whose fields are all strings: a member goes to the field whose name it equals,
  or equals up to letter case; null leaves the field alone; members without a field are
  ignored; a member of another type makes the call fail. Field names are ASCII, and the only
  runes outside ASCII that fold to an ASCII letter are the long s and the Kelvin sign.
\<close>

definition foldRune :: "rune \<Rightarrow> rune" where
  "foldRune r = (if 97 \<le> r \<and> r \<le> 122 then r - 32 else if r = 0x17F then 83 else if r = 0x212A then 75 else r)"

definition foldName :: "string \<Rightarrow> rune list" where
  "foldName s = map foldRune (runes s)"

definition field_of :: "string list \<Rightarrow> string \<Rightarrow> string option" where
  "field_of fields k =
     (if k \<in> set fields then Some k else find (\<lambda>f. foldName k = foldName f) fields)"

fun store_fields :: "string list \<Rightarrow> (string \<times> jvalue) list \<Rightarrow> (string \<Rightarrow> string) \<Rightarrow> (string \<Rightarrow> string) option" where
  "store_fields fields [] r = Some r"
| "store_fields fields ((k, v) # kvs) r =
     (case field_of fields k of
        None \<Rightarrow> store_fields fields kvs r
      | Some f \<Rightarrow>
          (case v of
             JString s \<Rightarrow> store_fields fields kvs (r(f := s))
           | JNull \<Rightarrow> store_fields fields kvs r
           | _ \<Rightarrow> None))"

definition Unmarshal_strings :: "string list \<Rightarrow> string \<Rightarrow> (string \<Rightarrow> string) option" where
  "Unmarshal_strings fields s =
     (case parse_json s of
        Some JNull \<Rightarrow> Some (\<lambda>_. '''')
      | Some (JObject kvs) \<Rightarrow> store_fields fields kvs (\<lambda>_. '''')
      | _ \<Rightarrow> None)"

subsection \<open>Facts about decoding\<close>

lemma store_members_finite: "store_members kvs m = Some m' \<Longrightarrow> finite (dom m) \<Longrightarrow> finite (dom m')"
  by (induction kvs m rule: store_members.induct) auto

lemma Unmarshal_map_finite: "Unmarshal_map s = Some (Some m) \<Longrightarrow> finite (dom m)"
  by (auto simp: Unmarshal_map_def dest: store_members_finite split: option.splits jvalue.splits)

lemma runes_char_ascii: "list_all (\<lambda>c. code c < 128) s \<Longrightarrow> runes s = map code s"
  by (rule runes_ascii) (simp add: list_all_iff)

text \<open>An ASCII literal without escapes denotes itself.\<close>

lemma EncodeRune_ascii: "code c < 128 \<Longrightarrow> EncodeRune (code c) = [c]"
  by (simp add: EncodeRune_def utf8_bytes_def code_def)

lemma EncodeRunes_ascii: "list_all (\<lambda>c. code c < 128) s \<Longrightarrow> concat (map EncodeRune (runes s)) = s"
  unfolding runes_char_ascii by (induction s) (simp_all add: EncodeRune_ascii)

lemma unquote_ascii: "list_all (\<lambda>c. code c < 128) s \<Longrightarrow> unquote (map SByte s) = s"
proof (cases s)
  case (Cons c cs)
  assume ascii: "list_all (\<lambda>c. code c < 128) s"
  have run: "takeWhile is_byte (map SByte cs) = map SByte cs" "dropWhile is_byte (map SByte cs) = []"
    by (simp_all add: is_byte_def takeWhile_eq_all_conv dropWhile_eq_Nil_conv)
  have bytes: "map byte_of (map SByte cs) = cs"
    by (simp add: byte_of_def o_def)
  have "unquote (map SByte s) = concat (map EncodeRune (runes s))"
    unfolding Cons by (simp only: list.map unquote.simps run bytes append_Nil2)
  with ascii show ?thesis by (simp add: EncodeRunes_ascii)
qed simp

end
