(* ===== verification/Aws_Backend.thy ===== *)
theory Aws_Backend
  imports Secret_Backend Go_Json
begin

text \<open>
  internal/backend/aws/backend.go. The Secrets Manager client is an argument: what it answers to
  the call being made. The key of the cache is the secret id, the prefix followed by the path.
\<close>

record aws_Config =
  ac_Region :: string
  ac_SecretPrefix :: string
  ac_EndpointURL :: string
  ac_MaxRetries :: int
  ac_Cache :: CacheConfig

record aws_error =
  aws_is_ResourceNotFound :: bool
  aws_text :: string

text \<open>\<open>GetSecretValue\<close> by secret id, answering with the optional \<open>SecretString\<close>, and
  \<open>ListSecrets\<close>, which only succeeds or fails.\<close>

record smClient =
  sm_GetSecretValue :: "string \<Rightarrow> aws_error + string option"
  sm_ListSecrets :: "aws_error option"

record aws_Backend =
  aws_cache :: Cache
  aws_prefix :: string
  aws_metric :: bool

definition aws_backendName :: string where
  "aws_backendName = ''aws''"

datatype aws_option = WithRegion string | WithRetryMaxAttempts int

definition aws_options :: "aws_Config \<Rightarrow> aws_option list" where
  "aws_options cfg =
     (if ac_Region cfg \<noteq> '''' then [WithRegion (ac_Region cfg)] else []) @
     (if 0 < ac_MaxRetries cfg then [WithRetryMaxAttempts (ac_MaxRetries cfg)] else [])"

text \<open>\<open>LoadDefaultConfig\<close> and \<open>NewFromConfig\<close> belong to the SDK; the second gets the endpoint
  override when there is one.\<close>

definition aws_New ::
  "(aws_option list \<Rightarrow> string + 'cfg) \<Rightarrow> ('cfg \<Rightarrow> string option \<Rightarrow> 'client) \<Rightarrow> aws_Config \<Rightarrow> bool \<Rightarrow> world \<Rightarrow>
   (string + 'client \<times> aws_Backend) \<times> world" where
  "aws_New LoadDefaultConfig NewFromConfig cfg m w =
     (case LoadDefaultConfig (aws_options cfg) of
        Inl err \<Rightarrow> (Inl (''aws: load default config: '' @ err), w)
      | Inr awsCfg \<Rightarrow>
          let client = NewFromConfig awsCfg
                (if ac_EndpointURL cfg \<noteq> '''' then Some (ac_EndpointURL cfg) else None);
              b = \<lparr>aws_cache = cache_New (ac_Cache cfg), aws_prefix = ac_SecretPrefix cfg, aws_metric = m\<rparr>
          in (Inr (client, b),
              slog LevelInfo ''aws secrets manager backend initialized''
                [(''region'', ac_Region cfg), (''prefix'', ac_SecretPrefix cfg),
                 (''custom_endpoint'', bool_str (ac_EndpointURL cfg \<noteq> ''''))] w))"

definition aws_newWithClient :: "aws_Config \<Rightarrow> bool \<Rightarrow> aws_Backend" where
  "aws_newWithClient cfg m =
     \<lparr>aws_cache = cache_New (ac_Cache cfg), aws_prefix = ac_SecretPrefix cfg, aws_metric = m\<rparr>"

definition aws_recordCacheHit :: "aws_Backend \<Rightarrow> world \<Rightarrow> world" where
  "aws_recordCacheHit b w =
     (if aws_metric b
      then w\<lparr>w_metrics := (w_metrics w)\<lparr>m_CacheHits := inc aws_backendName (m_CacheHits (w_metrics w))\<rparr>\<rparr>
      else w)"

definition aws_recordCacheMiss :: "aws_Backend \<Rightarrow> world \<Rightarrow> world" where
  "aws_recordCacheMiss b w =
     (if aws_metric b
      then w\<lparr>w_metrics := (w_metrics w)\<lparr>m_CacheMisses := inc aws_backendName (m_CacheMisses (w_metrics w))\<rparr>\<rparr>
      else w)"

definition aws_updateCacheEntries :: "aws_Backend \<Rightarrow> world \<Rightarrow> world" where
  "aws_updateCacheEntries b w =
     (if aws_metric b
      then w\<lparr>w_metrics := (w_metrics w)
             \<lparr>m_CacheEntries := (m_CacheEntries (w_metrics w))(aws_backendName := cache_Len (aws_cache b))\<rparr>\<rparr>
      else w)"

text \<open>A nil \<open>SecretString\<close> counts as the empty string, which is no JSON document.\<close>

definition parseSecret :: "string option \<Rightarrow> strmap" where
  "parseSecret secretString =
     (let raw = (case secretString of None \<Rightarrow> '''' | Some s \<Rightarrow> s) in
      case Unmarshal_map raw of
        Some (Some parsed) \<Rightarrow> parsed
      | _ \<Rightarrow> [''value'' \<mapsto> raw])"

definition aws_GetSecret ::
  "smClient \<Rightarrow> time \<Rightarrow> time \<Rightarrow> string \<Rightarrow> aws_Backend \<Rightarrow> world \<Rightarrow> (backend_error + mref) \<times> aws_Backend \<times> world" where
  "aws_GetSecret client t1 t2 path b w =
     (let id = aws_prefix b @ path;
          ((value, hit, isNegative), c, h) = cache_Get t1 id (aws_cache b) (w_heap w);
          b = b\<lparr>aws_cache := c\<rparr>;
          w = w\<lparr>w_heap := h\<rparr>
      in
      if hit then
        let w = aws_recordCacheHit b w in
        if isNegative then (Inl errSecretNotFound, b, w) else (Inr value, b, w)
      else
        let w = aws_recordCacheMiss b w in
        case sm_GetSecretValue client id of
          Inl err \<Rightarrow>
            if aws_is_ResourceNotFound err
            then (Inl errSecretNotFound, b\<lparr>aws_cache := cache_SetNegative t2 id (aws_cache b)\<rparr>, w)
            else (Inl (ErrBackendUnavailable ''aws: get secret: backend unavailable''), b,
                  slog LevelWarn ''aws get secret failed'' [(''path'', path), (''error'', aws_text err)] w)
        | Inr secretString \<Rightarrow>
            let (result, h) = make_map (parseSecret secretString) (w_heap w);
                (c, h) = cache_Set t2 id result (aws_cache b) h;
                b = b\<lparr>aws_cache := c\<rparr>
            in (Inr result, b, aws_updateCacheEntries b (w\<lparr>w_heap := h\<rparr>)))"

definition aws_HealthCheck :: "smClient \<Rightarrow> world \<Rightarrow> backend_error option \<times> world" where
  "aws_HealthCheck client w =
     (case sm_ListSecrets client of
        Some err \<Rightarrow>
          (Some (ErrBackendUnavailable ''aws: health check: backend unavailable''),
           slog LevelWarn ''aws health check failed'' [(''error'', aws_text err)] w)
      | None \<Rightarrow> (None, w))"

definition aws_Name :: "aws_Backend \<Rightarrow> string" where
  "aws_Name b = aws_backendName"

text \<open>\<open>Close\<close> has nothing to release and never fails.\<close>

definition aws_Close :: "aws_Backend \<Rightarrow> backend_error option" where
  "aws_Close b = None"

subsection \<open>The backend is a read-through cache of Secrets Manager\<close>

definition aws_fetch :: "smClient \<Rightarrow> string \<Rightarrow> string \<Rightarrow> outcome \<times> (world \<Rightarrow> world)" where
  "aws_fetch client path key =
     (case sm_GetSecretValue client key of
        Inl err \<Rightarrow>
          if aws_is_ResourceNotFound err then (Missing, \<lambda>w. w)
          else (Failed (ErrBackendUnavailable ''aws: get secret: backend unavailable''),
                slog LevelWarn ''aws get secret failed'' [(''path'', path), (''error'', aws_text err)])
      | Inr s \<Rightarrow> (Value (Some (parseSecret s)), \<lambda>w. w))"

lemma aws_effects:
  "aws_recordCacheHit b = bump_hits ''aws'' (aws_metric b)"
  "aws_recordCacheMiss b = bump_misses ''aws'' (aws_metric b)"
  "aws_updateCacheEntries b = gauge_entries ''aws'' (aws_metric b) (cache_Len (aws_cache b))"
  by (simp_all add: fun_eq_iff aws_recordCacheHit_def aws_recordCacheMiss_def aws_updateCacheEntries_def
      bump_hits_def bump_misses_def gauge_entries_def upd_metrics_def aws_backendName_def)

text \<open>
  The AWS backend's \<open>GetSecret\<close> is the read-through discipline over its cache, keyed by
  prefix and path, with Secrets Manager behind it: a live entry is answered without asking the
  service, a missing secret is remembered as absent, an object or plain string is stored and
  returned, and any other failure is reported as unavailable and not remembered.
\<close>

lemma aws_GetSecret_read_through:
  "aws_GetSecret client t1 t2 path b w =
     (case read_through ''aws'' (aws_metric b) (aws_fetch client path (aws_prefix b @ path)) t1 t2
             (aws_prefix b @ path) (aws_cache b) w of
        (r, c, w') \<Rightarrow> (r, b\<lparr>aws_cache := c\<rparr>, w'))"
  unfolding aws_GetSecret_def read_through_def aws_fetch_def aws_effects alloc_def
  by (simp add: Let_def split: prod.splits sum.splits)


definition aws_ok :: "aws_Backend \<Rightarrow> mheap \<Rightarrow> bool" where
  "aws_ok b h = cache_ok (aws_cache b) h"

definition aws_view :: "aws_Backend \<Rightarrow> mheap \<Rightarrow> time \<Rightarrow> string \<Rightarrow> answer" where
  "aws_view b h t path = cache_peek (aws_cache b) h t (aws_prefix b @ path)"

definition aws_held :: "aws_Backend \<Rightarrow> nat set" where
  "aws_held b = owned (aws_cache b)"

definition aws_answer :: "smClient \<Rightarrow> aws_Backend \<Rightarrow> string \<Rightarrow> outcome" where
  "aws_answer client b path = fst (aws_fetch client path (aws_prefix b @ path))"

lemma aws_fetch_quiet: "logs_only (snd (aws_fetch client path key))"
  by (auto simp: aws_fetch_def split: sum.split)

lemma aws_fetch_sentinel: "fst (aws_fetch client path key) = Failed e \<Longrightarrow> is_sentinel e"
  by (auto simp: aws_fetch_def is_sentinel_def split: sum.splits if_splits)

lemma aws_GetSecret_spec:
  assumes "aws_ok b (w_heap w)" and "aws_GetSecret client t1 t2 path b w = (r, b', w')"
  shows "aws_ok b' (w_heap w') \<and> extends (w_heap w) (w_heap w') \<and>
    result_ok (aws_view b (w_heap w) t1 path) (aws_answer client b path) (w_heap w') r \<and>
    (\<forall>a. r = Inr (Some a) \<longrightarrow> a \<notin> aws_held b' \<and> next_addr (w_heap w) \<le> a \<and> a < next_addr (w_heap w'))"
proof -
  obtain c where "read_through ''aws'' (aws_metric b) (aws_fetch client path (aws_prefix b @ path)) t1 t2
      (aws_prefix b @ path) (aws_cache b) w = (r, c, w')" and "b' = b\<lparr>aws_cache := c\<rparr>"
    using assms(2) by (auto simp: aws_GetSecret_read_through split: prod.splits)
  with read_through_spec [OF _ aws_fetch_quiet this(1)] assms(1) show ?thesis
    by (simp add: aws_ok_def aws_view_def aws_held_def aws_answer_def)
qed

lemma aws_fetch_silent: "silent_values (aws_fetch client path key)"
  by (auto simp: silent_values_def aws_fetch_def split: sum.split option.split)

lemma aws_GetSecret_silent: "aws_GetSecret client t1 t2 path b w = (Inr v, b', w') \<Longrightarrow> w_log w' = w_log w"
  by (auto simp: aws_GetSecret_read_through split: prod.splits dest: read_through_silent [OF aws_fetch_silent])

interpretation aws: secret_backend aws_ok aws_view aws_held "aws_answer client" "aws_GetSecret client" for client
proof unfold_locales
  show "is_sentinel e" if "aws_answer client b path = Failed e" for b path e
    using that aws_fetch_sentinel by (simp add: aws_answer_def)
  show "aws_ok b (write_map a m h) \<and> aws_view b (write_map a m h) = aws_view b h"
    if "aws_ok b h" "a \<notin> aws_held b" for b h a m
    using cache_foreign_write that by (simp add: aws_ok_def aws_held_def aws_view_def fun_eq_iff)
qed (use aws_GetSecret_spec aws_GetSecret_silent in blast)+

end
