(* ===== verification/Gcp_Backend.thy ===== *)
theory Gcp_Backend
  imports Secret_Backend Go_Json
begin

text \<open>
  internal/backend/gcp/backend.go. The Secret Manager client is an argument; an error carries
  its gRPC status code and message, a response its optional payload. The key of the cache is the
  secret id derived from the path.
\<close>

record gcp_Config =
  gc_ProjectID :: string
  gc_SecretPrefix :: string
  gc_Cache :: CacheConfig

record grpc_error =
  grpc_code :: nat
  grpc_text :: string

abbreviation codes_NotFound :: nat where
  "codes_NotFound \<equiv> 5"

record gcp_Client =
  gcp_AccessSecretVersion :: "string \<Rightarrow> grpc_error + string option"

record gcp_Backend =
  gcp_cache :: Cache
  gcp_projectID :: string
  gcp_prefix :: string
  gcp_metric :: bool

definition gcp_backendName :: string where
  "gcp_backendName = ''gcp''"

definition healthProbeSecretID :: string where
  "healthProbeSecretID = ''vault-gateway-health-probe''"

definition gcp_newWithClient :: "gcp_Config \<Rightarrow> bool \<Rightarrow> gcp_Backend" where
  "gcp_newWithClient cfg m =
     \<lparr>gcp_cache = cache_New (gc_Cache cfg), gcp_projectID = gc_ProjectID cfg,
      gcp_prefix = gc_SecretPrefix cfg, gcp_metric = m\<rparr>"

definition gcp_New ::
  "(string + 'client) \<Rightarrow> gcp_Config \<Rightarrow> bool \<Rightarrow> world \<Rightarrow> (string + 'client \<times> gcp_Backend) \<times> world" where
  "gcp_New NewClient cfg m w =
     (if gc_ProjectID cfg = '''' then (Inl ''gcp: ProjectID is required'', w)
      else case NewClient of
        Inl err \<Rightarrow> (Inl (''gcp: new secret manager client: '' @ err), w)
      | Inr client \<Rightarrow>
          let b = \<lparr>gcp_cache = cache_New (gc_Cache cfg), gcp_projectID = gc_ProjectID cfg,
                   gcp_prefix = gc_SecretPrefix cfg, gcp_metric = m\<rparr>
          in (Inr (client, b),
              slog LevelInfo ''gcp secret manager backend initialized''
                [(''project'', gc_ProjectID cfg), (''prefix'', gc_SecretPrefix cfg)] w))"

definition gcp_id_rune :: "rune \<Rightarrow> bool" where
  "gcp_id_rune r \<longleftrightarrow>
     (97 \<le> r \<and> r \<le> 122) \<or> (65 \<le> r \<and> r \<le> 90) \<or> (48 \<le> r \<and> r \<le> 57) \<or> r = 95 \<or> r = 45"

text \<open>\<open>strings.Map\<close> works rune by rune; the result is ASCII, so its length counts bytes.\<close>

definition secretID :: "gcp_Backend \<Rightarrow> string \<Rightarrow> string" where
  "secretID b path =
     (let key = gcp_prefix b @ path;
          key = map (\<lambda>r. if gcp_id_rune r then char_of r else CHR ''-'') (runes key)
      in if 255 < length key then take 255 key else key)"

definition resourceName :: "gcp_Backend \<Rightarrow> string \<Rightarrow> string" where
  "resourceName b sid = ''projects/'' @ gcp_projectID b @ ''/secrets/'' @ sid @ ''/versions/latest''"

definition gcp_recordCacheHit :: "gcp_Backend \<Rightarrow> world \<Rightarrow> world" where
  "gcp_recordCacheHit b w =
     (if gcp_metric b
      then w\<lparr>w_metrics := (w_metrics w)\<lparr>m_CacheHits := inc gcp_backendName (m_CacheHits (w_metrics w))\<rparr>\<rparr>
      else w)"

definition gcp_recordCacheMiss :: "gcp_Backend \<Rightarrow> world \<Rightarrow> world" where
  "gcp_recordCacheMiss b w =
     (if gcp_metric b
      then w\<lparr>w_metrics := (w_metrics w)\<lparr>m_CacheMisses := inc gcp_backendName (m_CacheMisses (w_metrics w))\<rparr>\<rparr>
      else w)"

definition gcp_updateCacheEntries :: "gcp_Backend \<Rightarrow> world \<Rightarrow> world" where
  "gcp_updateCacheEntries b w =
     (if gcp_metric b
      then w\<lparr>w_metrics := (w_metrics w)
             \<lparr>m_CacheEntries := (m_CacheEntries (w_metrics w))(gcp_backendName := cache_Len (gcp_cache b))\<rparr>\<rparr>
      else w)"

definition gcp_GetSecret ::
  "gcp_Client \<Rightarrow> time \<Rightarrow> time \<Rightarrow> string \<Rightarrow> gcp_Backend \<Rightarrow> world \<Rightarrow> (backend_error + mref) \<times> gcp_Backend \<times> world" where
  "gcp_GetSecret client t1 t2 path b w =
     (let sid = secretID b path;
          ((value, hit, isNegative), c, h) = cache_Get t1 sid (gcp_cache b) (w_heap w);
          b = b\<lparr>gcp_cache := c\<rparr>;
          w = w\<lparr>w_heap := h\<rparr>
      in
      if hit then
        let w = gcp_recordCacheHit b w in
        if isNegative then (Inl errSecretNotFound, b, w) else (Inr value, b, w)
      else
        let w = gcp_recordCacheMiss b w in
        case gcp_AccessSecretVersion client (resourceName b sid) of
          Inl err \<Rightarrow>
            if grpc_code err = codes_NotFound
            then (Inl errSecretNotFound, b\<lparr>gcp_cache := cache_SetNegative t2 sid (gcp_cache b)\<rparr>, w)
            else (Inl (ErrBackendUnavailable ''gcp: access secret version: backend unavailable''), b,
                  slog LevelWarn ''gcp access secret version failed'' [(''path'', path), (''error'', grpc_text err)] w)
        | Inr resp \<Rightarrow>
            let payload = (case resp of None \<Rightarrow> '''' | Some p \<Rightarrow> p) in
            case Unmarshal_map payload of
              Some (Some m) \<Rightarrow>
                let (result, h) = make_map m (w_heap w);
                    (c, h) = cache_Set t2 sid result (gcp_cache b) h;
                    b = b\<lparr>gcp_cache := c\<rparr>
                in (Inr result, b, gcp_updateCacheEntries b (w\<lparr>w_heap := h\<rparr>))
            | _ \<Rightarrow>
                (Inl (ErrBackendUnavailable ''gcp: parse secret payload: backend unavailable''), b,
                 slog LevelWarn ''gcp secret payload is not a JSON string map'' [(''path'', path)] w))"

definition gcp_HealthCheck :: "gcp_Client \<Rightarrow> gcp_Backend \<Rightarrow> world \<Rightarrow> backend_error option \<times> world" where
  "gcp_HealthCheck client b w =
     (case gcp_AccessSecretVersion client (resourceName b healthProbeSecretID) of
        Inr _ \<Rightarrow> (None, w)
      | Inl err \<Rightarrow>
          if grpc_code err = codes_NotFound then (None, w)
          else (Some (ErrBackendUnavailable ''gcp: health check: backend unavailable''),
                slog LevelWarn ''gcp health check failed'' [(''error'', grpc_text err)] w))"

definition gcp_Name :: "gcp_Backend \<Rightarrow> string" where
  "gcp_Name b = gcp_backendName"

text \<open>\<open>Close\<close> closes the client, if there is one, and drops the error.\<close>

definition gcp_Close :: "string option \<Rightarrow> gcp_Backend \<Rightarrow> backend_error option" where
  "gcp_Close client_err b = None"

subsection \<open>The backend is a read-through cache of Secret Manager\<close>

definition gcp_fetch :: "gcp_Client \<Rightarrow> gcp_Backend \<Rightarrow> string \<Rightarrow> outcome \<times> (world \<Rightarrow> world)" where
  "gcp_fetch client b path =
     (case gcp_AccessSecretVersion client (resourceName b (secretID b path)) of
        Inl err \<Rightarrow>
          if grpc_code err = codes_NotFound then (Missing, \<lambda>w. w)
          else (Failed (ErrBackendUnavailable ''gcp: access secret version: backend unavailable''),
                slog LevelWarn ''gcp access secret version failed'' [(''path'', path), (''error'', grpc_text err)])
      | Inr resp \<Rightarrow>
          (case Unmarshal_map (case resp of None \<Rightarrow> '''' | Some p \<Rightarrow> p) of
             Some (Some m) \<Rightarrow> (Value (Some m), \<lambda>w. w)
           | _ \<Rightarrow> (Failed (ErrBackendUnavailable ''gcp: parse secret payload: backend unavailable''),
                  slog LevelWarn ''gcp secret payload is not a JSON string map'' [(''path'', path)])))"

lemma gcp_effects:
  "gcp_recordCacheHit b = bump_hits ''gcp'' (gcp_metric b)"
  "gcp_recordCacheMiss b = bump_misses ''gcp'' (gcp_metric b)"
  "gcp_updateCacheEntries b = gauge_entries ''gcp'' (gcp_metric b) (cache_Len (gcp_cache b))"
  by (simp_all add: fun_eq_iff gcp_recordCacheHit_def gcp_recordCacheMiss_def gcp_updateCacheEntries_def
      bump_hits_def bump_misses_def gauge_entries_def upd_metrics_def gcp_backendName_def)

lemma resourceName_cache [simp]: "resourceName (b\<lparr>gcp_cache := c\<rparr>) sid = resourceName b sid"
  by (simp add: resourceName_def)

lemma gcp_GetSecret_read_through:
  "gcp_GetSecret client t1 t2 path b w =
     (case read_through ''gcp'' (gcp_metric b) (gcp_fetch client b path) t1 t2 (secretID b path) (gcp_cache b) w of
        (r, c, w') \<Rightarrow> (r, b\<lparr>gcp_cache := c\<rparr>, w'))"
  unfolding gcp_GetSecret_def read_through_def gcp_fetch_def gcp_effects alloc_def
  by (simp add: Let_def split: prod.splits sum.splits option.splits)

definition gcp_ok :: "gcp_Backend \<Rightarrow> mheap \<Rightarrow> bool" where
  "gcp_ok b h = cache_ok (gcp_cache b) h"

definition gcp_view :: "gcp_Backend \<Rightarrow> mheap \<Rightarrow> time \<Rightarrow> string \<Rightarrow> answer" where
  "gcp_view b h t path = cache_peek (gcp_cache b) h t (secretID b path)"

definition gcp_held :: "gcp_Backend \<Rightarrow> nat set" where
  "gcp_held b = owned (gcp_cache b)"

definition gcp_answer :: "gcp_Client \<Rightarrow> gcp_Backend \<Rightarrow> string \<Rightarrow> outcome" where
  "gcp_answer client b path = fst (gcp_fetch client b path)"

lemma gcp_fetch_quiet: "logs_only (snd (gcp_fetch client b path))"
  by (auto simp: gcp_fetch_def split: sum.split option.split)

lemma gcp_fetch_sentinel: "fst (gcp_fetch client b path) = Failed e \<Longrightarrow> is_sentinel e"
  by (auto simp: gcp_fetch_def is_sentinel_def split: sum.splits if_splits option.splits)

lemma gcp_GetSecret_spec:
  assumes "gcp_ok b (w_heap w)" and "gcp_GetSecret client t1 t2 path b w = (r, b', w')"
  shows "gcp_ok b' (w_heap w') \<and> extends (w_heap w) (w_heap w') \<and>
    result_ok (gcp_view b (w_heap w) t1 path) (gcp_answer client b path) (w_heap w') r \<and>
    (\<forall>a. r = Inr (Some a) \<longrightarrow> a \<notin> gcp_held b' \<and> next_addr (w_heap w) \<le> a \<and> a < next_addr (w_heap w'))"
proof -
  obtain c where "read_through ''gcp'' (gcp_metric b) (gcp_fetch client b path) t1 t2
      (secretID b path) (gcp_cache b) w = (r, c, w')" and "b' = b\<lparr>gcp_cache := c\<rparr>"
    using assms(2) by (auto simp: gcp_GetSecret_read_through split: prod.splits)
  with read_through_spec [OF _ gcp_fetch_quiet this(1)] assms(1) show ?thesis
    by (simp add: gcp_ok_def gcp_view_def gcp_held_def gcp_answer_def)
qed

lemma gcp_fetch_silent: "silent_values (gcp_fetch client b path)"
  by (auto simp: silent_values_def gcp_fetch_def split: sum.split option.split)

lemma gcp_GetSecret_silent: "gcp_GetSecret client t1 t2 path b w = (Inr v, b', w') \<Longrightarrow> w_log w' = w_log w"
  by (auto simp: gcp_GetSecret_read_through split: prod.splits dest: read_through_silent [OF gcp_fetch_silent])

interpretation gcp: secret_backend gcp_ok gcp_view gcp_held "gcp_answer client" "gcp_GetSecret client" for client
proof unfold_locales
  show "is_sentinel e" if "gcp_answer client b path = Failed e" for b path e
    using that gcp_fetch_sentinel by (simp add: gcp_answer_def)
  show "gcp_ok b (write_map a m h) \<and> gcp_view b (write_map a m h) = gcp_view b h"
    if "gcp_ok b h" "a \<notin> gcp_held b" for b h a m
    using cache_foreign_write that by (simp add: gcp_ok_def gcp_held_def gcp_view_def fun_eq_iff)
qed (use gcp_GetSecret_spec gcp_GetSecret_silent in blast)+

subsection \<open>Secret ids\<close>

definition gcp_id_char :: "char \<Rightarrow> bool" where
  "gcp_id_char c = gcp_id_rune (code c)"

lemma gcp_id_char_ascii: "gcp_id_char c \<Longrightarrow> code c < 128"
  by (auto simp: gcp_id_char_def gcp_id_rune_def)

lemma secretID_chars: "list_all gcp_id_char (secretID b path)"
proof -
  have "code (char_of r) = r" if "gcp_id_rune r" for r
    using that by (auto simp: gcp_id_rune_def code_def of_char_of)
  then have "gcp_id_char (if gcp_id_rune r then char_of r else CHR ''-'')" for r
    by (simp add: gcp_id_char_def) (simp add: gcp_id_rune_def code_def)
  then have all: "list_all gcp_id_char (map (\<lambda>r. if gcp_id_rune r then char_of r else CHR ''-'') rs)" for rs
    by (induction rs) simp_all
  have take: "list_all P xs \<Longrightarrow> list_all P (take n xs)" for P and xs :: string and n
    by (auto simp: list_all_iff dest: in_set_takeD)
  show ?thesis
    unfolding secretID_def Let_def using all take by simp
qed

lemma secretID_plain:
  assumes "list_all gcp_id_char (gcp_prefix b @ path)" and "length (gcp_prefix b @ path) \<le> 255"
  shows "secretID b path = gcp_prefix b @ path"
proof -
  have runes: "runes (gcp_prefix b @ path) = map code (gcp_prefix b @ path)"
    using assms(1) gcp_id_char_ascii by (intro runes_char_ascii) (auto simp: list_all_iff)
  have "map (\<lambda>r. if gcp_id_rune r then char_of r else CHR ''-'') (map code s) = s"
    if "list_all gcp_id_char s" for s
    using that by (induction s) (simp_all add: gcp_id_char_def code_def)
  from this [OF assms(1)] assms(2) show ?thesis
    by (simp add: secretID_def Let_def runes)
qed

text \<open>
  C25. A GCP secret id is a legal one for every prefix and path: at most 255 characters, each a
  letter, a digit, an underscore or a hyphen. It is exactly the prefix followed by the path
  when, and only when, prefix and path have only such characters and fit.
\<close>

theorem secretID_legal:
  "list_all gcp_id_char (secretID b path) \<and> length (secretID b path) \<le> 255 \<and>
   (secretID b path = gcp_prefix b @ path) =
     (list_all gcp_id_char (gcp_prefix b @ path) \<and> length (gcp_prefix b @ path) \<le> 255)"
proof -
  have "length (secretID b path) \<le> 255"
    unfolding secretID_def Let_def by (simp del: map_append)
  then show ?thesis
    using secretID_chars [of b path] secretID_plain [of b path] by auto
qed

text \<open>
  Other paths do collide. The paths team/db and team-db are two different secrets to the
  access rules and get one secret id, so with this backend a read of either is a read of the
  same secret, cached entries included.
\<close>

theorem gcp_paths_alias:
  "secretID (b\<lparr>gcp_prefix := ''''\<rparr>) ''team/db'' = secretID (b\<lparr>gcp_prefix := ''''\<rparr>) ''team-db'' \<and>
   gcp_view (b\<lparr>gcp_prefix := ''''\<rparr>) h t ''team/db'' = gcp_view (b\<lparr>gcp_prefix := ''''\<rparr>) h t ''team-db'' \<and>
   gcp_answer client (b\<lparr>gcp_prefix := ''''\<rparr>) ''team/db'' = gcp_answer client (b\<lparr>gcp_prefix := ''''\<rparr>) ''team-db''"
proof -
  have hyphen: "char_of (45 :: nat) = CHR ''-''" by code_simp
  have "secretID (b\<lparr>gcp_prefix := ''''\<rparr>) ''team/db'' = secretID (b\<lparr>gcp_prefix := ''''\<rparr>) ''team-db''"
    by (simp add: secretID_def runes_char_ascii gcp_id_rune_def code_def hyphen)
  then show ?thesis
    by (auto simp: gcp_view_def gcp_answer_def gcp_fetch_def split: sum.split option.split)
qed

end
