(* ===== verification/Azure_Naming.thy ===== *)
theory Azure_Naming
  imports Go_Strings
begin

text \<open>
  internal/backend/azure/naming.go: how paths and keys become Key Vault secret names. The two
  replacers act on single bytes, so they are maps over the bytes of the name.
\<close>

definition kv_char :: "char \<Rightarrow> bool" where
  "kv_char c \<longleftrightarrow> (let n = code c in (48 \<le> n \<and> n \<le> 57) \<or> (97 \<le> n \<and> n \<le> 122) \<or> (65 \<le> n \<and> n \<le> 90) \<or> n = 45)"

definition validKVName :: "string \<Rightarrow> bool" where
  "validKVName name \<longleftrightarrow> name \<noteq> '''' \<and> list_all kv_char name"

definition pathEncoder :: "char \<Rightarrow> string" where
  "pathEncoder c = (if c = CHR ''/'' then ''-'' else if c = CHR ''_'' then ''-'' else [c])"

definition jsonPathEncoder :: "char \<Rightarrow> string" where
  "jsonPathEncoder c = (if c = CHR ''/'' then ''--'' else if c = CHR ''_'' then ''-'' else [c])"

definition flatEncodePath :: "string \<Rightarrow> string" where
  "flatEncodePath path = concat (map pathEncoder path)"

definition flatEncodeKey :: "string \<Rightarrow> string" where
  "flatEncodeKey key = concat (map pathEncoder key)"

definition flatSecretPrefix :: "string \<Rightarrow> string" where
  "flatSecretPrefix path = flatEncodePath path @ ''--''"

definition flatKeyName :: "string \<Rightarrow> string \<Rightarrow> string" where
  "flatKeyName path key = flatSecretPrefix path @ flatEncodeKey key"

definition flatDecodeKey :: "string \<Rightarrow> string \<Rightarrow> string option" where
  "flatDecodeKey path secretName =
     (case CutPrefix secretName (flatSecretPrefix path) of
        (rest, found) \<Rightarrow>
          if \<not> found \<or> rest = '''' then None
          else Some (map (\<lambda>c. if c = CHR ''-'' then CHR ''_'' else c) rest))"

definition jsonSecretName :: "string \<Rightarrow> string" where
  "jsonSecretName path = concat (map jsonPathEncoder path)"

subsection \<open>Facts about names\<close>

lemma flatEncodeKey_map: "flatEncodeKey key = map (\<lambda>c. if c = CHR ''/'' \<or> c = CHR ''_'' then CHR ''-'' else c) key"
  by (induction key) (simp_all add: flatEncodeKey_def pathEncoder_def)

lemma flatDecodeKey_iff:
  "flatDecodeKey path name = Some key \<longleftrightarrow>
   (\<exists>rest. name = flatSecretPrefix path @ rest \<and> rest \<noteq> '''' \<and>
      key = map (\<lambda>c. if c = CHR ''-'' then CHR ''_'' else c) rest)"
  by (auto simp: flatDecodeKey_def CutPrefix_def HasPrefix_iff split: if_splits)

lemma encode_decode_char:
  "map (\<lambda>c. if c = CHR ''-'' then CHR ''_'' else c)
     (map (\<lambda>c. if c = CHR ''/'' \<or> c = CHR ''_'' then CHR ''-'' else c) key) = key \<longleftrightarrow>
   CHR ''-'' \<notin> set key \<and> CHR ''/'' \<notin> set key"
  by (induction key) auto

text \<open>
  A key stored under a path in the flat layout is read back under that path exactly when
  the key is not empty and has neither a hyphen nor a slash; otherwise decoding yields another
  key or none. Every name the decoder accepts carries the prefix of the path.
\<close>

theorem flat_key_roundtrip:
  "(flatDecodeKey path (flatKeyName path key) = Some key) =
     (key \<noteq> '''' \<and> CHR ''-'' \<notin> set key \<and> CHR ''/'' \<notin> set key)"
proof -
  have "flatDecodeKey path (flatKeyName path key) = Some key \<longleftrightarrow>
      flatEncodeKey key \<noteq> '''' \<and> map (\<lambda>c. if c = CHR ''-'' then CHR ''_'' else c) (flatEncodeKey key) = key"
    by (auto simp: flatDecodeKey_iff flatKeyName_def)
  then show ?thesis
    unfolding flatEncodeKey_map encode_decode_char by simp
qed

lemma kv_chars:
  "kv_char (CHR ''-'')" "\<not> kv_char (CHR ''/'')" "\<not> kv_char (CHR ''_'')" "\<not> kv_char (CHR ''.'')" "\<not> kv_char (CHR '':'')"
  by (simp_all add: kv_char_def code_def)

text \<open>
  A flat name is one Key Vault accepts exactly when path and key have nothing but letters,
  digits, hyphens, underscores and slashes; the dots and colons that secret paths may contain
  are passed on and make the name invalid.
\<close>

theorem flatKeyName_valid_iff:
  "validKVName (flatKeyName path key) =
     list_all (\<lambda>c. kv_char c \<or> c = CHR ''/'' \<or> c = CHR ''_'') (path @ key)"
proof -
  have "list_all kv_char (concat (map pathEncoder s)) = list_all (\<lambda>c. kv_char c \<or> c = CHR ''/'' \<or> c = CHR ''_'') s" for s
    by (induction s) (auto simp: pathEncoder_def kv_chars)
  then show ?thesis
    by (simp add: validKVName_def flatKeyName_def flatSecretPrefix_def flatEncodePath_def flatEncodeKey_def kv_chars)
qed

end
