(* ===== verification/Azure_Backend.thy ===== *)
theory Azure_Backend
  imports Secret_Backend Azure_Naming Go_Json
begin

text \<open>
  internal/backend/azure/backend.go. The Key Vault client is an argument with the two methods of
  the interface \<open>kvClient\<close>; the adapter that implements it over the SDK is modelled too, with
  the SDK's answers as arguments. The text of an encoding/json error is an argument
  (\<open>uerr\<close>, by document) because it only ends up in messages. The logger is not used by
  \<open>GetSecret\<close> here.
\<close>

record azure_Config =
  zc_VaultURL :: string
  zc_NamingStrategy :: string
  zc_Cache :: CacheConfig

record azure_error =
  az_status :: "nat option"
  az_text :: string

record kvClient =
  kv_GetSecret :: "string \<Rightarrow> azure_error + string"
  kv_ListSecretNames :: "azure_error + string list"

record azure_Backend =
  az_strategy :: string
  az_cache :: Cache
  az_metrics :: bool

definition azure_backendName :: string where
  "azure_backendName = ''azure''"

definition strategyFlat :: string where
  "strategyFlat = ''flat''"

definition strategyJSON :: string where
  "strategyJSON = ''json''"

definition azure_newWithClient :: "string \<Rightarrow> CacheConfig \<Rightarrow> bool \<Rightarrow> azure_Backend" where
  "azure_newWithClient strategy cacheCfg m =
     (let strategy = (if strategy = '''' then strategyFlat else strategy) in
      \<lparr>az_strategy = strategy, az_cache = cache_New cacheCfg, az_metrics = m\<rparr>)"

text \<open>\<open>cred\<close> and \<open>newClient\<close> are what the SDK answers to the two constructor calls.\<close>

definition azure_New ::
  "(string + 'cred) \<Rightarrow> (string \<Rightarrow> 'cred \<Rightarrow> string + 'client) \<Rightarrow> azure_Config \<Rightarrow> bool \<Rightarrow>
   string + 'client \<times> azure_Backend" where
  "azure_New cred newClient cfg m =
     (if zc_VaultURL cfg = '''' then Inl ''azure: VaultURL is required''
      else
        let strategy = (if zc_NamingStrategy cfg = '''' then strategyFlat else zc_NamingStrategy cfg) in
        if strategy \<noteq> strategyFlat \<and> strategy \<noteq> strategyJSON then Inl ''azure: invalid naming strategy''
        else case cred of
          Inl err \<Rightarrow> Inl (''azure: build credential: '' @ err)
        | Inr cr \<Rightarrow>
            (case newClient (zc_VaultURL cfg) cr of
               Inl err \<Rightarrow> Inl (''azure: build key vault client: '' @ err)
             | Inr client \<Rightarrow> Inr (client, azure_newWithClient strategy (zc_Cache cfg) m)))"

definition azure_Name :: "azure_Backend \<Rightarrow> string" where
  "azure_Name b = azure_backendName"

definition azure_Close :: "azure_Backend \<Rightarrow> backend_error option" where
  "azure_Close b = None"

definition azure_HealthCheck :: "kvClient \<Rightarrow> backend_error option" where
  "azure_HealthCheck client =
     (case kv_ListSecretNames client of
        Inl err \<Rightarrow> Some (ErrBackendUnavailable (''backend unavailable: azure health check: '' @ az_text err))
      | Inr _ \<Rightarrow> None)"

definition azure_isNotFound :: "azure_error \<Rightarrow> bool" where
  "azure_isNotFound err = (case az_status err of Some st \<Rightarrow> st = 404 | None \<Rightarrow> False)"

definition mapError :: "string \<Rightarrow> azure_error \<Rightarrow> backend_error" where
  "mapError opn err =
     (if azure_isNotFound err then errSecretNotFound
      else ErrBackendUnavailable (''backend unavailable: azure: '' @ opn @ '': '' @ az_text err))"

definition azure_recordCacheHit :: "azure_Backend \<Rightarrow> world \<Rightarrow> world" where
  "azure_recordCacheHit b w =
     (if az_metrics b
      then w\<lparr>w_metrics := (w_metrics w)\<lparr>m_CacheHits := inc azure_backendName (m_CacheHits (w_metrics w))\<rparr>\<rparr>
      else w)"

definition azure_recordCacheMiss :: "azure_Backend \<Rightarrow> world \<Rightarrow> world" where
  "azure_recordCacheMiss b w =
     (if az_metrics b
      then w\<lparr>w_metrics := (w_metrics w)\<lparr>m_CacheMisses := inc azure_backendName (m_CacheMisses (w_metrics w))\<rparr>\<rparr>
      else w)"

definition azure_updateCacheEntries :: "azure_Backend \<Rightarrow> world \<Rightarrow> world" where
  "azure_updateCacheEntries b w =
     (if az_metrics b
      then w\<lparr>w_metrics := (w_metrics w)
             \<lparr>m_CacheEntries := (m_CacheEntries (w_metrics w))(azure_backendName := cache_Len (az_cache b))\<rparr>\<rparr>
      else w)"

text \<open>The loop of \<open>getFlat\<close> over the listed names.\<close>

fun flat_loop :: "kvClient \<Rightarrow> string \<Rightarrow> string list \<Rightarrow> strmap \<Rightarrow> backend_error + strmap" where
  "flat_loop client path [] result = Inr result"
| "flat_loop client path (name # names) result =
     (if \<not> HasPrefix name (flatSecretPrefix path) then flat_loop client path names result
      else case flatDecodeKey path name of
        None \<Rightarrow> flat_loop client path names result
      | Some key \<Rightarrow>
          (case kv_GetSecret client name of
             Inl gerr \<Rightarrow>
               if azure_isNotFound gerr then flat_loop client path names result
               else Inl (mapError ''get secret'' gerr)
           | Inr value \<Rightarrow> flat_loop client path names (result(key \<mapsto> value))))"

definition getFlat ::
  "kvClient \<Rightarrow> time \<Rightarrow> string \<Rightarrow> azure_Backend \<Rightarrow> world \<Rightarrow> (backend_error + mref) \<times> azure_Backend \<times> world" where
  "getFlat client t2 path b w =
     (case kv_ListSecretNames client of
        Inl err \<Rightarrow> (Inl (mapError ''list secrets'' err), b, w)
      | Inr names \<Rightarrow>
          (case flat_loop client path names Map.empty of
             Inl err \<Rightarrow> (Inl err, b, w)
           | Inr m \<Rightarrow>
               if msize m = 0 then (Inl errSecretNotFound, b\<lparr>az_cache := cache_SetNegative t2 path (az_cache b)\<rparr>, w)
               else
                 let (result, h) = make_map m (w_heap w);
                     (c, h) = cache_Set t2 path result (az_cache b) h;
                     b = b\<lparr>az_cache := c\<rparr>
                 in (Inr result, b, azure_updateCacheEntries b (w\<lparr>w_heap := h\<rparr>))))"

text \<open>
  A document that is the JSON value null sets the result map to nil without an error.
\<close>

definition getJSON ::
  "(string \<Rightarrow> string) \<Rightarrow> kvClient \<Rightarrow> time \<Rightarrow> string \<Rightarrow> azure_Backend \<Rightarrow> world \<Rightarrow>
   (backend_error + mref) \<times> azure_Backend \<times> world" where
  "getJSON uerr client t2 path b w =
     (let name = jsonSecretName path in
      case kv_GetSecret client name of
        Inl err \<Rightarrow>
          if azure_isNotFound err
          then (Inl errSecretNotFound, b\<lparr>az_cache := cache_SetNegative t2 path (az_cache b)\<rparr>, w)
          else (Inl (mapError ''get secret'' err), b, w)
      | Inr value \<Rightarrow>
          (case Unmarshal_map value of
             None \<Rightarrow>
               (Inl (ErrBackendUnavailable (''backend unavailable: azure: decode json secret \"'' @ name @ ''\": '' @ uerr value)),
                b, w)
           | Some doc \<Rightarrow>
               let (result, h) = alloc doc (w_heap w);
                   (c, h) = cache_Set t2 path result (az_cache b) h;
                   b = b\<lparr>az_cache := c\<rparr>
               in (Inr result, b, azure_updateCacheEntries b (w\<lparr>w_heap := h\<rparr>))))"

definition azure_GetSecret ::
  "(string \<Rightarrow> string) \<Rightarrow> kvClient \<Rightarrow> time \<Rightarrow> time \<Rightarrow> string \<Rightarrow> azure_Backend \<Rightarrow> world \<Rightarrow>
   (backend_error + mref) \<times> azure_Backend \<times> world" where
  "azure_GetSecret uerr client t1 t2 path b w =
     (let ((value, hit, isNegative), c, h) = cache_Get t1 path (az_cache b) (w_heap w);
          b = b\<lparr>az_cache := c\<rparr>;
          w = w\<lparr>w_heap := h\<rparr>
      in
      if hit then
        let w = azure_recordCacheHit b w in
        if isNegative then (Inl errSecretNotFound, b, w) else (Inr value, b, w)
      else
        let w = azure_recordCacheMiss b w in
        if az_strategy b = strategyJSON then getJSON uerr client t2 path b w
        else getFlat client t2 path b w)"

subsection \<open>The adapter over the SDK client\<close>

definition adapter_GetSecret :: "(string \<Rightarrow> azure_error + string option) \<Rightarrow> string \<Rightarrow> azure_error + string" where
  "adapter_GetSecret sdk name =
     (case sdk name of
        Inl err \<Rightarrow> Inl err
      | Inr None \<Rightarrow> Inr ''''
      | Inr (Some value) \<Rightarrow> Inr value)"

text \<open>
  The pages the pager will produce, each a list of properties that may be nil or have a nil id;
  the id is given by its name. The loop ends when the pager has no more pages or a page fails.
\<close>

fun page_names :: "string option option list \<Rightarrow> string list" where
  "page_names [] = []"
| "page_names (Some (Some name) # props) = name # page_names props"
| "page_names (_ # props) = page_names props"

fun adapter_ListSecretNames :: "(azure_error + string option option list) list \<Rightarrow> string list \<Rightarrow> azure_error + string list" where
  "adapter_ListSecretNames [] names = Inr names"
| "adapter_ListSecretNames (Inl err # pages) names = Inl err"
| "adapter_ListSecretNames (Inr props # pages) names = adapter_ListSecretNames pages (names @ page_names props)"

subsection \<open>The backend is a read-through cache of the vault\<close>

definition azure_fetch :: "(string \<Rightarrow> string) \<Rightarrow> kvClient \<Rightarrow> azure_Backend \<Rightarrow> string \<Rightarrow> outcome" where
  "azure_fetch uerr client b path =
     (if az_strategy b = strategyJSON then
        (case kv_GetSecret client (jsonSecretName path) of
           Inl err \<Rightarrow> if azure_isNotFound err then Missing else Failed (mapError ''get secret'' err)
         | Inr value \<Rightarrow>
             (case Unmarshal_map value of
                None \<Rightarrow> Failed (ErrBackendUnavailable
                  (''backend unavailable: azure: decode json secret \"'' @ jsonSecretName path @ ''\": '' @ uerr value))
              | Some doc \<Rightarrow> Value doc))
      else
        (case kv_ListSecretNames client of
           Inl err \<Rightarrow> Failed (mapError ''list secrets'' err)
         | Inr names \<Rightarrow>
             (case flat_loop client path names Map.empty of
                Inl err \<Rightarrow> Failed err
              | Inr m \<Rightarrow> if msize m = 0 then Missing else Value (Some m))))"

lemma azure_effects:
  "azure_recordCacheHit b = bump_hits ''azure'' (az_metrics b)"
  "azure_recordCacheMiss b = bump_misses ''azure'' (az_metrics b)"
  "azure_updateCacheEntries b = gauge_entries ''azure'' (az_metrics b) (cache_Len (az_cache b))"
  by (simp_all add: fun_eq_iff azure_recordCacheHit_def azure_recordCacheMiss_def azure_updateCacheEntries_def
      bump_hits_def bump_misses_def gauge_entries_def upd_metrics_def azure_backendName_def)

lemma azure_GetSecret_read_through:
  "azure_GetSecret uerr client t1 t2 path b w =
     (case read_through ''azure'' (az_metrics b) (azure_fetch uerr client b path, \<lambda>w. w) t1 t2 path (az_cache b) w of
        (r, c, w') \<Rightarrow> (r, b\<lparr>az_cache := c\<rparr>, w'))"
proof (cases "az_strategy b = strategyJSON")
  case True
  then show ?thesis
    unfolding azure_GetSecret_def read_through_def azure_fetch_def azure_effects getJSON_def
    by (simp add: Let_def split: prod.splits sum.splits option.splits)
next
  case False
  then show ?thesis
    unfolding azure_GetSecret_def read_through_def azure_fetch_def azure_effects getFlat_def alloc_def
    by (simp add: Let_def split: prod.splits sum.splits)
qed

lemma mapError_sentinel [simp]: "is_sentinel (mapError opn err)"
  by (simp add: mapError_def is_sentinel_def)

lemma flat_loop_sentinel: "flat_loop client path names m = Inl e \<Longrightarrow> is_sentinel e"
  by (induction client path names m rule: flat_loop.induct) (auto split: if_splits option.splits sum.splits)

lemma azure_fetch_sentinel: "azure_fetch uerr client b path = Failed e \<Longrightarrow> is_sentinel e"
proof -
  have "is_sentinel (ErrBackendUnavailable s)" for s by (simp add: is_sentinel_def)
  then show "azure_fetch uerr client b path = Failed e \<Longrightarrow> is_sentinel e"
    using flat_loop_sentinel
    by (auto simp: azure_fetch_def split: if_splits sum.splits option.splits)
qed

definition azure_ok :: "azure_Backend \<Rightarrow> mheap \<Rightarrow> bool" where
  "azure_ok b h = cache_ok (az_cache b) h"

definition azure_view :: "azure_Backend \<Rightarrow> mheap \<Rightarrow> time \<Rightarrow> string \<Rightarrow> answer" where
  "azure_view b h t path = cache_peek (az_cache b) h t path"

definition azure_held :: "azure_Backend \<Rightarrow> nat set" where
  "azure_held b = owned (az_cache b)"

lemma azure_GetSecret_spec:
  assumes "azure_ok b (w_heap w)" and "azure_GetSecret uerr client t1 t2 path b w = (r, b', w')"
  shows "azure_ok b' (w_heap w') \<and> extends (w_heap w) (w_heap w') \<and>
    result_ok (azure_view b (w_heap w) t1 path) (azure_fetch uerr client b path) (w_heap w') r \<and>
    (\<forall>a. r = Inr (Some a) \<longrightarrow> a \<notin> azure_held b' \<and> next_addr (w_heap w) \<le> a \<and> a < next_addr (w_heap w'))"
proof -
  obtain c where rt: "read_through ''azure'' (az_metrics b) (azure_fetch uerr client b path, \<lambda>w. w) t1 t2
      path (az_cache b) w = (r, c, w')" and "b' = b\<lparr>az_cache := c\<rparr>"
    using assms(2) by (auto simp: azure_GetSecret_read_through split: prod.splits)
  with read_through_spec [OF _ _ rt] assms(1) show ?thesis
    by (simp add: azure_ok_def azure_view_def azure_held_def)
qed

lemma azure_GetSecret_silent: "azure_GetSecret uerr client t1 t2 path b w = (Inr v, b', w') \<Longrightarrow> w_log w' = w_log w"
proof -
  have "silent_values (azure_fetch uerr client b path, \<lambda>w. w)"
    by (simp add: silent_values_def split: outcome.split)
  from read_through_silent [OF this]
  show "azure_GetSecret uerr client t1 t2 path b w = (Inr v, b', w') \<Longrightarrow> w_log w' = w_log w"
    by (auto simp: azure_GetSecret_read_through split: prod.splits)
qed

interpretation azure: secret_backend azure_ok azure_view azure_held "azure_fetch uerr client" "azure_GetSecret uerr client"
  for uerr client
proof unfold_locales
  show "is_sentinel e" if "azure_fetch uerr client b path = Failed e" for b path e
    using that azure_fetch_sentinel by blast
  show "azure_ok b (write_map a m h) \<and> azure_view b (write_map a m h) = azure_view b h"
    if "azure_ok b h" "a \<notin> azure_held b" for b h a m
    using cache_foreign_write that by (simp add: azure_ok_def azure_held_def azure_view_def fun_eq_iff)
qed (use azure_GetSecret_spec azure_GetSecret_silent in blast)+


subsection \<open>What a flat read returns\<close>

definition flat_entry :: "kvClient \<Rightarrow> string \<Rightarrow> string \<Rightarrow> (string \<times> string) option" where
  "flat_entry client path name =
     (case flatDecodeKey path name of
        None \<Rightarrow> None
      | Some key \<Rightarrow> (case kv_GetSecret client name of Inl _ \<Rightarrow> None | Inr value \<Rightarrow> Some (key, value)))"

definition flat_fails :: "kvClient \<Rightarrow> string \<Rightarrow> string \<Rightarrow> bool" where
  "flat_fails client path name =
     (flatDecodeKey path name \<noteq> None \<and>
      (case kv_GetSecret client name of Inl err \<Rightarrow> \<not> azure_isNotFound err | Inr _ \<Rightarrow> False))"

lemma decode_needs_prefix: "flatDecodeKey path name \<noteq> None \<Longrightarrow> HasPrefix name (flatSecretPrefix path)"
  by (auto simp: flatDecodeKey_iff)

lemma flat_loop_collects:
  "list_all (\<lambda>name. \<not> flat_fails client path name) names \<Longrightarrow>
   flat_loop client path names m = Inr (m ++ map_of (rev (List.map_filter (flat_entry client path) names)))"
proof (induction names arbitrary: m)
  case (Cons name names)
  then show ?case
    using decode_needs_prefix [of path name]
    by (cases "flatDecodeKey path name"; cases "kv_GetSecret client name")
      (auto simp: flat_fails_def flat_entry_def List.map_filter_simps)
qed (simp add: List.map_filter_simps)

lemma flat_loop_fails:
  "\<exists>name \<in> set names. flat_fails client path name \<Longrightarrow> \<exists>s. flat_loop client path names m = Inl (ErrBackendUnavailable s)"
proof (induction names arbitrary: m)
  case (Cons name names)
  then show ?case
    using decode_needs_prefix [of path name]
    by (cases "flatDecodeKey path name"; cases "kv_GetSecret client name")
      (auto simp: flat_fails_def mapError_def)
qed simp


definition demo_kv :: kvClient where
  "demo_kv =
     \<lparr>kv_GetSecret = (\<lambda>name. if name = ''app--gone'' then Inl \<lparr>az_status = Some 404, az_text = ''''\<rparr> else Inr (''v:'' @ name)),
      kv_ListSecretNames = Inr [''app--db-user'', ''app--gone'', ''other--x'']\<rparr>"


text \<open>
  The flat layout does not keep paths apart. A read of the path app also returns, under a
  made-up key, the secrets of the different path app--db, and the paths team/db and team_db
  name the same secrets.
\<close>

theorem azure_flat_paths_alias:
  "flatDecodeKey ''app'' (flatKeyName ''app--db'' ''password'') = Some ''db__password'' \<and>
   (az_strategy b = strategyFlat \<longrightarrow>
      azure_fetch uerr client b ''team/db'' = azure_fetch uerr client b ''team_db'')"
proof -
  have "flatSecretPrefix ''team/db'' = flatSecretPrefix ''team_db''"
    by (simp add: flatSecretPrefix_def flatEncodePath_def pathEncoder_def)
  then have "flat_loop client ''team/db'' names m = flat_loop client ''team_db'' names m" for names m
    by (induction names arbitrary: m) (simp_all add: flatDecodeKey_def split: option.split sum.split)
  then have same: "flat_loop client ''team/db'' = flat_loop client ''team_db''"
    by (simp add: fun_eq_iff)
  show ?thesis
    unfolding azure_fetch_def same
    by (simp add: strategyFlat_def strategyJSON_def flatDecodeKey_def CutPrefix_def HasPrefix_def
        flatKeyName_def flatSecretPrefix_def flatEncodePath_def flatEncodeKey_def pathEncoder_def)
qed

theorem azure_flat_paths_alias_witness:
  "az_strategy (azure_newWithClient '''' demo_config False) = strategyFlat \<and>
   azure_fetch (\<lambda>_. '''') demo_kv (azure_newWithClient '''' demo_config False) ''team/db'' =
     azure_fetch (\<lambda>_. '''') demo_kv (azure_newWithClient '''' demo_config False) ''team_db''"
proof -
  have "az_strategy (azure_newWithClient '''' demo_config False) = strategyFlat"
    by (simp add: azure_newWithClient_def)
  with azure_flat_paths_alias [of "azure_newWithClient '''' demo_config False" "\<lambda>_. ''''" demo_kv]
  show ?thesis by simp
qed

end
