(* ===== verification/Vault_Backend.thy ===== *)
theory Vault_Backend
  imports Secret_Backend Go_Json "HOL-Library.Char_ord" "HOL-Library.List_Lexorder"
begin

text \<open>
  internal/backend/vault/backend.go, the passthrough to a real Vault server. The API client is an
  argument: what it answers to each call. The state keeps the token the client holds and whether
  a renewal goroutine runs. Values that are not strings are rendered as \<open>fmt\<close> renders what
  encoding/json decodes with numbers kept as text.
\<close>

record vault_Config =
  vc_Address :: string
  vc_AuthPath :: string
  vc_Role :: string
  vc_TLSSkipVerify :: bool
  vc_CACert :: string
  vc_Token :: string
  vc_Cache :: CacheConfig

record vault_error =
  ve_is_ErrSecretNotFound :: bool
  ve_status :: "nat option"
  ve_text :: string

type_synonym jobject = "string \<rightharpoonup> jvalue"

text \<open>\<open>KVv2("secret").Get\<close> answers with a secret pointer that may be nil and whose data may be
  nil; \<open>Sys().Health\<close> only succeeds or fails.\<close>

record vault_Client =
  vc_Get :: "string \<Rightarrow> string \<Rightarrow> vault_error + jobject option option"
  vc_Health :: "vault_error option"

record vault_Backend =
  vb_cache :: Cache
  vb_metric :: bool
  vb_token :: string
  vb_renewing :: bool

definition vault_backendName :: string where
  "vault_backendName = ''vault''"

definition kvMount :: string where
  "kvMount = ''secret''"

definition defaultAuthPath :: string where
  "defaultAuthPath = ''kubernetes''"

definition saTokenPath :: string where
  "saTokenPath = ''/var/run/secrets/kubernetes.io/serviceaccount/token''"

subsection \<open>Login and construction\<close>

text \<open>The parts of an auth secret the code looks at.\<close>

record vault_Auth =
  va_ClientToken :: string
  va_Renewable :: bool

text \<open>
  The environment of the constructor: the error of the default configuration, \<open>ConfigureTLS\<close>,
  \<open>NewClient\<close>, the file with the pod's token (an error says whether the file is missing),
  the login call by path, role and token, and \<open>NewLifetimeWatcher\<close>. A login secret is nil, has
  no auth block, or has one.
\<close>

record vault_env =
  env_DefaultConfig_Error :: "string option"
  env_ConfigureTLS :: "bool \<Rightarrow> string \<Rightarrow> string option"
  env_NewClient :: "string \<Rightarrow> string option"
  env_ReadFile :: "string \<Rightarrow> (bool \<times> string) + string"
  env_Write :: "string \<Rightarrow> string \<Rightarrow> string \<Rightarrow> string + vault_Auth option option"
  env_NewLifetimeWatcher :: "vault_Auth \<Rightarrow> string option"

definition vault_login :: "vault_env \<Rightarrow> vault_Config \<Rightarrow> vault_Backend \<Rightarrow> string + vault_Auth \<times> vault_Backend" where
  "vault_login env cfg b =
     (case env_ReadFile env saTokenPath of
        Inl (notExist, err) \<Rightarrow>
          if notExist
          then Inl (''vault: no static token set and service-account token \"'' @ saTokenPath @
                    ''\" not found (not running in a cluster?): '' @ err)
          else Inl (''vault: read service-account token: '' @ err)
      | Inr jwt \<Rightarrow>
          (case env_Write env (''auth/'' @ vc_AuthPath cfg @ ''/login'') (vc_Role cfg) jwt of
             Inl err \<Rightarrow> Inl (''vault: kubernetes login: '' @ err)
           | Inr secret \<Rightarrow>
               (case secret of
                  Some (Some auth) \<Rightarrow>
                    if va_ClientToken auth = '''' then Inl ''vault: kubernetes login returned no client token''
                    else Inr (auth, b\<lparr>vb_token := va_ClientToken auth\<rparr>)
                | _ \<Rightarrow> Inl ''vault: kubernetes login returned no client token'')))"

definition startRenewal :: "vault_env \<Rightarrow> vault_Auth \<Rightarrow> string option" where
  "startRenewal env auth =
     (case env_NewLifetimeWatcher env auth of
        Some err \<Rightarrow> Some (''vault: new lifetime watcher: '' @ err)
      | None \<Rightarrow> None)"

text \<open>
  The goroutine that \<open>startRenewal\<close> launches, as it consumes what its channels deliver: the
  result says whether it still runs.
\<close>

datatype renewal_event = CtxDone | WatcherDone "string option" | WatcherRenewed

fun renewal_loop :: "renewal_event list \<Rightarrow> world \<Rightarrow> bool \<times> world" where
  "renewal_loop [] w = (True, w)"
| "renewal_loop (CtxDone # evs) w = (False, w)"
| "renewal_loop (WatcherDone err # evs) w =
     (False, case err of
               Some e \<Rightarrow> slog LevelWarn ''vault token renewal stopped'' [(''error'', e)] w
             | None \<Rightarrow> w)"
| "renewal_loop (WatcherRenewed # evs) w = renewal_loop evs (slog LevelDebug ''vault token renewed'' [] w)"

definition vault_New :: "vault_env \<Rightarrow> vault_Config \<Rightarrow> bool \<Rightarrow> world \<Rightarrow> (string + vault_Backend) \<times> world" where
  "vault_New env cfg m w =
     (let cfg = (if vc_AuthPath cfg = '''' then cfg\<lparr>vc_AuthPath := defaultAuthPath\<rparr> else cfg) in
      case env_DefaultConfig_Error env of
        Some err \<Rightarrow> (Inl (''vault: default config: '' @ err), w)
      | None \<Rightarrow>
      let w = (if vc_TLSSkipVerify cfg
               then slog LevelWarn ''vault TLS certificate verification is disabled; do not use in production'' [] w
               else w) in
      case env_ConfigureTLS env (vc_TLSSkipVerify cfg) (vc_CACert cfg) of
        Some err \<Rightarrow> (Inl (''vault: configure tls: '' @ err), w)
      | None \<Rightarrow>
      case env_NewClient env (vc_Address cfg) of
        Some err \<Rightarrow> (Inl (''vault: new client: '' @ err), w)
      | None \<Rightarrow>
      let b = \<lparr>vb_cache = cache_New (vc_Cache cfg), vb_metric = m, vb_token = '''', vb_renewing = False\<rparr> in
      if vc_Token cfg \<noteq> '''' then
        (Inr (b\<lparr>vb_token := vc_Token cfg\<rparr>),
         slog LevelInfo ''vault backend initialized with static token''
           [(''address'', vc_Address cfg), (''tls_skip_verify'', bool_str (vc_TLSSkipVerify cfg))] w)
      else case vault_login env cfg b of
        Inl err \<Rightarrow> (Inl err, w)
      | Inr (auth, b) \<Rightarrow>
          let (b, w) =
            (if va_Renewable auth then
               (case startRenewal env auth of
                  Some err \<Rightarrow> (b\<lparr>vb_renewing := False\<rparr>,
                    slog LevelWarn ''vault token renewal could not be started'' [(''error'', err)] w)
                | None \<Rightarrow> (b\<lparr>vb_renewing := True\<rparr>, w))
             else (b, w))
          in (Inr b,
              slog LevelInfo ''vault backend initialized with kubernetes auth''
                [(''address'', vc_Address cfg), (''auth_path'', vc_AuthPath cfg), (''role'', vc_Role cfg),
                 (''tls_skip_verify'', bool_str (vc_TLSSkipVerify cfg))] w))"

definition vault_Name :: "vault_Backend \<Rightarrow> string" where
  "vault_Name b = vault_backendName"

text \<open>\<open>Close\<close> cancels the renewal context, if any; cancelling twice does nothing.\<close>

definition vault_Close :: "vault_Backend \<Rightarrow> backend_error option \<times> vault_Backend" where
  "vault_Close b = (None, if vb_renewing b then b\<lparr>vb_renewing := False\<rparr> else b)"

subsection \<open>Reading\<close>

text \<open>
  \<open>fmt.Sprintf("%v", v)\<close> on a decoded JSON value: nil, booleans, numbers as text, slices in
  brackets and maps in key order.
\<close>

fun sprint_v :: "jvalue \<Rightarrow> string" where
  "sprint_v JNull = ''<nil>''"
| "sprint_v (JBool b) = bool_str b"
| "sprint_v (JNumber n) = n"
| "sprint_v (JString s) = s"
| "sprint_v (JArray vs) = ''['' @ Join (map sprint_v vs) '' '' @ '']''"
| "sprint_v (JObject kvs) =
     ''map['' @ Join (map (\<lambda>(k, s). k @ '':'' @ s) (sort_key fst (map (\<lambda>(k, v). (k, sprint_v v)) kvs))) '' '' @ '']''"

definition convertData :: "jobject \<Rightarrow> strmap" where
  "convertData data =
     (\<lambda>k. case data k of
            None \<Rightarrow> None
          | Some v \<Rightarrow> (case v of JString s \<Rightarrow> Some s | _ \<Rightarrow> Some (sprint_v v)))"

definition vault_isNotFound :: "vault_error \<Rightarrow> bool" where
  "vault_isNotFound err =
     (if ve_is_ErrSecretNotFound err then True
      else if ve_status err = Some 404 then True
      else False)"

definition vault_recordCacheHit :: "vault_Backend \<Rightarrow> world \<Rightarrow> world" where
  "vault_recordCacheHit b w =
     (if vb_metric b
      then w\<lparr>w_metrics := (w_metrics w)\<lparr>m_CacheHits := inc vault_backendName (m_CacheHits (w_metrics w))\<rparr>\<rparr>
      else w)"

definition vault_recordCacheMiss :: "vault_Backend \<Rightarrow> world \<Rightarrow> world" where
  "vault_recordCacheMiss b w =
     (if vb_metric b
      then w\<lparr>w_metrics := (w_metrics w)\<lparr>m_CacheMisses := inc vault_backendName (m_CacheMisses (w_metrics w))\<rparr>\<rparr>
      else w)"

definition vault_updateCacheEntries :: "vault_Backend \<Rightarrow> world \<Rightarrow> world" where
  "vault_updateCacheEntries b w =
     (if vb_metric b
      then w\<lparr>w_metrics := (w_metrics w)
             \<lparr>m_CacheEntries := (m_CacheEntries (w_metrics w))(vault_backendName := cache_Len (vb_cache b))\<rparr>\<rparr>
      else w)"

definition vault_GetSecret ::
  "vault_Client \<Rightarrow> time \<Rightarrow> time \<Rightarrow> string \<Rightarrow> vault_Backend \<Rightarrow> world \<Rightarrow>
   (backend_error + mref) \<times> vault_Backend \<times> world" where
  "vault_GetSecret client t1 t2 path b w =
     (let ((value, hit, isNegative), c, h) = cache_Get t1 path (vb_cache b) (w_heap w);
          b = b\<lparr>vb_cache := c\<rparr>;
          w = w\<lparr>w_heap := h\<rparr>
      in
      if hit then
        let w = vault_recordCacheHit b w in
        if isNegative then (Inl errSecretNotFound, b, w) else (Inr value, b, w)
      else
        let w = vault_recordCacheMiss b w in
        case vc_Get client kvMount path of
          Inl err \<Rightarrow>
            if vault_isNotFound err
            then (Inl errSecretNotFound, b\<lparr>vb_cache := cache_SetNegative t2 path (vb_cache b)\<rparr>, w)
            else (Inl (ErrBackendUnavailable ''vault: get secret: backend unavailable''), b,
                  slog LevelWarn ''vault get secret failed'' [(''path'', path), (''error'', ve_text err)] w)
        | Inr secret \<Rightarrow>
            case secret of
              Some (Some data) \<Rightarrow>
                let (result, h) = make_map (convertData data) (w_heap w);
                    (c, h) = cache_Set t2 path result (vb_cache b) h;
                    b = b\<lparr>vb_cache := c\<rparr>
                in (Inr result, b, vault_updateCacheEntries b (w\<lparr>w_heap := h\<rparr>))
            | _ \<Rightarrow> (Inl errSecretNotFound, b\<lparr>vb_cache := cache_SetNegative t2 path (vb_cache b)\<rparr>, w))"

definition vault_HealthCheck :: "vault_Client \<Rightarrow> world \<Rightarrow> backend_error option \<times> world" where
  "vault_HealthCheck client w =
     (case vc_Health client of
        Some err \<Rightarrow>
          (Some (ErrBackendUnavailable ''vault: health check: backend unavailable''),
           slog LevelWarn ''vault health check failed'' [(''error'', ve_text err)] w)
      | None \<Rightarrow> (None, w))"

subsection \<open>The backend is a read-through cache of the Vault server\<close>

definition vault_fetch :: "vault_Client \<Rightarrow> string \<Rightarrow> outcome \<times> (world \<Rightarrow> world)" where
  "vault_fetch client path =
     (case vc_Get client kvMount path of
        Inl err \<Rightarrow>
          if vault_isNotFound err then (Missing, \<lambda>w. w)
          else (Failed (ErrBackendUnavailable ''vault: get secret: backend unavailable''),
                slog LevelWarn ''vault get secret failed'' [(''path'', path), (''error'', ve_text err)])
      | Inr (Some (Some data)) \<Rightarrow> (Value (Some (convertData data)), \<lambda>w. w)
      | Inr _ \<Rightarrow> (Missing, \<lambda>w. w))"

lemma vault_effects:
  "vault_recordCacheHit b = bump_hits ''vault'' (vb_metric b)"
  "vault_recordCacheMiss b = bump_misses ''vault'' (vb_metric b)"
  "vault_updateCacheEntries b = gauge_entries ''vault'' (vb_metric b) (cache_Len (vb_cache b))"
  by (simp_all add: fun_eq_iff vault_recordCacheHit_def vault_recordCacheMiss_def vault_updateCacheEntries_def
      bump_hits_def bump_misses_def gauge_entries_def upd_metrics_def vault_backendName_def)

lemma vault_GetSecret_read_through:
  "vault_GetSecret client t1 t2 path b w =
     (case read_through ''vault'' (vb_metric b) (vault_fetch client path) t1 t2 path (vb_cache b) w of
        (r, c, w') \<Rightarrow> (r, b\<lparr>vb_cache := c\<rparr>, w'))"
  unfolding vault_GetSecret_def read_through_def vault_fetch_def vault_effects alloc_def
  by (simp add: Let_def split: prod.splits sum.splits option.splits)

definition vault_ok :: "vault_Backend \<Rightarrow> mheap \<Rightarrow> bool" where
  "vault_ok b h = cache_ok (vb_cache b) h"

definition vault_view :: "vault_Backend \<Rightarrow> mheap \<Rightarrow> time \<Rightarrow> string \<Rightarrow> answer" where
  "vault_view b h t path = cache_peek (vb_cache b) h t path"

definition vault_held :: "vault_Backend \<Rightarrow> nat set" where
  "vault_held b = owned (vb_cache b)"

definition vault_answer :: "vault_Client \<Rightarrow> vault_Backend \<Rightarrow> string \<Rightarrow> outcome" where
  "vault_answer client b path = fst (vault_fetch client path)"

lemma vault_fetch_quiet: "logs_only (snd (vault_fetch client path))"
  by (auto simp: vault_fetch_def split: sum.split option.split)

lemma vault_fetch_sentinel: "fst (vault_fetch client path) = Failed e \<Longrightarrow> is_sentinel e"
  by (auto simp: vault_fetch_def is_sentinel_def split: sum.splits if_splits option.splits)

lemma vault_GetSecret_spec:
  assumes "vault_ok b (w_heap w)" and "vault_GetSecret client t1 t2 path b w = (r, b', w')"
  shows "vault_ok b' (w_heap w') \<and> extends (w_heap w) (w_heap w') \<and>
    result_ok (vault_view b (w_heap w) t1 path) (vault_answer client b path) (w_heap w') r \<and>
    (\<forall>a. r = Inr (Some a) \<longrightarrow> a \<notin> vault_held b' \<and> next_addr (w_heap w) \<le> a \<and> a < next_addr (w_heap w'))"
proof -
  obtain c where "read_through ''vault'' (vb_metric b) (vault_fetch client path) t1 t2
      path (vb_cache b) w = (r, c, w')" and "b' = b\<lparr>vb_cache := c\<rparr>"
    using assms(2) by (auto simp: vault_GetSecret_read_through split: prod.splits)
  with read_through_spec [OF _ vault_fetch_quiet this(1)] assms(1) show ?thesis
    by (simp add: vault_ok_def vault_view_def vault_held_def vault_answer_def)
qed

lemma vault_fetch_silent: "silent_values (vault_fetch client path)"
  by (auto simp: silent_values_def vault_fetch_def split: sum.split option.split)

lemma vault_GetSecret_silent: "vault_GetSecret client t1 t2 path b w = (Inr v, b', w') \<Longrightarrow> w_log w' = w_log w"
  by (auto simp: vault_GetSecret_read_through split: prod.splits dest: read_through_silent [OF vault_fetch_silent])

interpretation vault: secret_backend vault_ok vault_view vault_held "vault_answer client" "vault_GetSecret client" for client
proof unfold_locales
  show "is_sentinel e" if "vault_answer client b path = Failed e" for b path e
    using that vault_fetch_sentinel by (simp add: vault_answer_def)
  show "vault_ok b (write_map a m h) \<and> vault_view b (write_map a m h) = vault_view b h"
    if "vault_ok b h" "a \<notin> vault_held b" for b h a m
    using cache_foreign_write that by (simp add: vault_ok_def vault_held_def vault_view_def fun_eq_iff)
qed (use vault_GetSecret_spec vault_GetSecret_silent in blast)+

subsection \<open>Construction\<close>

text \<open>
  A Vault backend that was constructed has a token: the configured one, or the non-empty
  client token of a login as the configured role at the configured mount with the pod's own
  token. Without a configured token construction fails when the pod's token cannot be read or
  the login yields no token. The new cache is empty and in order, and only a renewable token
  is ever renewed.
\<close>

theorem vault_New_token:
  assumes "vault_New env cfg m w = (Inr b, w')"
    and "mount = (if vc_AuthPath cfg = '''' then defaultAuthPath else vc_AuthPath cfg)"
  shows "vb_token b \<noteq> '''' \<and> vb_cache b = cache_New (vc_Cache cfg) \<and>
    (if vc_Token cfg \<noteq> '''' then vb_token b = vc_Token cfg \<and> \<not> vb_renewing b
     else \<exists>jwt auth. env_ReadFile env saTokenPath = Inr jwt \<and>
            env_Write env (''auth/'' @ mount @ ''/login'') (vc_Role cfg) jwt = Inr (Some (Some auth)) \<and>
            vb_token b = va_ClientToken auth \<and> (vb_renewing b \<longrightarrow> va_Renewable auth))"
  using assms
  by (auto simp: vault_New_def vault_login_def Let_def split: if_splits option.splits sum.splits prod.splits)

definition demo_vault_env :: vault_env where
  "demo_vault_env =
     \<lparr>env_DefaultConfig_Error = None, env_ConfigureTLS = (\<lambda>_ _. None), env_NewClient = (\<lambda>_. None),
      env_ReadFile = (\<lambda>_. Inr ''jwt''),
      env_Write = (\<lambda>_ _ _. Inr (Some (Some \<lparr>va_ClientToken = ''t'', va_Renewable = True\<rparr>))),
      env_NewLifetimeWatcher = (\<lambda>_. None)\<rparr>"

definition demo_vault_cfg :: vault_Config where
  "demo_vault_cfg =
     \<lparr>vc_Address = ''https://vault:8200'', vc_AuthPath = '''', vc_Role = ''gw'', vc_TLSSkipVerify = False,
      vc_CACert = '''', vc_Token = '''', vc_Cache = demo_config\<rparr>"

definition demo_world :: world where
  "demo_world = \<lparr>w_heap = demo_heap, w_metrics = metrics_New, w_log = []\<rparr>"

theorem vault_New_token_witness:
  "\<exists>b w'. vault_New demo_vault_env demo_vault_cfg True demo_world = (Inr b, w') \<and>
     vb_token b = ''t'' \<and> vb_cache b = cache_New demo_config"
proof -
  obtain b w' where new: "vault_New demo_vault_env demo_vault_cfg True demo_world = (Inr b, w')"
    by (simp add: vault_New_def vault_login_def startRenewal_def demo_vault_env_def demo_vault_cfg_def)
  from vault_New_token [OF this refl] show ?thesis
    by (auto simp: new) (auto simp: demo_vault_env_def demo_vault_cfg_def)
qed

end
