(* ===== verification/Backends.thy ===== *)
theory Backends
  imports Aws_Backend Gcp_Backend Azure_Backend Vault_Backend
begin

text \<open>
  A value of the Go interface type \<open>SecretBackend\<close>: one of the four implementations. Calling a
  method dispatches on the implementation. \<open>remotes\<close> bundles what the four remote services
  answer at the time of the call.
\<close>

datatype backend =
    AWS aws_Backend
  | Azure azure_Backend
  | Vault vault_Backend
  | GCP gcp_Backend

record remotes =
  r_aws :: smClient
  r_azure :: kvClient
  r_azure_uerr :: "string \<Rightarrow> string"
  r_vault :: vault_Client
  r_gcp :: gcp_Client

fun backend_GetSecret ::
  "remotes \<Rightarrow> time \<Rightarrow> time \<Rightarrow> string \<Rightarrow> backend \<Rightarrow> world \<Rightarrow> (backend_error + mref) \<times> backend \<times> world" where
  "backend_GetSecret rs t1 t2 path (AWS b) w =
     (case aws_GetSecret (r_aws rs) t1 t2 path b w of (r, b, w) \<Rightarrow> (r, AWS b, w))"
| "backend_GetSecret rs t1 t2 path (Azure b) w =
     (case azure_GetSecret (r_azure_uerr rs) (r_azure rs) t1 t2 path b w of (r, b, w) \<Rightarrow> (r, Azure b, w))"
| "backend_GetSecret rs t1 t2 path (Vault b) w =
     (case vault_GetSecret (r_vault rs) t1 t2 path b w of (r, b, w) \<Rightarrow> (r, Vault b, w))"
| "backend_GetSecret rs t1 t2 path (GCP b) w =
     (case gcp_GetSecret (r_gcp rs) t1 t2 path b w of (r, b, w) \<Rightarrow> (r, GCP b, w))"

fun backend_HealthCheck :: "remotes \<Rightarrow> backend \<Rightarrow> world \<Rightarrow> backend_error option \<times> world" where
  "backend_HealthCheck rs (AWS b) w = aws_HealthCheck (r_aws rs) w"
| "backend_HealthCheck rs (Azure b) w = (azure_HealthCheck (r_azure rs), w)"
| "backend_HealthCheck rs (Vault b) w = vault_HealthCheck (r_vault rs) w"
| "backend_HealthCheck rs (GCP b) w = gcp_HealthCheck (r_gcp rs) b w"

fun backend_Name :: "backend \<Rightarrow> string" where
  "backend_Name (AWS b) = aws_Name b"
| "backend_Name (Azure b) = azure_Name b"
| "backend_Name (Vault b) = vault_Name b"
| "backend_Name (GCP b) = gcp_Name b"

subsection \<open>The contract holds for every implementation\<close>

fun backend_ok :: "backend \<Rightarrow> mheap \<Rightarrow> bool" where
  "backend_ok (AWS b) h = aws_ok b h"
| "backend_ok (Azure b) h = azure_ok b h"
| "backend_ok (Vault b) h = vault_ok b h"
| "backend_ok (GCP b) h = gcp_ok b h"

fun backend_view :: "backend \<Rightarrow> mheap \<Rightarrow> time \<Rightarrow> string \<Rightarrow> answer" where
  "backend_view (AWS b) h t path = aws_view b h t path"
| "backend_view (Azure b) h t path = azure_view b h t path"
| "backend_view (Vault b) h t path = vault_view b h t path"
| "backend_view (GCP b) h t path = gcp_view b h t path"

fun backend_held :: "backend \<Rightarrow> nat set" where
  "backend_held (AWS b) = aws_held b"
| "backend_held (Azure b) = azure_held b"
| "backend_held (Vault b) = vault_held b"
| "backend_held (GCP b) = gcp_held b"

fun backend_answer :: "remotes \<Rightarrow> backend \<Rightarrow> string \<Rightarrow> outcome" where
  "backend_answer rs (AWS b) path = aws_answer (r_aws rs) b path"
| "backend_answer rs (Azure b) path = azure_fetch (r_azure_uerr rs) (r_azure rs) b path"
| "backend_answer rs (Vault b) path = vault_answer (r_vault rs) b path"
| "backend_answer rs (GCP b) path = gcp_answer (r_gcp rs) b path"

interpretation be: secret_backend backend_ok backend_view backend_held "backend_answer rs" "backend_GetSecret rs" for rs
proof unfold_locales
  show "is_sentinel e" if "backend_answer rs b path = Failed e" for b path e
    using that by (cases b) (auto intro: aws.sentinel azure.sentinel vault.sentinel gcp.sentinel)
  show "backend_ok b (write_map a m h) \<and> backend_view b (write_map a m h) = backend_view b h"
    if "backend_ok b h" "a \<notin> backend_held b" for b h a m
    using that by (cases b) (auto simp: fun_eq_iff aws.foreign azure.foreign vault.foreign gcp.foreign)
  fix b w t1 t2 path r b' w'
  assume ok: "backend_ok b (w_heap w)" and get: "backend_GetSecret rs t1 t2 path b w = (r, b', w')"
  show "backend_ok b' (w_heap w') \<and> extends (w_heap w) (w_heap w')"
    using ok get by (cases b) (auto split: prod.splits dest: aws.keeps azure.keeps vault.keeps gcp.keeps)
  show "result_ok (backend_view b (w_heap w) t1 path) (backend_answer rs b path) (w_heap w') r"
    using ok get by (cases b) (auto split: prod.splits dest: aws.result azure.result vault.result gcp.result)
next
  fix b w t1 t2 path a b' w'
  assume ok: "backend_ok b (w_heap w)" and get: "backend_GetSecret rs t1 t2 path b w = (Inr (Some a), b', w')"
  show "a \<notin> backend_held b' \<and> next_addr (w_heap w) \<le> a \<and> a < next_addr (w_heap w')"
    using ok get by (cases b) (auto split: prod.splits dest: aws.fresh azure.fresh vault.fresh gcp.fresh)
next
  fix b w t1 t2 path v b' w'
  assume "backend_GetSecret rs t1 t2 path b w = (Inr v, b', w')"
  then show "w_log w' = w_log w"
    by (cases b) (auto split: prod.splits dest: aws.silent azure.silent vault.silent gcp.silent)
qed


definition demo_remotes :: remotes where
  "demo_remotes =
     \<lparr>r_aws = \<lparr>sm_GetSecretValue = (\<lambda>key. Inr (Some ''plain'')), sm_ListSecrets = None\<rparr>,
      r_azure = demo_kv, r_azure_uerr = (\<lambda>_. ''''),
      r_vault = \<lparr>vc_Get = (\<lambda>_ _. Inr None), vc_Health = None\<rparr>,
      r_gcp = \<lparr>gcp_AccessSecretVersion = (\<lambda>_. Inr None)\<rparr>\<rparr>"

definition demo_aws :: backend where
  "demo_aws = AWS (aws_newWithClient
     \<lparr>ac_Region = '''', ac_SecretPrefix = ''prod/'', ac_EndpointURL = '''', ac_MaxRetries = 0, ac_Cache = demo_config\<rparr> True)"

lemma new_cache_ok: "cache_ok (cache_New cfg) h"
  using cache_inv_New [of cfg] by (auto simp: cache_ok_def owned_def cache_New_def newWithClock_def Let_def)

lemma new_cache_misses: "cache_peek (cache_New cfg) h t p = Miss"
  by (simp add: cache_peek_def peek_content_def cache_New_def newWithClock_def Let_def)


end
