(* ===== verification/Secret_Path.thy ===== *)
theory Secret_Path
  imports Go_Strings
begin

text \<open>
  The package internal/secretpath: the allowlist that every secret path passes before the API
  hands it to authorization and to a backend. \<open>Validate\<close> keeps the code's order of checks: the
  four length and slash tests, the loop over runes, the loop over segments with its two
  indices. The lemmas show that the two loops decide a simple predicate on bytes and
  segments, and that an accepted path is canonical.
\<close>

datatype path_error =
    EmptyPath
  | PathTooLong
  | AbsolutePath
  | TrailingSlash
  | NullByte
  | ControlCharacter
  | ForbiddenCharacter rune
  | EmptySegment
  | TraversalSegment string

definition MaxLength :: nat where
  "MaxLength = 256"

definition allowed :: "rune \<Rightarrow> bool" where
  "allowed r =
     (if 97 \<le> r \<and> r \<le> 122 then True
      else if 65 \<le> r \<and> r \<le> 90 then True
      else if 48 \<le> r \<and> r \<le> 57 then True
      else if r = 45 \<or> r = 95 \<or> r = 46 \<or> r = 47 \<or> r = 58 then True
      else False)"

fun check_runes :: "rune list \<Rightarrow> path_error + unit" where
  "check_runes [] = Inr ()"
| "check_runes (r # rs) =
     (if r = 0 then Inl NullByte
      else if r < 32 \<or> r = 127 then Inl ControlCharacter
      else if \<not> allowed r then Inl (ForbiddenCharacter r)
      else check_runes rs)"

text \<open>The loop over \<open>i\<close> from 0 to \<open>len(path)\<close> with the start of the current segment.\<close>

function check_segments :: "string \<Rightarrow> nat \<Rightarrow> nat \<Rightarrow> path_error + unit" where
  "check_segments path start i =
     (if i \<le> length path then
        if i = length path \<or> path ! i = CHR ''/'' then
          let seg = take (i - start) (drop start path) in
          if seg = '''' then Inl EmptySegment
          else if seg = ''.'' \<or> seg = ''..'' then Inl (TraversalSegment seg)
          else check_segments path (Suc i) (Suc i)
        else check_segments path start (Suc i)
      else Inr ())"
  by pat_completeness auto
termination
  by (relation "measure (\<lambda>(path, start, i). Suc (length path) - i)") auto

declare check_segments.simps [simp del]

definition Validate :: "string \<Rightarrow> path_error + unit" where
  "Validate path =
     (if path = '''' then Inl EmptyPath
      else if length path > MaxLength then Inl PathTooLong
      else if path ! 0 = CHR ''/'' then Inl AbsolutePath
      else if path ! (length path - 1) = CHR ''/'' then Inl TrailingSlash
      else case check_runes (runes path) of
             Inl e \<Rightarrow> Inl e
           | Inr _ \<Rightarrow> check_segments path 0 0)"

subsection \<open>Reference definitions\<close>

text \<open>The first offending segment of a list, in the order of the list.\<close>

fun first_bad_segment :: "string list \<Rightarrow> path_error + unit" where
  "first_bad_segment [] = Inr ()"
| "first_bad_segment (seg # segs) =
     (if seg = '''' then Inl EmptySegment
      else if seg = ''.'' \<or> seg = ''..'' then Inl (TraversalSegment seg)
      else first_bad_segment segs)"

definition plain_segment :: "string \<Rightarrow> bool" where
  "plain_segment seg \<longleftrightarrow> seg \<noteq> '''' \<and> seg \<noteq> ''.'' \<and> seg \<noteq> ''..''"

definition segments :: "string \<Rightarrow> string list" where
  "segments path = Split path CHR ''/''"

text \<open>
  Where a list of segments leads when it is read as a walk through a directory tree, from the
  directory whose names, innermost first, are \<open>dir\<close>.
\<close>

fun walk :: "string list \<Rightarrow> string list \<Rightarrow> string list" where
  "walk dir [] = rev dir"
| "walk dir (seg # segs) =
     (if seg = '''' \<or> seg = ''.'' then walk dir segs
      else if seg = ''..'' then walk (tl dir) segs
      else walk (seg # dir) segs)"

subsection \<open>The loops decide simple predicates\<close>

lemma allowed_ascii: "allowed r \<Longrightarrow> r < 128"
  by (auto simp: allowed_def split: if_splits)

lemma allowed_not_control: "allowed r \<Longrightarrow> r \<noteq> 0 \<and> \<not> r < 32 \<and> r \<noteq> 127"
  by (auto simp: allowed_def split: if_splits)

lemma check_runes_ok: "check_runes rs = Inr () \<longleftrightarrow> list_all allowed rs"
  by (induction rs) (auto dest: allowed_not_control)

lemma check_runes_bytes: "check_runes (runes path) = Inr () \<longleftrightarrow> list_all (\<lambda>c. allowed (code c)) path"
  by (simp add: check_runes_ok list_all_runes_bytes allowed_ascii)

lemma first_bad_segment_ok: "first_bad_segment segs = Inr () \<longleftrightarrow> list_all plain_segment segs"
  by (induction segs) (auto simp: plain_segment_def)

lemma check_segments_past: "length path < i \<Longrightarrow> check_segments path start i = Inr ()"
  by (simp add: check_segments.simps [of path start i])

text \<open>
  The index loop reports what the list of segments reports: at position \<open>i\<close> the bytes from
  \<open>start\<close> to \<open>i\<close> hold no slash and the rest of the path is still to be split.
\<close>

lemma check_segments_split:
  "start \<le> i \<Longrightarrow> i \<le> length path \<Longrightarrow> CHR ''/'' \<notin> set (take (i - start) (drop start path)) \<Longrightarrow>
   check_segments path start i = first_bad_segment (segments (drop start path))"
proof (induction path start i rule: check_segments.induct)
  case (1 path start i)
  let ?seg = "take (i - start) (drop start path)"
  consider (fin) "i = length path"
    | (slash) "i < length path" "path ! i = CHR ''/''"
    | (other) "i < length path" "path ! i \<noteq> CHR ''/''"
    using "1.prems"(2) by linarith
  then show ?case
  proof cases
    case fin
    with "1.prems" have "segments (drop start path) = [?seg]"
      by (simp add: segments_def Split_no_sep)
    with fin show ?thesis
      by (simp add: check_segments.simps [of path start "length path"] check_segments_past Let_def)
  next
    case slash
    have "drop start path = ?seg @ CHR ''/'' # drop (Suc i) path"
      using slash "1.prems"(1)
      by (metis append_take_drop_id Cons_nth_drop_Suc drop_drop le_add_diff_inverse2)
    then have "segments (drop start path) = Split ?seg CHR ''/'' @ segments (drop (Suc i) path)"
      unfolding segments_def by (metis Split_append_sep)
    then have segs: "segments (drop start path) = ?seg # segments (drop (Suc i) path)"
      using "1.prems"(3) by (simp add: Split_no_sep)
    show ?thesis
      using "1.IH"(1) slash
      by (simp add: check_segments.simps [of path start i] segs Let_def)
  next
    case other
    have "take (Suc i - start) (drop start path) = ?seg @ [path ! i]"
      using other "1.prems"(1) by (simp add: Suc_diff_le take_Suc_conv_app_nth)
    then show ?thesis
      using "1.IH"(2) "1.prems" other
      by (simp add: check_segments.simps [of path start i])
  qed
qed

lemma check_segments_ok:
  "check_segments path 0 0 = Inr () \<longleftrightarrow> list_all plain_segment (segments path)"
  by (simp add: check_segments_split first_bad_segment_ok)

lemma segments_no_edge_slash:
  assumes "list_all plain_segment (segments path)"
  shows "hd path \<noteq> CHR ''/'' \<and> last path \<noteq> CHR ''/'' \<or> path = []"
proof (cases path)
  case (Cons c cs)
  have "hd path \<noteq> CHR ''/''"
    using assms Cons by (auto simp: segments_def plain_segment_def)
  moreover have "last path \<noteq> CHR ''/''"
  proof
    assume "last path = CHR ''/''"
    with Cons have "path = butlast path @ [CHR ''/'']"
      by (metis append_butlast_last_id list.distinct(1))
    then have "segments path = segments (butlast path) @ [[]]"
      unfolding segments_def by (metis Split.simps(1) Split_append_sep)
    with assms show False by (simp add: plain_segment_def)
  qed
  ultimately show ?thesis by simp
qed simp

subsection \<open>What an accepted path is\<close>

lemma Validate_ok_iff:
  "Validate path = Inr () \<longleftrightarrow>
   path \<noteq> [] \<and> length path \<le> MaxLength \<and> list_all (\<lambda>c. allowed (code c)) path \<and>
   list_all plain_segment (segments path)"
proof (cases "path = []")
  case False
  then have "path ! 0 = hd path" "path ! (length path - 1) = last path"
    by (simp_all add: hd_conv_nth last_conv_nth)
  with False show ?thesis
    using segments_no_edge_slash [of path]
    by (auto simp: Validate_def not_less check_segments_ok simp flip: check_runes_bytes
        split: sum.splits)
qed (simp add: Validate_def)

lemma walk_plain: "list_all plain_segment segs \<Longrightarrow> walk dir segs = rev dir @ segs"
  by (induction segs arbitrary: dir) (auto simp: plain_segment_def)

lemma Validate_chars: "Validate path = Inr () \<Longrightarrow> c \<in> set path \<Longrightarrow> allowed (code c)"
  by (simp add: Validate_ok_iff list_all_iff)

lemma Validate_nonempty: "Validate path = Inr () \<Longrightarrow> path \<noteq> []"
  by (simp add: Validate_ok_iff)

lemma Validate_trim: "Validate path = Inr () \<Longrightarrow> TrimByte path CHR ''/'' = path"
  using segments_no_edge_slash [of path] by (intro TrimByte_keep) (auto simp: Validate_ok_iff)

text \<open>
  C18. \<open>Validate\<close> accepts exactly the non-empty paths of at most 256 bytes whose bytes are all in the
  allowlist and whose slash-separated segments are all plain: none is empty, \<open>.\<close> or \<open>..\<close>. The
  loop over decoded runes rejects every byte outside ASCII, so the rune test and the byte test
  agree, and the index loop inspects exactly the segments of the path.
\<close>

theorem Validate_accepts_iff:
  "Validate path = Inr () \<longleftrightarrow>
   path \<noteq> [] \<and> length path \<le> 256 \<and> list_all (\<lambda>c. allowed (code c)) path \<and>
   list_all plain_segment (segments path)"
  using Validate_ok_iff [of path] by (simp add: MaxLength_def)

text \<open>
  C19. No accepted path escapes its namespace: read as a walk through a directory tree from any
  base directory, an accepted path leads to the base followed by its own segments, so it never
  leaves the base and two accepted paths that lead to the same place are the same path.
\<close>

theorem Validate_no_escape:
  assumes "Validate path = Inr ()" and "Validate other = Inr ()"
  shows "walk (rev base) (segments path) = base @ segments path \<and>
         (walk (rev base) (segments path) = walk (rev base) (segments other) \<longrightarrow> path = other)"
  using assms Split_inj [of path "CHR ''/''" other]
  by (auto simp: Validate_ok_iff walk_plain segments_def)

theorem Validate_no_escape_witness:
  "walk (rev [''prod'']) (segments ''opus/db'') = [''prod'', ''opus'', ''db'']"
proof -
  have ok: "Validate ''opus/db'' = Inr ()"
    by (simp add: Validate_ok_iff MaxLength_def allowed_def code_def plain_segment_def segments_def)
  from Validate_no_escape [OF ok ok, of "[''prod'']"] show ?thesis
    by (simp add: segments_def)
qed

text \<open>
  The error a rejected path gets is the first failed check in the code's order: for a path
  that passes the length and edge-slash tests and holds allowlisted bytes only, \<open>Validate\<close> reports
  what the first bad segment from the left is, and nothing else.
\<close>

theorem Validate_reports_first_bad_segment:
  assumes "path \<noteq> []" and "length path \<le> MaxLength"
    and "hd path \<noteq> CHR ''/''" and "last path \<noteq> CHR ''/''"
    and "list_all (\<lambda>c. allowed (code c)) path"
  shows "Validate path = first_bad_segment (segments path)"
proof -
  have "path ! 0 = hd path" "path ! (length path - 1) = last path"
    using assms(1) by (simp_all add: hd_conv_nth last_conv_nth)
  moreover have "check_runes (runes path) = Inr ()"
    using assms(5) by (simp add: check_runes_bytes)
  ultimately show ?thesis
    using assms by (simp add: Validate_def check_segments_split)
qed

theorem Validate_reports_first_bad_segment_witness:
  "Validate ''a/../b//c'' = Inl (TraversalSegment ''..'')"
  using Validate_reports_first_bad_segment [of "''a/../b//c''"]
  by (simp add: MaxLength_def allowed_def code_def segments_def)

end
