(* ===== verification/Token_Validator.thy ===== *)
theory Token_Validator
  imports Go_Strings
begin

text \<open>
  internal/auth/validator.go: the identity of a caller and its extraction from a Kubernetes
  TokenReview. The Kubernetes client is outside the repository: \<open>tokenReviewer.Create\<close> is the
  field \<open>v_reviews\<close> of the validator, a function from the deadline and the review spec to the
  API server's answer, and the client-go configuration loaders are arguments of the
  constructor. The lemmas say exactly which usernames parse, and what a returned identity
  tells about the review that produced it.
\<close>

record Identity =
  id_ServiceAccount :: string
  id_ServiceAccountUID :: string
  id_Namespace :: string
  id_Role :: string

text \<open>\<open>is_ErrInvalidToken\<close> is \<open>errors.Is(err, ErrInvalidToken)\<close>.\<close>

datatype jwt_error =
    ErrInvalidToken
  | NotServiceAccount string
  | MalformedUsername
  | TokenReviewFailed string

fun is_ErrInvalidToken :: "jwt_error \<Rightarrow> bool" where
  "is_ErrInvalidToken (TokenReviewFailed _) = False"
| "is_ErrInvalidToken _ = True"

record TokenReviewSpec =
  spec_Token :: string
  spec_Audiences :: "string list"

record TokenReviewStatus =
  st_Authenticated :: bool
  st_Username :: string
  st_UID :: string

type_synonym tokenReviewer = "duration \<Rightarrow> TokenReviewSpec \<Rightarrow> string + TokenReviewStatus"

record K8sTokenValidator =
  v_reviews :: tokenReviewer
  v_audience :: "string list"
  v_timeout :: duration

definition newValidatorWithReviewer ::
  "tokenReviewer \<Rightarrow> string list \<Rightarrow> duration \<Rightarrow> K8sTokenValidator" where
  "newValidatorWithReviewer r audiences timeout =
     (let timeout = (if timeout \<le> 0 then 10 * Second else timeout)
      in \<lparr>v_reviews = r, v_audience = audiences, v_timeout = timeout\<rparr>)"

text \<open>
  \<open>inCluster\<close> is \<open>rest.InClusterConfig\<close> and \<open>deferred\<close> the deferred-loading client config, given
  the explicit path when one is set.
\<close>

definition loadKubeConfig ::
  "(string + 'cfg) \<Rightarrow> (string option \<Rightarrow> string + 'cfg) \<Rightarrow> string \<Rightarrow> string + 'cfg" where
  "loadKubeConfig inCluster deferred kubeconfigPath =
     (case inCluster of
        Inr cfg \<Rightarrow> Inr cfg
      | Inl _ \<Rightarrow>
          (case deferred (if kubeconfigPath \<noteq> '''' then Some kubeconfigPath else None) of
             Inl e \<Rightarrow> Inl (''load kubeconfig (no in-cluster config available): '' @ e)
           | Inr cfg \<Rightarrow> Inr cfg))"

definition NewK8sTokenValidator ::
  "(string + 'cfg) \<Rightarrow> (string option \<Rightarrow> string + 'cfg) \<Rightarrow> ('cfg \<Rightarrow> string + tokenReviewer) \<Rightarrow>
   string \<Rightarrow> string list \<Rightarrow> duration \<Rightarrow> string + K8sTokenValidator" where
  "NewK8sTokenValidator inCluster deferred newForConfig kubeconfigPath audiences timeout =
     (case loadKubeConfig inCluster deferred kubeconfigPath of
        Inl e \<Rightarrow> Inl e
      | Inr cfg \<Rightarrow>
          (case newForConfig cfg of
             Inl e \<Rightarrow> Inl (''build kubernetes client: '' @ e)
           | Inr reviews \<Rightarrow>
               let timeout = (if timeout \<le> 0 then 10 * Second else timeout)
               in Inr \<lparr>v_reviews = reviews, v_audience = audiences, v_timeout = timeout\<rparr>))"

definition sa_prefix :: string where
  "sa_prefix = ''system:serviceaccount:''"

definition parseServiceAccountUsername :: "string \<Rightarrow> jwt_error + string \<times> string" where
  "parseServiceAccountUsername username =
     (if \<not> HasPrefix username sa_prefix then Inl (NotServiceAccount username)
      else
        let rest = TrimPrefix username sa_prefix;
            parts = SplitN2 rest CHR '':''
        in if length parts \<noteq> 2 \<or> parts ! 0 = '''' \<or> parts ! 1 = '''' then Inl MalformedUsername
           else Inr (parts ! 0, parts ! 1))"

definition ValidateK8sJWT :: "K8sTokenValidator \<Rightarrow> string \<Rightarrow> jwt_error + Identity" where
  "ValidateK8sJWT v jwt =
     (if TrimSpace jwt = '''' then Inl ErrInvalidToken
      else
        let review = \<lparr>spec_Token = jwt, spec_Audiences = []\<rparr>;
            review = (if length (v_audience v) > 0
                      then review\<lparr>spec_Audiences := v_audience v\<rparr> else review)
        in case v_reviews v (v_timeout v) review of
             Inl e \<Rightarrow> Inl (TokenReviewFailed e)
           | Inr status \<Rightarrow>
               if \<not> st_Authenticated status then Inl ErrInvalidToken
               else case parseServiceAccountUsername (st_Username status) of
                      Inl e \<Rightarrow> Inl e
                    | Inr (namespace, sa) \<Rightarrow>
                        Inr \<lparr>id_ServiceAccount = sa, id_ServiceAccountUID = st_UID status,
                             id_Namespace = namespace, id_Role = ''''\<rparr>)"

subsection \<open>Parsing\<close>

lemma parse_username_prefix:
  "parseServiceAccountUsername (sa_prefix @ rest) =
     (case SplitN2 rest CHR '':'' of
        [ns, sa] \<Rightarrow> if ns = '''' \<or> sa = '''' then Inl MalformedUsername else Inr (ns, sa)
      | _ \<Rightarrow> Inl MalformedUsername)"
  by (cases rule: SplitN2_cases [of rest "CHR '':''"])
    (auto simp: parseServiceAccountUsername_def Let_def)

lemma parse_username_ok:
  "parseServiceAccountUsername u = Inr (ns, sa) \<longleftrightarrow>
   u = sa_prefix @ ns @ '':'' @ sa \<and> ns \<noteq> '''' \<and> CHR '':'' \<notin> set ns \<and> sa \<noteq> ''''"
proof (cases "HasPrefix u sa_prefix")
  case True
  then obtain rest where u: "u = sa_prefix @ rest"
    by (auto simp: HasPrefix_iff)
  show ?thesis
  proof (cases rule: SplitN2_cases [of rest "CHR '':''"])
    case one
    then show ?thesis by (auto simp: u parse_username_prefix)
  next
    case (two a b)
    then have "rest = ns @ '':'' @ sa \<and> CHR '':'' \<notin> set ns \<longleftrightarrow> a = ns \<and> b = sa"
      by (metis SplitN2_two append_Cons append_Nil list.inject)
    with two(1) show ?thesis by (auto simp: u parse_username_prefix)
  qed
next
  case False
  then show ?thesis by (auto simp: parseServiceAccountUsername_def)
qed

lemma parse_username_errors:
  "parseServiceAccountUsername u = Inl e \<Longrightarrow> is_ErrInvalidToken e"
  by (auto simp: parseServiceAccountUsername_def Let_def split: if_splits)

subsection \<open>What a validated identity means\<close>

definition review_spec :: "K8sTokenValidator \<Rightarrow> string \<Rightarrow> TokenReviewSpec" where
  "review_spec v jwt = \<lparr>spec_Token = jwt, spec_Audiences = v_audience v\<rparr>"

lemma ValidateK8sJWT_ok:
  "ValidateK8sJWT v jwt = Inr i \<longleftrightarrow>
   TrimSpace jwt \<noteq> '''' \<and>
   (\<exists>status. v_reviews v (v_timeout v) (review_spec v jwt) = Inr status \<and> st_Authenticated status \<and>
      parseServiceAccountUsername (st_Username status) = Inr (id_Namespace i, id_ServiceAccount i) \<and>
      id_ServiceAccountUID i = st_UID status \<and> id_Role i = '''')"
  by (cases i)
    (auto simp: ValidateK8sJWT_def Let_def review_spec_def split: sum.splits prod.splits if_splits)

lemma ValidateK8sJWT_namespace:
  "ValidateK8sJWT v jwt = Inr i \<Longrightarrow> CHR '':'' \<notin> set (id_Namespace i)"
  by (auto simp: ValidateK8sJWT_ok parse_username_ok)

text \<open>
  C20. Parsing a service-account username inverts its composition: a username yields a namespace and
  a service account exactly when it is the fixed prefix, the namespace, a colon and the service
  account, with a non-empty namespace that holds no colon and a non-empty account name. Every
  other username, however many colons it has, is an error that counts as an invalid token.
\<close>

theorem username_parse_roundtrip:
  "(parseServiceAccountUsername u = Inr (ns, sa) \<longleftrightarrow>
      u = ''system:serviceaccount:'' @ ns @ '':'' @ sa \<and> ns \<noteq> '''' \<and> CHR '':'' \<notin> set ns \<and> sa \<noteq> '''') \<and>
   (case parseServiceAccountUsername u of Inl e \<Rightarrow> is_ErrInvalidToken e | Inr _ \<Rightarrow> True)"
  using parse_username_ok [of u ns sa] parse_username_errors [of u]
  by (auto simp: sa_prefix_def split: sum.split)

text \<open>
  An identity is returned only for a token the API server authenticated: the validator sent
  exactly the presented token with the configured audiences, the review came back authenticated
  with the username of the returned namespace and service account, and the identity carries that
  review's UID and no role yet. A blank token is rejected before any review is sent.
\<close>

lemma ValidateK8sJWT_authenticated:
  assumes "ValidateK8sJWT v jwt = Inr i"
  shows "TrimSpace jwt \<noteq> '''' \<and> id_Role i = '''' \<and>
    (\<exists>status. v_reviews v (v_timeout v) \<lparr>spec_Token = jwt, spec_Audiences = v_audience v\<rparr> = Inr status \<and>
       st_Authenticated status \<and> id_ServiceAccountUID i = st_UID status \<and>
       st_Username status = ''system:serviceaccount:'' @ id_Namespace i @ '':'' @ id_ServiceAccount i)"
  using assms by (auto simp: ValidateK8sJWT_ok review_spec_def parse_username_ok sa_prefix_def)

lemma ValidateK8sJWT_authenticated_example:
  "let v = newValidatorWithReviewer (\<lambda>_ s. Inr \<lparr>st_Authenticated = spec_Token s = ''jwt'',
             st_Username = ''system:serviceaccount:opus:web'', st_UID = ''u1''\<rparr>) [] 0;
       i = \<lparr>id_ServiceAccount = ''web'', id_ServiceAccountUID = ''u1'', id_Namespace = ''opus'', id_Role = ''''\<rparr>
   in ValidateK8sJWT v ''jwt'' = Inr i \<and> TrimSpace ''jwt'' \<noteq> ''''"
proof -
  let ?v = "newValidatorWithReviewer (\<lambda>_ s. Inr \<lparr>st_Authenticated = spec_Token s = ''jwt'',
             st_Username = ''system:serviceaccount:opus:web'', st_UID = ''u1''\<rparr>) [] 0"
  let ?i = "\<lparr>id_ServiceAccount = ''web'', id_ServiceAccountUID = ''u1'', id_Namespace = ''opus'', id_Role = ''''\<rparr>"
  have "TrimSpace ''jwt'' = ''jwt''"
    by (rule TrimSpace_visible) (simp_all add: code_def IsSpace_def)
  moreover have "parseServiceAccountUsername ''system:serviceaccount:opus:web'' = Inr (''opus'', ''web'')"
    by (simp add: parse_username_ok sa_prefix_def)
  ultimately have "ValidateK8sJWT ?v ''jwt'' = Inr ?i"
    by (simp add: ValidateK8sJWT_ok newValidatorWithReviewer_def review_spec_def)
  from this ValidateK8sJWT_authenticated [OF this] show ?thesis
    by (simp add: Let_def)
qed

end
