(* ===== verification/Rbac.thy ===== *)
theory Rbac
  imports Token_Validator
begin

text \<open>
  internal/auth/rbac.go: the role table, the binding check of a login, the access check of a
  secret read and the glob matcher over path segments. \<open>glob\<close> is the declarative meaning of a
  pattern; the matcher, with its early returns and its special case for a final double star,
  is proved to decide it.
\<close>

record Role =
  AllowedNamespaces :: "string list"
  AllowedServiceAccounts :: "string list"
  AllowedPaths :: "string list"

record RBAC =
  roles :: "string \<rightharpoonup> Role"

definition NewRBAC :: "(string \<rightharpoonup> Role) \<Rightarrow> RBAC" where
  "NewRBAC rs = \<lparr>roles = rs\<rparr>"

definition RBAC_Role :: "RBAC \<Rightarrow> string \<Rightarrow> Role option" where
  "RBAC_Role r name = roles r name"

fun contains :: "string list \<Rightarrow> string \<Rightarrow> bool" where
  "contains [] v = False"
| "contains (item # list) v = (if item = v then True else contains list v)"

fun containsSA :: "string list \<Rightarrow> string \<Rightarrow> bool" where
  "containsSA [] sa = False"
| "containsSA (item # list) sa = (if item = ''*'' \<or> item = sa then True else containsSA list sa)"

text \<open>
  The loop of \<open>matchSegments\<close> consumes one pattern segment per turn. Under a double star that is
  not the last segment it tries every later start of the rest, \<open>i = 1, \<dots>, len(seg)\<close>, and
  returns at the first that matches.
\<close>

fun matchSegments :: "string list \<Rightarrow> string list \<Rightarrow> bool" where
  "matchSegments [] seg = (seg = [])"
| "matchSegments (p # pat) seg =
     (if p = ''**'' then
        if pat = [] then length seg \<ge> 1
        else list_ex (\<lambda>i. matchSegments pat (drop i seg)) [1..<Suc (length seg)]
      else if seg = [] then False
      else if p \<noteq> ''*'' \<and> p \<noteq> hd seg then False
      else matchSegments pat (tl seg))"

definition MatchPath :: "string \<Rightarrow> string \<Rightarrow> bool" where
  "MatchPath pattern path =
     (let pattern = TrimByte pattern CHR ''/'';
          path = TrimByte path CHR ''/''
      in matchSegments (Split pattern CHR ''/'') (Split path CHR ''/''))"

definition CheckBinding :: "RBAC \<Rightarrow> string \<Rightarrow> string \<Rightarrow> string \<Rightarrow> bool" where
  "CheckBinding r role namespace serviceAccount =
     (case roles r role of
        None \<Rightarrow> False
      | Some rl \<Rightarrow>
          if \<not> contains (AllowedNamespaces rl) namespace then False
          else if \<not> containsSA (AllowedServiceAccounts rl) serviceAccount then False
          else True)"

fun any_pattern :: "string list \<Rightarrow> string \<Rightarrow> bool" where
  "any_pattern [] path = False"
| "any_pattern (pattern # pats) path = (if MatchPath pattern path then True else any_pattern pats path)"

text \<open>The identity is a pointer; \<open>None\<close> is nil.\<close>

definition CheckAccess :: "RBAC \<Rightarrow> Identity option \<Rightarrow> string \<Rightarrow> bool" where
  "CheckAccess r identity path =
     (case identity of
        None \<Rightarrow> False
      | Some i \<Rightarrow>
          (case roles r (id_Role i) of
             None \<Rightarrow> False
           | Some rl \<Rightarrow>
               if \<not> contains (AllowedNamespaces rl) (id_Namespace i) then False
               else if \<not> containsSA (AllowedServiceAccounts rl) (id_ServiceAccount i) then False
               else any_pattern (AllowedPaths rl) path))"

subsection \<open>The meaning of a pattern\<close>

inductive glob :: "string list \<Rightarrow> string list \<Rightarrow> bool" where
  finish: "glob [] []"
| many: "us \<noteq> [] \<Longrightarrow> glob pat vs \<Longrightarrow> glob (''**'' # pat) (us @ vs)"
| any_one: "glob pat vs \<Longrightarrow> glob (''*'' # pat) (v # vs)"
| literal: "p \<noteq> ''**'' \<Longrightarrow> p \<noteq> ''*'' \<Longrightarrow> glob pat vs \<Longrightarrow> glob (p # pat) (p # vs)"

inductive_cases glob_NilE: "glob [] seg"

inductive_cases glob_ConsE: "glob (p # pat) seg"

definition literal_pattern :: "string list \<Rightarrow> bool" where
  "literal_pattern pat \<longleftrightarrow> list_all (\<lambda>p. p \<noteq> ''*'' \<and> p \<noteq> ''**'') pat"

lemma glob_Nil: "glob [] seg \<longleftrightarrow> seg = []"
  by (auto elim: glob_NilE intro: glob.finish)

lemma glob_many: "glob (''**'' # pat) seg \<longleftrightarrow> (\<exists>i. 1 \<le> i \<and> i \<le> length seg \<and> glob pat (drop i seg))"
proof
  assume "glob (''**'' # pat) seg"
  then obtain us vs where "seg = us @ vs" "us \<noteq> []" "glob pat vs"
    by (auto elim: glob_ConsE)
  then show "\<exists>i. 1 \<le> i \<and> i \<le> length seg \<and> glob pat (drop i seg)"
    by (intro exI [of _ "length us"]) (auto simp: Suc_le_eq)
next
  assume "\<exists>i. 1 \<le> i \<and> i \<le> length seg \<and> glob pat (drop i seg)"
  then obtain i where "1 \<le> i" "i \<le> length seg" "glob pat (drop i seg)" by blast
  then have "glob (''**'' # pat) (take i seg @ drop i seg)"
    by (intro glob.many) auto
  then show "glob (''**'' # pat) seg" by simp
qed

lemma glob_one:
  "p \<noteq> ''**'' \<Longrightarrow>
   glob (p # pat) seg \<longleftrightarrow> seg \<noteq> [] \<and> (p = ''*'' \<or> p = hd seg) \<and> glob pat (tl seg)"
  by (cases seg) (auto elim: glob_ConsE intro: glob.any_one glob.literal)

lemma matchSegments_glob: "matchSegments pat seg \<longleftrightarrow> glob pat seg"
proof (induction pat arbitrary: seg)
  case Nil
  then show ?case by (simp add: glob_Nil)
next
  case (Cons p pat)
  show ?case
  proof (cases "p = ''**''")
    case True
    have "length seg \<ge> 1 \<longleftrightarrow> (\<exists>i. 1 \<le> i \<and> i \<le> length seg \<and> glob [] (drop i seg))"
      by (auto simp: glob_Nil)
    then have "matchSegments [''**''] seg \<longleftrightarrow> glob [''**''] seg"
      by (simp add: glob_many)
    moreover have "matchSegments (''**'' # pat) seg \<longleftrightarrow> glob (''**'' # pat) seg" if "pat \<noteq> []"
      using that Cons by (auto simp: glob_many list_ex_iff less_Suc_eq_le)
    ultimately show ?thesis using True by (cases "pat = []") auto
  next
    case False
    with Cons show ?thesis by (auto simp: glob_one)
  qed
qed

lemma glob_literal: "literal_pattern pat \<Longrightarrow> glob pat seg \<longleftrightarrow> seg = pat"
proof (induction pat arbitrary: seg)
  case Nil
  then show ?case by (simp add: glob_Nil)
next
  case (Cons p pat)
  then show ?case
    by (cases seg) (auto simp: literal_pattern_def glob_one)
qed

lemma glob_nonempty: "glob pat seg \<Longrightarrow> length pat \<le> length seg"
  by (induction rule: glob.induct) (auto simp: Suc_le_eq length_greater_0_conv [symmetric]
      simp del: length_greater_0_conv)

lemma glob_append: "glob pat seg \<Longrightarrow> glob pat' seg' \<Longrightarrow> glob (pat @ pat') (seg @ seg')"
proof (induction rule: glob.induct)
  case (many us pat vs)
  then show ?case using glob.many [of us "pat @ pat'" "vs @ seg'"] by simp
qed (auto intro: glob.intros)

lemma glob_refl_literal: "literal_pattern pat \<Longrightarrow> glob pat pat"
  by (simp add: glob_literal)

subsection \<open>The checks\<close>

lemma contains_iff: "contains list v \<longleftrightarrow> v \<in> set list"
  by (induction list) auto

lemma containsSA_iff: "containsSA list sa \<longleftrightarrow> ''*'' \<in> set list \<or> sa \<in> set list"
  by (induction list) auto

lemma any_pattern_iff: "any_pattern pats path \<longleftrightarrow> list_ex (\<lambda>pattern. MatchPath pattern path) pats"
  by (induction pats) auto

lemma CheckBinding_iff:
  "CheckBinding r role ns sa \<longleftrightarrow>
   (\<exists>rl. roles r role = Some rl \<and> ns \<in> set (AllowedNamespaces rl) \<and>
      (''*'' \<in> set (AllowedServiceAccounts rl) \<or> sa \<in> set (AllowedServiceAccounts rl)))"
  by (auto simp: CheckBinding_def contains_iff containsSA_iff split: option.splits)

lemma CheckAccess_binding:
  "CheckAccess r (Some i) path \<longleftrightarrow>
   CheckBinding r (id_Role i) (id_Namespace i) (id_ServiceAccount i) \<and>
   any_pattern (AllowedPaths (the (roles r (id_Role i)))) path"
  by (auto simp: CheckAccess_def CheckBinding_def split: option.splits)

lemma MatchPath_glob:
  "MatchPath pattern path \<longleftrightarrow>
   glob (Split (TrimByte pattern CHR ''/'') CHR ''/'') (Split (TrimByte path CHR ''/'') CHR ''/'')"
  by (simp add: MatchPath_def matchSegments_glob)

text \<open>
  C21. The matcher decides the declarative meaning of patterns: a star consumes one segment, a double
  star one or more segments anywhere in the pattern, any other segment itself. The special case
  for a final double star and the search over suffixes change nothing.
\<close>

theorem matchSegments_iff_glob: "matchSegments pat seg \<longleftrightarrow> glob pat seg"
  by (rule matchSegments_glob)

text \<open>
  A pattern without wildcard segments grants exactly one path, up to slashes at either end: it
  matches a path if and only if both are the same after trimming.
\<close>

theorem MatchPath_literal:
  assumes "literal_pattern (Split (TrimByte pattern CHR ''/'') CHR ''/'')"
  shows "MatchPath pattern path \<longleftrightarrow> TrimByte path CHR ''/'' = TrimByte pattern CHR ''/''"
  using assms Split_inj by (auto simp: MatchPath_glob glob_literal)

theorem MatchPath_literal_witness:
  "MatchPath ''/opus/web'' ''opus/web/'' \<and> \<not> MatchPath ''/opus/web'' ''opus/db''"
proof -
  have trim: "TrimByte ''/opus/web'' CHR ''/'' = ''opus/web''" "TrimByte ''opus/web/'' CHR ''/'' = ''opus/web''"
    "TrimByte ''opus/db'' CHR ''/'' = ''opus/db''" "TrimByte ''opus/web'' CHR ''/'' = ''opus/web''"
    by (simp_all add: TrimByte_def TrimLeftByte_def TrimRightByte_def)
  have lit: "literal_pattern (Split (TrimByte ''/opus/web'' CHR ''/'') CHR ''/'')"
    by (simp add: trim literal_pattern_def)
  show ?thesis using MatchPath_literal [OF lit] by (simp add: trim)
qed

text \<open>
  Access needs the role binding and a matching pattern, and nothing else decides it: a read is
  permitted exactly when the identity's role exists, its namespace is listed literally, its service
  account is listed or the account wildcard is, and one of the role's patterns matches the path.
\<close>

lemma CheckAccess_iff:
  "CheckAccess r (Some i) path \<longleftrightarrow>
   (\<exists>rl. roles r (id_Role i) = Some rl \<and>
      id_Namespace i \<in> set (AllowedNamespaces rl) \<and>
      (''*'' \<in> set (AllowedServiceAccounts rl) \<or> id_ServiceAccount i \<in> set (AllowedServiceAccounts rl)) \<and>
      (\<exists>pattern \<in> set (AllowedPaths rl). MatchPath pattern path))"
  by (auto simp: CheckAccess_binding CheckBinding_iff any_pattern_iff list_ex_iff)

text \<open>
  The namespace list has no wildcard: a role whose only allowed namespace is the star binds no
  identity outside a namespace literally named star, whatever its service accounts, although the
  same entry in the service-account list admits every account.
\<close>

theorem namespace_star_is_literal:
  assumes "roles r role = Some rl" and "AllowedNamespaces rl = [''*'']"
    and "AllowedServiceAccounts rl = [''*'']"
  shows "CheckBinding r role ns sa \<longleftrightarrow> ns = ''*''"
  using assms by (auto simp: CheckBinding_iff)

theorem namespace_star_is_literal_witness:
  "\<not> CheckBinding (NewRBAC [''app'' \<mapsto> \<lparr>AllowedNamespaces = [''*''], AllowedServiceAccounts = [''*''],
       AllowedPaths = [''**'']\<rparr>]) ''app'' ''opus'' ''web''"
  using namespace_star_is_literal
    [of "NewRBAC [''app'' \<mapsto> \<lparr>AllowedNamespaces = [''*''], AllowedServiceAccounts = [''*''],
       AllowedPaths = [''**'']\<rparr>]" "''app''" _ "''opus''" "''web''"]
  by (simp add: NewRBAC_def)

end
