(* ===== verification/Token_Store.thy ===== *)
theory Token_Store
  imports Rbac
begin

text \<open>
  internal/auth/token_store.go: the in-memory store of issued client tokens. The state is the
  store's two maps and its quota; the clock reading, the random bytes and the order in which a
  sweep visits the map are arguments, because the code takes them from outside. Every method
  holds the store's lock for its whole body, so a method is one atomic step and any concurrent
  use is a sequence of such steps (\<open>run_ops\<close>).

  The locale \<open>token_service\<close> is what the login and the read handler rely on; the store
  interprets it, and the handlers' theorems use the store through the interpretation's facts.
\<close>

record tokenEntry =
  te_token :: string
  te_accessor :: string
  te_identity :: Identity
  te_createdAt :: time
  te_expiresAt :: time

record TokenStore =
  maxTokensPerIdentity :: int
  byToken :: "string \<rightharpoonup> tokenEntry"
  identityCnt :: "string \<rightharpoonup> int"

datatype issue_error = ErrTooManyTokens | ErrRandom

definition NewTokenStore :: "int \<Rightarrow> TokenStore" where
  "NewTokenStore m = \<lparr>maxTokensPerIdentity = m, byToken = Map.empty, identityCnt = Map.empty\<rparr>"

definition identityKey :: "Identity \<Rightarrow> string" where
  "identityKey i = id_Namespace i @ '':'' @ id_ServiceAccount i"

text \<open>\<open>rnd\<close> is what \<open>rand.Read\<close> put into the buffer, \<open>None\<close> its error.\<close>

definition randomHex :: "byte list option \<Rightarrow> string option" where
  "randomHex rnd = map_option EncodeToString rnd"

text \<open>Reading an absent key of the counter map gives 0.\<close>

definition active_count :: "TokenStore \<Rightarrow> string \<Rightarrow> int" where
  "active_count s key = (case identityCnt s key of None \<Rightarrow> 0 | Some n \<Rightarrow> n)"

definition IssueToken ::
  "byte list option \<Rightarrow> byte list option \<Rightarrow> time \<Rightarrow> Identity \<Rightarrow> duration \<Rightarrow> TokenStore \<Rightarrow>
   (issue_error + string \<times> string) \<times> TokenStore" where
  "IssueToken rnd1 rnd2 now i ttl s =
     (case randomHex rnd1 of
        None \<Rightarrow> (Inl ErrRandom, s)
      | Some tok \<Rightarrow>
          (case randomHex rnd2 of
             None \<Rightarrow> (Inl ErrRandom, s)
           | Some acc \<Rightarrow>
               let key = identityKey i in
               if maxTokensPerIdentity s > 0 \<and> active_count s key \<ge> maxTokensPerIdentity s
               then (Inl ErrTooManyTokens, s)
               else (Inr (tok, acc),
                     s\<lparr>byToken := (byToken s)(tok \<mapsto>
                          \<lparr>te_token = tok, te_accessor = acc, te_identity = i,
                           te_createdAt = now, te_expiresAt = now + ttl\<rparr>),
                       identityCnt := (identityCnt s)(key \<mapsto> active_count s key + 1)\<rparr>)))"

text \<open>\<open>subtle.ConstantTimeCompare\<close> returns 1 on equal contents.\<close>

definition ConstantTimeCompare :: "string \<Rightarrow> string \<Rightarrow> int" where
  "ConstantTimeCompare x y = (if x = y then 1 else 0)"

definition lookupConstantTime :: "string \<Rightarrow> TokenStore \<Rightarrow> tokenEntry option" where
  "lookupConstantTime tok s =
     (case byToken s tok of
        Some e \<Rightarrow> if ConstantTimeCompare (te_token e) tok = 1 then Some e else None
      | None \<Rightarrow> None)"

text \<open>\<open>None\<close> is \<open>ErrTokenNotFound\<close>; \<open>now.After(exp)\<close> is \<open>exp < now\<close>.\<close>

definition VerifyToken :: "time \<Rightarrow> string \<Rightarrow> TokenStore \<Rightarrow> Identity option" where
  "VerifyToken now tok s =
     (case lookupConstantTime tok s of
        None \<Rightarrow> None
      | Some e \<Rightarrow> if te_expiresAt e < now then None else Some (te_identity e))"

definition deleteLocked :: "tokenEntry \<Rightarrow> TokenStore \<Rightarrow> TokenStore" where
  "deleteLocked e s =
     (let s = s\<lparr>byToken := (byToken s)(te_token e := None)\<rparr>;
          key = identityKey (te_identity e)
      in if active_count s key \<le> 1 then s\<lparr>identityCnt := (identityCnt s)(key := None)\<rparr>
         else s\<lparr>identityCnt := (identityCnt s)(key \<mapsto> active_count s key - 1)\<rparr>)"

definition RevokeToken :: "string \<Rightarrow> TokenStore \<Rightarrow> TokenStore" where
  "RevokeToken tok s = (case byToken s tok of Some e \<Rightarrow> deleteLocked e s | None \<Rightarrow> s)"

text \<open>The body of the sweep, over the keys in the order the \<open>range\<close> statement visits them.\<close>

fun cleanup_loop :: "time \<Rightarrow> string list \<Rightarrow> nat \<times> TokenStore \<Rightarrow> nat \<times> TokenStore" where
  "cleanup_loop now [] st = st"
| "cleanup_loop now (k # ks) (removed, s) =
     (case byToken s k of
        None \<Rightarrow> cleanup_loop now ks (removed, s)
      | Some e \<Rightarrow>
          if te_expiresAt e < now then cleanup_loop now ks (Suc removed, deleteLocked e s)
          else cleanup_loop now ks (removed, s))"

definition CleanupExpired :: "string list \<Rightarrow> time \<Rightarrow> TokenStore \<Rightarrow> nat \<times> TokenStore" where
  "CleanupExpired order now s = cleanup_loop now order (0, s)"

definition TokenCount :: "TokenStore \<Rightarrow> nat" where
  "TokenCount s = msize (byToken s)"

subsection \<open>Sequences of operations\<close>

datatype store_op =
    Issue "byte list option" "byte list option" time Identity duration
  | Revoke string
  | Cleanup "string list" time

fun apply_op :: "TokenStore \<Rightarrow> store_op \<Rightarrow> TokenStore" where
  "apply_op s (Issue rnd1 rnd2 now i ttl) = snd (IssueToken rnd1 rnd2 now i ttl s)"
| "apply_op s (Revoke tok) = RevokeToken tok s"
| "apply_op s (Cleanup order now) = snd (CleanupExpired order now s)"

definition run_ops :: "store_op list \<Rightarrow> TokenStore \<Rightarrow> TokenStore" where
  "run_ops ops s = foldl apply_op s ops"

subsection \<open>The interface the handlers use\<close>

locale token_service =
  fixes ok :: "'s \<Rightarrow> bool"
    and view :: "'s \<Rightarrow> string \<rightharpoonup> Identity \<times> time"
    and issue :: "byte list option \<Rightarrow> byte list option \<Rightarrow> time \<Rightarrow> Identity \<Rightarrow> duration \<Rightarrow> 's \<Rightarrow>
      (issue_error + string \<times> string) \<times> 's"
    and verify :: "time \<Rightarrow> string \<Rightarrow> 's \<Rightarrow> Identity option"
    and revoke :: "string \<Rightarrow> 's \<Rightarrow> 's"
    and sweep :: "string list \<Rightarrow> time \<Rightarrow> 's \<Rightarrow> 's"
  assumes issue_ok: "ok s \<Longrightarrow> ok (snd (issue rnd1 rnd2 now i ttl s))"
    and revoke_ok: "ok s \<Longrightarrow> ok (revoke tok s)"
    and sweep_ok: "ok s \<Longrightarrow> ok (sweep order now s)"
    and issue_view: "ok s \<Longrightarrow> issue rnd1 rnd2 now i ttl s = (Inr (tok, acc), s') \<Longrightarrow>
      randomHex rnd1 = Some tok \<and> view s' = (view s)(tok \<mapsto> (i, now + ttl))"
    and issue_refused: "ok s \<Longrightarrow> issue rnd1 rnd2 now i ttl s = (Inl e, s') \<Longrightarrow> s' = s"
    and verify_view: "ok s \<Longrightarrow> verify now tok s =
      (case view s tok of None \<Rightarrow> None | Some (i, exp) \<Rightarrow> if exp < now then None else Some i)"
    and revoke_view: "ok s \<Longrightarrow> view (revoke tok s) = (view s)(tok := None)"
    and sweep_view: "ok s \<Longrightarrow> view (sweep order now s) tok = view s tok \<or>
      view (sweep order now s) tok = None \<and> (\<exists>i exp. view s tok = Some (i, exp) \<and> exp < now)"
begin

lemma issued_token_verifies:
  assumes "ok s" and "issue rnd1 rnd2 now i ttl s = (Inr (tok, acc), s')"
  shows "verify later tok s' = (if later \<le> now + ttl then Some i else None)"
proof -
  from assms issue_ok [OF assms(1), of rnd1 rnd2 now i ttl] have "ok s'" by simp
  with issue_view [OF assms] show ?thesis by (auto simp: verify_view)
qed

lemma issue_keeps_others:
  assumes "ok s" and "issue rnd1 rnd2 now i ttl s = (Inr (tok, acc), s')" and "t \<noteq> tok"
  shows "verify later t s' = verify later t s"
proof -
  from assms issue_ok [OF assms(1), of rnd1 rnd2 now i ttl] have "ok s'" by simp
  with issue_view [OF assms(1,2)] assms(1,3) show ?thesis by (simp add: verify_view)
qed

lemma revoked_token_fails: "ok s \<Longrightarrow> verify now tok (revoke tok s) = None"
  by (simp add: verify_view revoke_ok revoke_view)

lemma revoke_keeps_others: "ok s \<Longrightarrow> t \<noteq> tok \<Longrightarrow> verify now t (revoke tok s) = verify now t s"
  by (simp add: verify_view revoke_ok revoke_view)

lemma verify_antimono: "ok s \<Longrightarrow> earlier \<le> now \<Longrightarrow> verify now tok s = Some i \<Longrightarrow> verify earlier tok s = Some i"
  by (auto simp: verify_view split: option.splits prod.splits if_splits)

text \<open>From the time of a sweep on, nobody can tell that it ran.\<close>

lemma sweep_unobservable: "ok s \<Longrightarrow> now \<le> later \<Longrightarrow> verify later tok (sweep order now s) = verify later tok s"
  using sweep_view [of s order now tok]
  by (auto simp: verify_view sweep_ok)

lemma sweep_only_removes: "ok s \<Longrightarrow> verify t tok (sweep order now s) = Some i \<Longrightarrow> verify t tok s = Some i"
  using sweep_view [of s order now tok] by (auto simp: verify_view sweep_ok)

end

subsection \<open>The invariant of the store\<close>

definition holders :: "(string \<rightharpoonup> tokenEntry) \<Rightarrow> string \<Rightarrow> string set" where
  "holders m key = {t. \<exists>e. m t = Some e \<and> identityKey (te_identity e) = key}"

definition tokens_keyed :: "TokenStore \<Rightarrow> bool" where
  "tokens_keyed s \<longleftrightarrow> finite (dom (byToken s)) \<and> (\<forall>t e. byToken s t = Some e \<longrightarrow> te_token e = t)"

definition counts_cover :: "TokenStore \<Rightarrow> bool" where
  "counts_cover s \<longleftrightarrow> (\<forall>key. int (card (holders (byToken s) key)) \<le> active_count s key)"

definition counts_bounded :: "TokenStore \<Rightarrow> bool" where
  "counts_bounded s \<longleftrightarrow>
     (\<forall>key n. identityCnt s key = Some n \<longrightarrow> 1 \<le> n \<and>
        (0 < maxTokensPerIdentity s \<longrightarrow> n \<le> maxTokensPerIdentity s))"

definition store_inv :: "TokenStore \<Rightarrow> bool" where
  "store_inv s \<longleftrightarrow> tokens_keyed s \<and> counts_cover s \<and> counts_bounded s"

text \<open>The counters are exact when no issued token ever collided with a stored one.\<close>

definition counts_exact :: "TokenStore \<Rightarrow> bool" where
  "counts_exact s \<longleftrightarrow>
     identityCnt s = (\<lambda>key. if holders (byToken s) key = {} then None
                            else Some (int (card (holders (byToken s) key))))"

definition store_view :: "TokenStore \<Rightarrow> string \<rightharpoonup> Identity \<times> time" where
  "store_view s tok = map_option (\<lambda>e. (te_identity e, te_expiresAt e)) (byToken s tok)"

lemma holders_upd:
  "holders (m(t \<mapsto> e)) key =
   (if identityKey (te_identity e) = key then insert t (holders m key) else holders m key - {t})"
  by (auto simp: holders_def)

lemma holders_del: "holders (m(t := None)) key = holders m key - {t}"
  by (auto simp: holders_def)

lemma finite_holders: "finite (dom m) \<Longrightarrow> finite (holders m key)"
  by (rule finite_subset [of _ "dom m"]) (auto simp: holders_def)

lemma holders_member: "m t = Some e \<Longrightarrow> t \<in> holders m (identityKey (te_identity e))"
  by (auto simp: holders_def)

lemma active_count_nonneg: "counts_bounded s \<Longrightarrow> 0 \<le> active_count s key"
  by (force simp: counts_bounded_def active_count_def split: option.splits)

lemma IssueToken_ok:
  "IssueToken rnd1 rnd2 now i ttl s = (Inr (tok, acc), s') \<longleftrightarrow>
   randomHex rnd1 = Some tok \<and> randomHex rnd2 = Some acc \<and>
   \<not> (maxTokensPerIdentity s > 0 \<and> active_count s (identityKey i) \<ge> maxTokensPerIdentity s) \<and>
   s' = s\<lparr>byToken := (byToken s)(tok \<mapsto> \<lparr>te_token = tok, te_accessor = acc, te_identity = i,
                           te_createdAt = now, te_expiresAt = now + ttl\<rparr>),
          identityCnt := (identityCnt s)(identityKey i \<mapsto> active_count s (identityKey i) + 1)\<rparr>"
  by (auto simp: IssueToken_def Let_def split: option.splits)

lemma IssueToken_refused: "IssueToken rnd1 rnd2 now i ttl s = (Inl e, s') \<Longrightarrow> s' = s"
  by (auto simp: IssueToken_def Let_def split: option.splits if_splits)

lemma IssueToken_cases:
  obtains (refused) e where "IssueToken rnd1 rnd2 now i ttl s = (Inl e, s)"
  | (issued) tok acc s' where "IssueToken rnd1 rnd2 now i ttl s = (Inr (tok, acc), s')"
  by (cases "IssueToken rnd1 rnd2 now i ttl s"; cases "fst (IssueToken rnd1 rnd2 now i ttl s)")
    (auto dest: IssueToken_refused)

lemma byToken_deleteLocked [simp]: "byToken (deleteLocked e s) = (byToken s)(te_token e := None)"
  by (simp add: deleteLocked_def Let_def)

lemma max_deleteLocked [simp]: "maxTokensPerIdentity (deleteLocked e s) = maxTokensPerIdentity s"
  by (simp add: deleteLocked_def Let_def)

lemma identityCnt_deleteLocked:
  "identityCnt (deleteLocked e s) =
   (let key = identityKey (te_identity e) in
    if active_count s key \<le> 1 then (identityCnt s)(key := None)
    else (identityCnt s)(key \<mapsto> active_count s key - 1))"
  by (simp add: deleteLocked_def Let_def active_count_def)

lemma active_count_deleteLocked:
  "counts_bounded s \<Longrightarrow>
   active_count (deleteLocked e s) key =
   (if key = identityKey (te_identity e) then max 0 (active_count s key - 1) else active_count s key)"
  using active_count_nonneg [of s "identityKey (te_identity e)"]
  by (auto simp: active_count_def identityCnt_deleteLocked Let_def split: option.splits)

subsection \<open>Preservation\<close>

lemma store_inv_new [inv_intros]: "store_inv (NewTokenStore m)"
  by (simp add: store_inv_def tokens_keyed_def counts_cover_def counts_bounded_def NewTokenStore_def
      holders_def active_count_def)

lemma store_inv_issued:
  assumes "store_inv s" and "IssueToken rnd1 rnd2 now i ttl s = (Inr (tok, acc), s')"
  shows "store_inv s'"
proof -
  let ?key = "identityKey i"
  from assms(2) have s': "s' = s\<lparr>byToken := (byToken s)(tok \<mapsto> \<lparr>te_token = tok, te_accessor = acc,
        te_identity = i, te_createdAt = now, te_expiresAt = now + ttl\<rparr>),
      identityCnt := (identityCnt s)(?key \<mapsto> active_count s ?key + 1)\<rparr>"
    and room: "\<not> (maxTokensPerIdentity s > 0 \<and> active_count s ?key \<ge> maxTokensPerIdentity s)"
    by (simp_all add: IssueToken_ok)
  have fin: "finite (holders (byToken s) key)" for key
    using assms(1) by (auto simp: store_inv_def tokens_keyed_def intro: finite_holders)
  have nonneg: "0 \<le> active_count s ?key"
    using assms(1) by (simp add: store_inv_def active_count_nonneg)
  have "int (card (holders (byToken s') key)) \<le> active_count s' key" for key
  proof -
    have "int (card (holders (byToken s) key)) \<le> active_count s key"
      using assms(1) by (simp add: store_inv_def counts_cover_def)
    moreover have "card (insert tok (holders (byToken s) key)) \<le> Suc (card (holders (byToken s) key))"
      using fin by (simp add: card_insert_if)
    moreover have "card (holders (byToken s) key - {tok}) \<le> card (holders (byToken s) key)"
      using fin by (simp add: card_Diff1_le)
    moreover have "holders (byToken s') key =
        (if ?key = key then insert tok (holders (byToken s) key) else holders (byToken s) key - {tok})"
      and "active_count s' key = (if ?key = key then active_count s key + 1 else active_count s key)"
      by (simp_all add: s' holders_upd active_count_def)
    ultimately show ?thesis by (cases "?key = key") simp_all
  qed
  then show ?thesis
    using assms(1) room nonneg
    by (auto simp: s' store_inv_def tokens_keyed_def counts_cover_def counts_bounded_def)
qed

lemma store_inv_IssueToken [inv_intros]:
  "store_inv s \<Longrightarrow> store_inv (snd (IssueToken rnd1 rnd2 now i ttl s))"
  by (cases rule: IssueToken_cases [of rnd1 rnd2 now i ttl s]) (auto intro: store_inv_issued)

lemma store_inv_deleteLocked [inv_intros]:
  assumes "store_inv s" and "byToken s tok = Some e"
  shows "store_inv (deleteLocked e s)"
proof -
  have tok: "te_token e = tok" and fin: "finite (dom (byToken s))" and cb: "counts_bounded s"
    using assms by (auto simp: store_inv_def tokens_keyed_def)
  have cover: "int (card (holders (byToken s) key)) \<le> active_count s key" for key
    using assms(1) by (simp add: store_inv_def counts_cover_def)
  have mem: "tok \<in> holders (byToken s) (identityKey (te_identity e))"
    using assms(2) by (rule holders_member)
  have "int (card (holders (byToken s) key - {tok})) \<le> active_count (deleteLocked e s) key" for key
    using cover [of key] mem finite_holders [OF fin, of key] card_Diff1_le [of "holders (byToken s) key" tok]
    by (auto simp: active_count_deleteLocked [OF cb])
  then have "counts_cover (deleteLocked e s)"
    using tok by (simp add: counts_cover_def holders_del)
  moreover have bound: "active_count s key \<le> maxTokensPerIdentity s"
    if "0 < maxTokensPerIdentity s" for key
    using cb that by (auto simp: counts_bounded_def active_count_def split: option.split)
  have "1 \<le> n \<and> (0 < maxTokensPerIdentity s \<longrightarrow> n \<le> maxTokensPerIdentity s)"
    if "identityCnt (deleteLocked e s) key = Some n" for key n
    using that cb bound [of key]
    by (auto simp: counts_bounded_def identityCnt_deleteLocked Let_def split: if_splits)
  then have "counts_bounded (deleteLocked e s)"
    by (simp add: counts_bounded_def)
  moreover have "tokens_keyed (deleteLocked e s)"
    using assms(1) by (auto simp: store_inv_def tokens_keyed_def)
  ultimately show ?thesis by (simp add: store_inv_def)
qed

lemma store_inv_RevokeToken [inv_intros]: "store_inv s \<Longrightarrow> store_inv (RevokeToken tok s)"
  by (auto simp: RevokeToken_def intro: store_inv_deleteLocked split: option.split)

lemma store_inv_cleanup_loop:
  "store_inv s \<Longrightarrow> store_inv (snd (cleanup_loop now ks (n, s)))"
  by (induction ks arbitrary: n s) (auto intro: store_inv_deleteLocked split: option.split)

lemma store_inv_CleanupExpired [inv_intros]: "store_inv s \<Longrightarrow> store_inv (snd (CleanupExpired order now s))"
  unfolding CleanupExpired_def by (rule store_inv_cleanup_loop)

lemma store_inv_run: "store_inv s \<Longrightarrow> store_inv (run_ops ops s)"
proof (induction ops arbitrary: s)
  case (Cons op ops)
  then show ?case
    by (cases op) (auto simp: run_ops_def intro: inv_intros)
qed (simp add: run_ops_def)

lemma max_IssueToken [simp]:
  "maxTokensPerIdentity (snd (IssueToken rnd1 rnd2 now i ttl s)) = maxTokensPerIdentity s"
  by (simp add: IssueToken_def Let_def split: option.split)

lemma max_apply_op [simp]: "maxTokensPerIdentity (apply_op s op) = maxTokensPerIdentity s"
proof (cases op)
  case (Cleanup order now)
  have "maxTokensPerIdentity (snd (cleanup_loop now order (n, s))) = maxTokensPerIdentity s" for n s
    by (induction order arbitrary: n s) (auto split: option.split)
  with Cleanup show ?thesis by (simp add: CleanupExpired_def)
qed (auto simp: RevokeToken_def split: option.split)

lemma max_run_ops [simp]: "maxTokensPerIdentity (run_ops ops s) = maxTokensPerIdentity s"
  by (induction ops arbitrary: s) (auto simp: run_ops_def)

subsection \<open>The store provides the interface\<close>

lemma lookup_store: "tokens_keyed s \<Longrightarrow> lookupConstantTime tok s = byToken s tok"
  by (auto simp: lookupConstantTime_def ConstantTimeCompare_def tokens_keyed_def split: option.split)

lemma VerifyToken_view:
  "store_inv s \<Longrightarrow> VerifyToken now tok s =
   (case store_view s tok of None \<Rightarrow> None | Some (i, exp) \<Rightarrow> if exp < now then None else Some i)"
  by (auto simp: VerifyToken_def store_view_def lookup_store store_inv_def split: option.split)

lemma store_view_RevokeToken: "store_inv s \<Longrightarrow> store_view (RevokeToken tok s) = (store_view s)(tok := None)"
  by (rule ext)
    (auto simp: store_view_def RevokeToken_def store_inv_def tokens_keyed_def split: option.split)

text \<open>The sweep removes the expired entries among the visited keys and keeps every other entry.\<close>

lemma byToken_cleanup_loop:
  "store_inv s \<Longrightarrow> byToken (snd (cleanup_loop now ks (n, s))) t =
   (case byToken s t of
      Some e \<Rightarrow> if t \<in> set ks \<and> te_expiresAt e < now then None else Some e
    | None \<Rightarrow> None)"
proof (induction ks arbitrary: n s)
  case Nil
  then show ?case by (simp split: option.split)
next
  case (Cons k ks)
  show ?case
  proof (cases "byToken s k")
    case None
    with Cons show ?thesis by (auto split: option.split)
  next
    case (Some e)
    then have "te_token e = k" and "store_inv (deleteLocked e s)"
      using Cons.prems store_inv_deleteLocked [OF Cons.prems Some]
      by (auto simp: store_inv_def tokens_keyed_def)
    with Some Cons show ?thesis by (auto split: option.split)
  qed
qed

lemma CleanupExpired_view:
  assumes "store_inv s"
  shows "store_view (snd (CleanupExpired order now s)) tok = store_view s tok \<or>
    store_view (snd (CleanupExpired order now s)) tok = None \<and>
      (\<exists>i exp. store_view s tok = Some (i, exp) \<and> exp < now)"
  using assms
  by (auto simp: CleanupExpired_def store_view_def byToken_cleanup_loop split: option.split)

interpretation tokens: token_service store_inv store_view IssueToken VerifyToken RevokeToken
  "\<lambda>order now s. snd (CleanupExpired order now s)"
proof unfold_locales
  fix s rnd1 rnd2 now i ttl tok acc s'
  assume "IssueToken rnd1 rnd2 now i ttl s = (Inr (tok, acc), s')"
  then show "randomHex rnd1 = Some tok \<and> store_view s' = (store_view s)(tok \<mapsto> (i, now + ttl))"
    by (auto simp: IssueToken_ok store_view_def)
qed (auto intro: inv_intros dest: IssueToken_refused
    simp: VerifyToken_view store_view_RevokeToken CleanupExpired_view)

subsection \<open>History\<close>

lemma run_ops_snoc: "run_ops (ops @ [op]) s = apply_op (run_ops ops s) op"
  by (simp add: run_ops_def)

definition issued_in :: "store_op list \<Rightarrow> string \<Rightarrow> Identity \<Rightarrow> time \<Rightarrow> bool" where
  "issued_in ops tok i now \<longleftrightarrow>
     (\<exists>pre rnd1 rnd2 t0 ttl post. ops = pre @ Issue rnd1 rnd2 t0 i ttl # post \<and>
        randomHex rnd1 = Some tok \<and> now \<le> t0 + ttl \<and> Revoke tok \<notin> set post)"

lemma issued_in_last:
  "randomHex rnd1 = Some tok \<Longrightarrow> now \<le> t0 + ttl \<Longrightarrow> issued_in (ops @ [Issue rnd1 rnd2 t0 i ttl]) tok i now"
  unfolding issued_in_def
  by (rule exI [of _ ops], rule exI [of _ rnd1], rule exI [of _ rnd2], rule exI [of _ t0],
      rule exI [of _ ttl], rule exI [of _ "[]"]) simp

lemma issued_in_snoc: "issued_in ops tok i now \<Longrightarrow> op \<noteq> Revoke tok \<Longrightarrow> issued_in (ops @ [op]) tok i now"
  unfolding issued_in_def by (metis append.assoc append_Cons in_set_conv_decomp_last rotate1.simps(2) set_ConsD set_rotate1)

lemma verified_was_issued:
  "VerifyToken now tok (run_ops ops (NewTokenStore m)) = Some i \<Longrightarrow> issued_in ops tok i now"
proof (induction ops rule: rev_induct)
  case Nil
  then show ?case
    by (simp add: run_ops_def NewTokenStore_def VerifyToken_def lookupConstantTime_def)
next
  case (snoc op ops)
  let ?s = "run_ops ops (NewTokenStore m)"
  have inv: "store_inv ?s" by (intro store_inv_run inv_intros)
  have ver: "VerifyToken now tok (apply_op ?s op) = Some i"
    using snoc.prems by (simp add: run_ops_snoc)
  show ?case
  proof (cases op)
    case (Issue rnd1 rnd2 t0 j ttl)
    show ?thesis
    proof (cases rule: IssueToken_cases [of rnd1 rnd2 t0 j ttl ?s])
      case (refused e)
      with Issue ver snoc.IH show ?thesis by (simp add: issued_in_snoc)
    next
      case (issued t acc s')
      with tokens.issue_view [OF inv issued] Issue ver
      show ?thesis
        using tokens.issued_token_verifies [OF inv issued, of now]
          tokens.issue_keeps_others [OF inv issued, of tok now] snoc.IH
        by (cases "tok = t") (auto simp: issued_in_snoc issued_in_last split: if_splits)
    qed
  next
    case (Revoke t)
    with ver inv have "t \<noteq> tok" by (auto simp: tokens.revoked_token_fails)
    with Revoke ver inv snoc.IH show ?thesis
      by (auto simp: tokens.revoke_keeps_others issued_in_snoc)
  next
    case (Cleanup order t)
    with ver inv snoc.IH show ?thesis
      by (auto dest: tokens.sweep_only_removes intro: issued_in_snoc)
  qed
qed

subsection \<open>Exact counters and the sweep\<close>

lemma counts_exact_new: "counts_exact (NewTokenStore m)"
  by (simp add: counts_exact_def NewTokenStore_def holders_def)

lemma active_count_exact: "counts_exact s \<Longrightarrow> active_count s key = int (card (holders (byToken s) key))"
  by (simp add: active_count_def counts_exact_def)

lemma counts_exact_issued:
  assumes "store_inv s" and "counts_exact s" and "byToken s tok = None"
    and "IssueToken rnd1 rnd2 now i ttl s = (Inr (tok, acc), s')"
  shows "counts_exact s'"
proof -
  have "finite (holders (byToken s) key)" for key
    using assms(1) by (auto simp: store_inv_def tokens_keyed_def intro: finite_holders)
  moreover have "tok \<notin> holders (byToken s) key" for key
    using assms(3) by (simp add: holders_def)
  ultimately show ?thesis
    using assms(2,4) active_count_exact [OF assms(2), of "identityKey i"]
    by (auto simp: IssueToken_ok counts_exact_def holders_upd fun_eq_iff)
qed

lemma counts_exact_deleteLocked:
  assumes "store_inv s" and "counts_exact s" and "byToken s tok = Some e"
  shows "counts_exact (deleteLocked e s)"
proof -
  let ?key = "identityKey (te_identity e)"
  have tok: "te_token e = tok" and fin: "finite (holders (byToken s) key)" for key
    using assms(1,3) by (auto simp: store_inv_def tokens_keyed_def intro: finite_holders)
  have mem: "tok \<in> holders (byToken s) ?key" using assms(3) by (rule holders_member)
  have other: "tok \<notin> holders (byToken s) key" if "key \<noteq> ?key" for key
    using assms(3) that by (auto simp: holders_def)
  have one: "holders (byToken s) ?key - {tok} = {} \<longleftrightarrow> card (holders (byToken s) ?key) \<le> 1"
    using mem fin [of ?key] card_Diff_singleton [OF mem] card_gt_0_iff [of "holders (byToken s) ?key"]
    by (metis card_0_eq diff_is_0_eq finite_Diff)
  have "identityCnt (deleteLocked e s) key =
      (if holders (byToken s) key - {tok} = {} then None
       else Some (int (card (holders (byToken s) key - {tok}))))" for key
  proof (cases "key = ?key")
    case True
    then show ?thesis
      using one mem by (auto simp: identityCnt_deleteLocked active_count_exact [OF assms(2)] Let_def
          card_Diff_singleton of_nat_diff)
  next
    case False
    with other [OF False] show ?thesis
      using assms(2) by (simp add: identityCnt_deleteLocked Let_def counts_exact_def)
  qed
  then show ?thesis by (simp add: counts_exact_def tok holders_del fun_eq_iff)
qed

lemma counts_exact_cleanup_loop:
  "store_inv s \<Longrightarrow> counts_exact s \<Longrightarrow> counts_exact (snd (cleanup_loop now ks (n, s)))"
  by (induction ks arbitrary: n s)
    (auto intro: store_inv_deleteLocked counts_exact_deleteLocked split: option.split)

lemma max_cleanup_loop [simp]:
  "maxTokensPerIdentity (snd (cleanup_loop now ks (n, s))) = maxTokensPerIdentity s"
  by (induction ks arbitrary: n s) (auto split: option.split)

definition expired_tokens :: "time \<Rightarrow> TokenStore \<Rightarrow> string set" where
  "expired_tokens now s = {t. \<exists>e. byToken s t = Some e \<and> te_expiresAt e < now}"

lemma removed_cleanup_loop:
  "store_inv s \<Longrightarrow> distinct ks \<Longrightarrow>
   fst (cleanup_loop now ks (n, s)) = n + card (set ks \<inter> expired_tokens now s)"
proof (induction ks arbitrary: n s)
  case Nil
  then show ?case by simp
next
  case (Cons k ks)
  show ?case
  proof (cases "\<exists>e. byToken s k = Some e \<and> te_expiresAt e < now")
    case True
    then obtain e where e: "byToken s k = Some e" "te_expiresAt e < now" by blast
    then have "te_token e = k" using Cons.prems(1) by (auto simp: store_inv_def tokens_keyed_def)
    then have "set ks \<inter> expired_tokens now (deleteLocked e s) = set ks \<inter> expired_tokens now s"
      using Cons.prems(2) by (auto simp: expired_tokens_def)
    moreover have "set (k # ks) \<inter> expired_tokens now s = insert k (set ks \<inter> expired_tokens now s)"
      using e by (auto simp: expired_tokens_def)
    ultimately show ?thesis
      using Cons e store_inv_deleteLocked [OF Cons.prems(1) e(1)] by simp
  next
    case False
    then have "set (k # ks) \<inter> expired_tokens now s = set ks \<inter> expired_tokens now s"
      by (auto simp: expired_tokens_def)
    with False Cons show ?thesis by (auto split: option.split)
  qed
qed

lemma CleanupExpired_exact:
  assumes "store_inv s" and "counts_exact s" and "enumerates order (byToken s)"
  shows "byToken (snd (CleanupExpired order now s)) = byToken s |` (- expired_tokens now s)"
    and "fst (CleanupExpired order now s) = card (expired_tokens now s)"
    and "counts_exact (snd (CleanupExpired order now s))"
proof -
  have dom: "set order = dom (byToken s)" and "distinct order"
    using assms(3) by (auto simp: enumerates_def)
  then show "byToken (snd (CleanupExpired order now s)) = byToken s |` (- expired_tokens now s)"
    using assms(1)
    by (auto simp: CleanupExpired_def byToken_cleanup_loop expired_tokens_def restrict_map_def fun_eq_iff
        split: option.split)
  have "set order \<inter> expired_tokens now s = expired_tokens now s"
    using dom by (auto simp: expired_tokens_def)
  with \<open>distinct order\<close> show "fst (CleanupExpired order now s) = card (expired_tokens now s)"
    using assms(1) by (simp add: CleanupExpired_def removed_cleanup_loop)
  show "counts_exact (snd (CleanupExpired order now s))"
    using assms(1,2) by (simp add: CleanupExpired_def counts_exact_cleanup_loop)
qed

lemma store_determined:
  "counts_exact s \<Longrightarrow> counts_exact s' \<Longrightarrow> byToken s = byToken s' \<Longrightarrow>
   maxTokensPerIdentity s = maxTokensPerIdentity s' \<Longrightarrow> (s :: TokenStore) = s'"
  by (rule TokenStore.equality) (simp_all add: counts_exact_def cong: if_cong)

subsection \<open>Properties of the token store\<close>

text \<open>
  C22. Every token that verifies was issued: in any sequence of issues, revocations and sweeps from
  an empty store, a token verifies for an identity only if an earlier issue drew exactly this token
  for exactly this identity, its lifetime has not passed and it was not revoked since. Nothing, no
  verification and no sweep, extends a lifetime.
\<close>

theorem verified_token_history:
  assumes "VerifyToken now tok (run_ops ops (NewTokenStore m)) = Some i"
  shows "\<exists>pre rnd1 rnd2 t0 ttl post. ops = pre @ Issue rnd1 rnd2 t0 i ttl # post \<and>
    randomHex rnd1 = Some tok \<and> now \<le> t0 + ttl \<and> Revoke tok \<notin> set post"
  using verified_was_issued [OF assms] by (simp add: issued_in_def)

theorem verified_token_history_witness:
  "let i = \<lparr>id_ServiceAccount = ''web'', id_ServiceAccountUID = ''u'', id_Namespace = ''opus'', id_Role = ''r''\<rparr>;
       ops = [Issue (Some [171]) (Some [1]) 5 i 10, Cleanup [''ab''] 12]
   in VerifyToken 15 ''ab'' (run_ops ops (NewTokenStore 1)) = Some i \<and>
      (\<exists>pre rnd1 rnd2 t0 ttl post. ops = pre @ Issue rnd1 rnd2 t0 i ttl # post \<and>
         randomHex rnd1 = Some ''ab'' \<and> 15 \<le> t0 + ttl \<and> Revoke ''ab'' \<notin> set post)"
proof -
  let ?i = "\<lparr>id_ServiceAccount = ''web'', id_ServiceAccountUID = ''u'', id_Namespace = ''opus'', id_Role = ''r''\<rparr>"
  let ?ops = "[Issue (Some [171]) (Some [1]) 5 ?i 10, Cleanup [''ab''] 12]"
  have "VerifyToken 15 ''ab'' (run_ops ?ops (NewTokenStore 1)) = Some ?i"
    by (simp add: run_ops_def NewTokenStore_def IssueToken_def randomHex_def EncodeToString_def hex_byte_def
        hextable_def active_count_def CleanupExpired_def VerifyToken_def lookupConstantTime_def
        ConstantTimeCompare_def Let_def drop_bit_eq_div)
  from this verified_token_history [OF this] show ?thesis by (simp only: Let_def)
qed

text \<open>
  C23. The quota holds in every reachable store: with a positive limit, no identity key ever holds
  more stored tokens than the limit, even if random tokens collide, because the counters never fall
  below the number of stored tokens.
\<close>

theorem token_quota:
  assumes "0 < m"
  shows "int (card (holders (byToken (run_ops ops (NewTokenStore m))) key)) \<le> m"
proof -
  let ?s = "run_ops ops (NewTokenStore m)"
  have inv: "store_inv ?s" by (intro store_inv_run inv_intros)
  have "maxTokensPerIdentity ?s = m" by (simp add: NewTokenStore_def)
  with inv assms have "active_count ?s key \<le> m"
    by (auto simp: store_inv_def counts_bounded_def active_count_def split: option.split)
  moreover have "int (card (holders (byToken ?s) key)) \<le> active_count ?s key"
    using inv by (simp add: store_inv_def counts_cover_def)
  ultimately show ?thesis by simp
qed

theorem token_quota_witness:
  "int (card (holders (byToken (run_ops [Issue (Some [1]) (Some [2]) 0
      \<lparr>id_ServiceAccount = ''a'', id_ServiceAccountUID = ''u'', id_Namespace = ''n'', id_Role = ''r''\<rparr> 10]
      (NewTokenStore 1))) ''n:a'')) \<le> 1"
  using token_quota [of 1] by simp

text \<open>
  Issuing has exactly the outcomes of the code: a failed random read or a full quota changes
  nothing, and otherwise the returned token verifies for the identity from then on up to and
  including its expiry instant and not later, while every other token verifies as before.
\<close>

lemma IssueToken_outcomes:
  assumes "store_inv s" and "IssueToken rnd1 rnd2 now i ttl s = (res, s')"
  shows "case res of
      Inl ErrRandom \<Rightarrow> s' = s \<and> (rnd1 = None \<or> rnd2 = None)
    | Inl ErrTooManyTokens \<Rightarrow> s' = s \<and> 0 < maxTokensPerIdentity s \<and>
        maxTokensPerIdentity s \<le> active_count s (identityKey i)
    | Inr (tok, acc) \<Rightarrow> randomHex rnd1 = Some tok \<and> randomHex rnd2 = Some acc \<and>
        (\<forall>later. VerifyToken later tok s' = (if later \<le> now + ttl then Some i else None)) \<and>
        (\<forall>later t. VerifyToken later t s' = VerifyToken later t s \<or> t = tok)"
proof (cases res)
  case (Inl e)
  then show ?thesis
    using assms(2) by (auto simp: IssueToken_def Let_def randomHex_def split: option.splits if_splits)
next
  case (Inr p)
  then obtain tok acc where res: "res = Inr (tok, acc)" by (cases p) simp
  note iss = assms(2) [unfolded res]
  from iss have "randomHex rnd1 = Some tok" "randomHex rnd2 = Some acc" by (auto simp: IssueToken_ok)
  then show ?thesis
    using tokens.issued_token_verifies [OF assms(1) iss] tokens.issue_keeps_others [OF assms(1) iss]
    by (auto simp: res)
qed

text \<open>
  A sweep does its work whatever order the map is visited in: it removes exactly the expired
  tokens, returns how many they were, leaves counters that again equal the number of stored tokens
  of each identity, and two different visiting orders end in the same store.
\<close>

lemma CleanupExpired_any_order:
  assumes "store_inv s" and "counts_exact s"
    and "enumerates order (byToken s)" and "enumerates order' (byToken s)"
  shows "CleanupExpired order now s = CleanupExpired order' now s \<and>
    fst (CleanupExpired order now s) = card (expired_tokens now s) \<and>
    byToken (snd (CleanupExpired order now s)) = byToken s |` (- expired_tokens now s) \<and>
    counts_exact (snd (CleanupExpired order now s))"
proof -
  note one = CleanupExpired_exact [OF assms(1,2,3), of now]
  note two = CleanupExpired_exact [OF assms(1,2,4), of now]
  have "snd (CleanupExpired order now s) = snd (CleanupExpired order' now s)"
    using one two by (intro store_determined) (auto simp: CleanupExpired_def)
  with one two show ?thesis by (simp add: prod_eq_iff)
qed

text \<open>
  Quota keys do not mix identities: for identities that a validated Kubernetes token can have
  (no colon in the namespace), two identities share a quota key only if they have the same namespace
  and service account.
\<close>

theorem identityKey_injective:
  assumes "ValidateK8sJWT v jwt = Inr i" and "ValidateK8sJWT v' jwt' = Inr j"
  shows "identityKey i = identityKey j \<longleftrightarrow>
    id_Namespace i = id_Namespace j \<and> id_ServiceAccount i = id_ServiceAccount j"
proof -
  have "CHR '':'' \<notin> set (id_Namespace i)" "CHR '':'' \<notin> set (id_Namespace j)"
    using assms by (auto dest: ValidateK8sJWT_namespace)
  then show ?thesis
    by (auto simp: identityKey_def) (metis SplitN2_two list.inject)+
qed

theorem identityKey_injective_witness:
  "let v = newValidatorWithReviewer (\<lambda>_ _. Inr \<lparr>st_Authenticated = True,
             st_Username = ''system:serviceaccount:opus:web'', st_UID = ''u1''\<rparr>) [] 0;
       i = \<lparr>id_ServiceAccount = ''web'', id_ServiceAccountUID = ''u1'', id_Namespace = ''opus'', id_Role = ''''\<rparr>
   in ValidateK8sJWT v ''jwt'' = Inr i \<and> identityKey i = identityKey i"
proof -
  let ?v = "newValidatorWithReviewer (\<lambda>_ _. Inr \<lparr>st_Authenticated = True,
             st_Username = ''system:serviceaccount:opus:web'', st_UID = ''u1''\<rparr>) [] 0"
  let ?i = "\<lparr>id_ServiceAccount = ''web'', id_ServiceAccountUID = ''u1'', id_Namespace = ''opus'', id_Role = ''''\<rparr>"
  have "TrimSpace ''jwt'' = ''jwt''"
    by (rule TrimSpace_visible) (simp_all add: code_def IsSpace_def)
  then have "ValidateK8sJWT ?v ''jwt'' = Inr ?i"
    by (simp add: ValidateK8sJWT_ok newValidatorWithReviewer_def parse_username_ok sa_prefix_def)
  from this identityKey_injective [OF this this] show ?thesis by (simp add: Let_def)
qed

end
