(* ===== verification/Go_Http.thy ===== *)
theory Go_Http
  imports Go_Strings Go_Json
begin

text \<open>
  What the gateway uses of net/http, and the response types of pkg/vaultresponse. A response
  writer keeps the header map handlers edit, the status and the headers that went out with the
  first \<open>WriteHeader\<close> (later calls and later header edits change nothing the client sees) and
  the body written so far. Bodies are the typed values handed to the JSON encoder; Response_Text has
  their text. \<open>BRedirect\<close> stands for the page of a redirection. A nil \<open>interface\<close> field is the JSON null.
\<close>

subsection \<open>Response types\<close>

record ErrorResponse =
  er_Errors :: "string list"

record HealthResponse =
  hr_Initialized :: bool
  hr_Sealed :: bool
  hr_Standby :: bool
  hr_PerformanceStandby :: bool
  hr_ReplicationPerformanceMode :: string
  hr_ReplicationDRMode :: string
  hr_ServerTimeUTC :: int
  hr_Version :: string
  hr_ClusterName :: string
  hr_ClusterID :: string

record SealStatusResponse =
  ss_Type :: string
  ss_Initialized :: bool
  ss_Sealed :: bool
  ss_T :: int
  ss_N :: int
  ss_Progress :: int
  ss_Nonce :: string
  ss_Version :: string
  ss_BuildDate :: string
  ss_Migration :: bool
  ss_ClusterName :: string
  ss_ClusterID :: string
  ss_RecoverySeal :: bool
  ss_StorageType :: string

record Auth =
  au_ClientToken :: string
  au_Accessor :: string
  au_Policies :: "string list"
  au_TokenPolicies :: "string list"
  au_Metadata :: strmap
  au_LeaseDuration :: int
  au_Renewable :: bool
  au_EntityID :: string
  au_TokenType :: string
  au_Orphan :: bool

record AuthResponse =
  ar_RequestID :: string
  ar_LeaseID :: string
  ar_Renewable :: bool
  ar_LeaseDuration :: int
  ar_Data :: jvalue
  ar_WrapInfo :: jvalue
  ar_Warnings :: jvalue
  ar_Auth :: "Auth option"

text \<open>The creation time is kept as a time; the code formats it before encoding.\<close>

record SecretMetadata =
  sm_CreatedTime :: time
  sm_CustomMetadata :: jvalue
  sm_DeletionTime :: string
  sm_Destroyed :: bool
  sm_Version :: int

text \<open>The data map as it is when it is encoded; \<open>None\<close> is the nil map.\<close>

record SecretData =
  sd_Data :: "strmap option"
  sd_Metadata :: SecretMetadata

record SecretResponse =
  sr_RequestID :: string
  sr_LeaseID :: string
  sr_Renewable :: bool
  sr_LeaseDuration :: int
  sr_Data :: SecretData
  sr_WrapInfo :: jvalue
  sr_Warnings :: jvalue
  sr_Auth :: jvalue

datatype body =
    BError ErrorResponse
  | BHealth HealthResponse
  | BSeal SealStatusResponse
  | BAuth AuthResponse
  | BSecret SecretResponse
  | BText string
  | BRedirect string

subsection \<open>Requests and response writers\<close>

text \<open>
  \<open>req_Header\<close> is \<open>Header.Get\<close>: the first value of a header or the empty string. \<open>req_Body\<close> is
  what reading the whole body comes to. \<open>req_ctx\<close> is the request id in the context, if any. The
  path of the URL is kept in both its decoded and its escaped form.
\<close>

record Request =
  req_Method :: string
  req_Path :: string
  req_EscapedPath :: string
  req_RawQuery :: string
  req_Header :: "string \<Rightarrow> string"
  req_RemoteAddr :: string
  req_Body :: "string + string"
  req_PathValue :: string
  req_ctx :: "string option"

record ResponseWriter =
  rw_header :: strmap
  rw_sent :: "(nat \<times> strmap) option"
  rw_body :: "body list"

definition new_response :: ResponseWriter where
  "new_response = \<lparr>rw_header = Map.empty, rw_sent = None, rw_body = []\<rparr>"

definition header_Set :: "string \<Rightarrow> string \<Rightarrow> ResponseWriter \<Rightarrow> ResponseWriter" where
  "header_Set k v w = w\<lparr>rw_header := (rw_header w)(k \<mapsto> v)\<rparr>"

definition WriteHeader :: "nat \<Rightarrow> ResponseWriter \<Rightarrow> ResponseWriter" where
  "WriteHeader status w =
     (case rw_sent w of None \<Rightarrow> w\<lparr>rw_sent := Some (status, rw_header w)\<rparr> | Some _ \<Rightarrow> w)"

definition Write :: "body \<Rightarrow> ResponseWriter \<Rightarrow> ResponseWriter" where
  "Write b w = (let w = WriteHeader 200 w in w\<lparr>rw_body := rw_body w @ [b]\<rparr>)"

definition response_status :: "ResponseWriter \<Rightarrow> nat option" where
  "response_status w = map_option fst (rw_sent w)"

text \<open>\<open>http.StatusText\<close> for the statuses the gateway uses.\<close>

definition StatusText :: "nat \<Rightarrow> string" where
  "StatusText st =
     (if st = 200 then ''OK'' else if st = 204 then ''No Content'' else if st = 400 then ''Bad Request''
      else if st = 403 then ''Forbidden'' else if st = 404 then ''Not Found''
      else if st = 429 then ''Too Many Requests'' else if st = 500 then ''Internal Server Error''
      else if st = 502 then ''Bad Gateway'' else if st = 503 then ''Service Unavailable'' else '''')"

lemma header_Set_fields [simp]:
  "rw_sent (header_Set k v w) = rw_sent w" "rw_body (header_Set k v w) = rw_body w"
  "rw_header (header_Set k v w) = (rw_header w)(k \<mapsto> v)"
  by (simp_all add: header_Set_def)

lemma WriteHeader_first [simp]: "rw_sent w = None \<Longrightarrow> WriteHeader st w = w\<lparr>rw_sent := Some (st, rw_header w)\<rparr>"
  by (simp add: WriteHeader_def)

lemma WriteHeader_again [simp]: "rw_sent w = Some s \<Longrightarrow> WriteHeader st w = w"
  by (simp add: WriteHeader_def)

lemma Write_sent [simp]: "rw_sent w = Some s \<Longrightarrow> Write b w = w\<lparr>rw_body := rw_body w @ [b]\<rparr>"
  by (simp add: Write_def)

end
