(* ===== verification/Api_Handlers.thy ===== *)
theory Api_Handlers
  imports Backends Secret_Path Rbac Token_Store Go_Http
begin

text \<open>
  internal/api and internal/version: the four handlers and their helpers. A handler is a function
  of the request, the response writer and the gateway's state; it also says whether it panicked.
  What it reads from outside is an argument: the clock readings in the order of the calls, the
  answers of the remote services and of the TokenReview API, the random bytes, and the order in
  which \<open>clearMap\<close> visits the keys.
\<close>

subsection \<open>Build information\<close>

record build_info =
  bi_Version :: string
  bi_GitCommit :: string
  bi_BuildDate :: string
  bi_GoVersion :: string

definition version_String :: "build_info \<Rightarrow> string" where
  "version_String bi =
     ''vault-gateway '' @ bi_Version bi @ '' (commit='' @ bi_GitCommit bi @ '', built='' @ bi_BuildDate bi @ '', '' @
     bi_GoVersion bi @ '')''"

definition UserAgent :: "build_info \<Rightarrow> string" where
  "UserAgent bi = ''vault-gateway/'' @ bi_Version bi"

subsection \<open>State\<close>

record Handlers =
  h_backend :: "backend option"
  h_validator :: K8sTokenValidator
  h_tokens :: TokenStore
  h_rbac :: RBAC
  h_metrics :: bool
  h_defaultTokenTTL :: duration
  h_roleTokenTTL :: "string \<rightharpoonup> duration"
  h_backendHealthCheck :: bool
  h_backendCheckTimeout :: duration
  h_clusterID :: string
  h_build :: build_info

definition NewHandlers :: "Handlers \<Rightarrow> Handlers" where
  "NewHandlers c =
     (let timeout = (if h_backendCheckTimeout c \<le> 0 then 5 * Second else h_backendCheckTimeout c)
      in c\<lparr>h_backendCheckTimeout := timeout\<rparr>)"

record env =
  ev_clock :: "nat \<Rightarrow> time"
  ev_remotes :: remotes
  ev_reviews :: tokenReviewer
  ev_rnd1 :: "byte list option"
  ev_rnd2 :: "byte list option"
  ev_order :: "string list"

type_synonym result = "string option \<times> ResponseWriter \<times> Handlers \<times> world"

definition ttlForRole :: "Handlers \<Rightarrow> string \<Rightarrow> duration" where
  "ttlForRole h role =
     (case h_roleTokenTTL h role of
        Some ttl \<Rightarrow> if 0 < ttl then ttl else h_defaultTokenTTL h
      | None \<Rightarrow> h_defaultTokenTTL h)"

definition backendName :: "Handlers \<Rightarrow> string" where
  "backendName h = (case h_backend h of None \<Rightarrow> ''none'' | Some b \<Rightarrow> backend_Name b)"

subsection \<open>Errors\<close>

definition WithRequestID :: "string \<Rightarrow> Request \<Rightarrow> Request" where
  "WithRequestID rid r = r\<lparr>req_ctx := Some rid\<rparr>"

definition RequestID :: "Request \<Rightarrow> string" where
  "RequestID r = (case req_ctx r of Some v \<Rightarrow> v | None \<Rightarrow> '''')"

definition msgPermissionDenied :: string where
  "msgPermissionDenied = ''permission denied''"

definition writeJSON :: "nat \<Rightarrow> body \<Rightarrow> ResponseWriter \<Rightarrow> ResponseWriter" where
  "writeJSON status v w = Write v (WriteHeader status (header_Set ''Content-Type'' ''application/json'' w))"

definition writeError :: "nat \<Rightarrow> string list \<Rightarrow> ResponseWriter \<Rightarrow> ResponseWriter" where
  "writeError status messages w =
     (let messages = (if messages = [] then [StatusText status] else messages)
      in writeJSON status (BError \<lparr>er_Errors = messages\<rparr>) w)"

definition writePermissionDenied :: "ResponseWriter \<Rightarrow> ResponseWriter" where
  "writePermissionDenied w = writeError 403 [msgPermissionDenied] w"

subsection \<open>Reading secrets\<close>

definition audit ::
  "string \<Rightarrow> string \<Rightarrow> string \<Rightarrow> string \<Rightarrow> string \<Rightarrow> string \<Rightarrow> string \<Rightarrow> string \<Rightarrow> world \<Rightarrow> world" where
  "audit action reqID srcIP namespace sa role path res =
     slog LevelInfo ''audit''
       [(''action'', action), (''request_id'', reqID), (''src_ip'', srcIP), (''namespace'', namespace),
        (''service_account'', sa), (''role'', role), (''path'', path), (''result'', res)]"

definition clientIP :: "Request \<Rightarrow> string" where
  "clientIP r =
     (let xff = req_Header r ''X-Forwarded-For'' in
      if xff \<noteq> '''' then
        (case IndexByte xff CHR '','' of
           Some idx \<Rightarrow> TrimSpace (take idx xff)
         | None \<Rightarrow> TrimSpace xff)
      else
        (case SplitHostPort (req_RemoteAddr r) of
           None \<Rightarrow> req_RemoteAddr r
         | Some (host, _) \<Rightarrow> host))"

definition validatePath :: "string \<Rightarrow> path_error + unit" where
  "validatePath path = Validate path"

text \<open>The order is how the \<open>range\<close> statement visits the keys; ranging over nil does nothing.\<close>

definition clearMap :: "string list \<Rightarrow> mref \<Rightarrow> mheap \<Rightarrow> mheap" where
  "clearMap order m h =
     (case m of None \<Rightarrow> h | Some a \<Rightarrow> write_map a (clear_loop order (cells h a)) h)"

definition observeSecret :: "string \<Rightarrow> time \<Rightarrow> time \<Rightarrow> Handlers \<Rightarrow> world \<Rightarrow> world" where
  "observeSecret status start now h w =
     (if \<not> h_metrics h then w
      else
        let name = backendName h; m = w_metrics w in
        w\<lparr>w_metrics := m\<lparr>m_SecretRequests := inc (status, name) (m_SecretRequests m),
                         m_SecretDuration := observe name (now - start) (m_SecretDuration m)\<rparr>\<rparr>)"

definition SecretReadHandler :: "env \<Rightarrow> Request \<Rightarrow> ResponseWriter \<Rightarrow> Handlers \<Rightarrow> world \<Rightarrow> result" where
  "SecretReadHandler ev r rw h w =
     (let start = ev_clock ev 0;
          reqID = RequestID r;
          srcIP = clientIP r;
          path = TrimPrefix (req_PathValue r) ''/''
      in
      case validatePath path of
        Inl _ \<Rightarrow> (None, writeError 400 [''invalid secret path''] rw, h, w)
      | Inr _ \<Rightarrow>
      let tok = req_Header r ''X-Vault-Token'' in
      case VerifyToken (ev_clock ev 1) tok (h_tokens h) of
        None \<Rightarrow>
          (let w = audit ''read'' reqID srcIP '''' '''' '''' path ''denied'' w;
               w = observeSecret ''denied'' start (ev_clock ev 4) h w
           in (None, writePermissionDenied rw, h, w))
      | Some identity \<Rightarrow>
      let record_audit = audit ''read'' reqID srcIP (id_Namespace identity) (id_ServiceAccount identity) (id_Role identity) path in
      if \<not> CheckAccess (h_rbac h) (Some identity) path then
        let w = record_audit ''denied'' w;
            w = observeSecret ''denied'' start (ev_clock ev 4) h w
        in (None, writePermissionDenied rw, h, w)
      else
      case h_backend h of
        None \<Rightarrow> (Some ''nil backend'', rw, h, w)
      | Some b \<Rightarrow>
      case backend_GetSecret (ev_remotes ev) (ev_clock ev 2) (ev_clock ev 3) path b w of
        (res, b, w) \<Rightarrow>
      let h = h\<lparr>h_backend := Some b\<rparr> in
      case res of
        Inl (ErrSecretNotFound _) \<Rightarrow>
          (let w = record_audit ''not_found'' w;
               w = observeSecret ''not_found'' start (ev_clock ev 4) h w
           in (None, writeError 404 [''secret not found''] rw, h, w))
      | Inl (ErrBackendUnavailable txt) \<Rightarrow>
          (let w = record_audit ''error'' w;
               w = observeSecret ''error'' start (ev_clock ev 4) h w;
               w = slog LevelError ''backend unavailable''
                     [(''backend'', backendName h), (''path'', path), (''request_id'', reqID), (''error'', txt)] w
           in (None, writeError 502 [''backend unavailable''] rw, h, w))
      | Inl (ErrOther txt) \<Rightarrow>
          (let w = record_audit ''error'' w;
               w = observeSecret ''error'' start (ev_clock ev 4) h w;
               w = slog LevelError ''backend error''
                     [(''backend'', backendName h), (''path'', path), (''request_id'', reqID), (''error'', txt)] w
           in (None, writeError 502 [''backend error''] rw, h, w))
      | Inr data \<Rightarrow>
          (let w = record_audit ''success'' w;
               w = observeSecret ''success'' start (ev_clock ev 4) h w;
               resp = \<lparr>sr_RequestID = reqID, sr_LeaseID = '''', sr_Renewable = False, sr_LeaseDuration = 0,
                       sr_Data = \<lparr>sd_Data = map_option (cells (w_heap w)) data,
                                  sd_Metadata = \<lparr>sm_CreatedTime = ev_clock ev 5, sm_CustomMetadata = JNull,
                                                 sm_DeletionTime = '''', sm_Destroyed = False, sm_Version = 1\<rparr>\<rparr>,
                       sr_WrapInfo = JNull, sr_Warnings = JNull, sr_Auth = JNull\<rparr>;
               rw = writeJSON 200 (BSecret resp) rw
           in (None, rw, h, w\<lparr>w_heap := clearMap (ev_order ev) data (w_heap w)\<rparr>)))"

subsection \<open>Logging in\<close>

definition observeAuth :: "string \<Rightarrow> string \<Rightarrow> time \<Rightarrow> time \<Rightarrow> Handlers \<Rightarrow> world \<Rightarrow> world" where
  "observeAuth status role start now h w =
     (if \<not> h_metrics h then w
      else
        let m = w_metrics w in
        w\<lparr>w_metrics := m\<lparr>m_AuthRequests := inc (status, role) (m_AuthRequests m),
                         m_AuthDuration := m_AuthDuration m @ [now - start]\<rparr>\<rparr>)"

record loginRequest =
  lr_JWT :: string
  lr_Role :: string

definition decode_login :: "string \<Rightarrow> loginRequest option" where
  "decode_login body =
     map_option (\<lambda>f. \<lparr>lr_JWT = f ''jwt'', lr_Role = f ''role''\<rparr>) (Unmarshal_strings [''jwt'', ''role''] body)"

text \<open>Go's integer division truncates towards zero.\<close>

definition seconds :: "duration \<Rightarrow> int" where
  "seconds d = (if 0 \<le> d then d div Second else - ((- d) div Second))"

definition K8sLoginHandler :: "env \<Rightarrow> Request \<Rightarrow> ResponseWriter \<Rightarrow> Handlers \<Rightarrow> world \<Rightarrow> result" where
  "K8sLoginHandler ev r rw h w =
     (let start = ev_clock ev 0; reqID = RequestID r; done_at = ev_clock ev 2 in
      case req_Body r of
        Inl _ \<Rightarrow> (None, writeError 400 [''error reading request body''] rw, h, observeAuth ''failure'' '''' start done_at h w)
      | Inr text \<Rightarrow>
      case decode_login text of
        None \<Rightarrow> (None, writeError 400 [''invalid request body''] rw, h, observeAuth ''failure'' '''' start done_at h w)
      | Some req \<Rightarrow>
      if lr_JWT req = '''' \<or> lr_Role req = '''' then
        (None, writeError 400 [''missing required fields: jwt and role''] rw, h,
         observeAuth ''failure'' (lr_Role req) start done_at h w)
      else
      let srcIP = clientIP r in
      case ValidateK8sJWT ((h_validator h)\<lparr>v_reviews := ev_reviews ev\<rparr>) (lr_JWT req) of
        Inl _ \<Rightarrow>
          (let w = audit ''login'' reqID srcIP '''' '''' (lr_Role req) '''' ''failure'' w;
               w = observeAuth ''failure'' (lr_Role req) start done_at h w
           in (None, writePermissionDenied rw, h, w))
      | Inr identity \<Rightarrow>
      let record_audit = audit ''login'' reqID srcIP (id_Namespace identity) (id_ServiceAccount identity) (lr_Role req) '''' in
      if \<not> CheckBinding (h_rbac h) (lr_Role req) (id_Namespace identity) (id_ServiceAccount identity) then
        let w = record_audit ''failure'' w;
            w = observeAuth ''failure'' (lr_Role req) start done_at h w
        in (None, writePermissionDenied rw, h, w)
      else
      let identity = identity\<lparr>id_Role := lr_Role req\<rparr>;
          ttl = ttlForRole h (lr_Role req)
      in
      case IssueToken (ev_rnd1 ev) (ev_rnd2 ev) (ev_clock ev 1) identity ttl (h_tokens h) of
        (Inl _, toks) \<Rightarrow>
          (let w = record_audit ''failure'' w;
               w = observeAuth ''failure'' (lr_Role req) start done_at h w
           in (None, writePermissionDenied rw, h\<lparr>h_tokens := toks\<rparr>, w))
      | (Inr (tok, accessor), toks) \<Rightarrow>
          (let h = h\<lparr>h_tokens := toks\<rparr>;
               w = (if h_metrics h
                    then w\<lparr>w_metrics := (w_metrics w)\<lparr>m_ActiveTokens := TokenCount (h_tokens h)\<rparr>\<rparr> else w);
               w = record_audit ''success'' w;
               w = observeAuth ''success'' (lr_Role req) start done_at h w;
               resp = \<lparr>ar_RequestID = reqID, ar_LeaseID = '''', ar_Renewable = False, ar_LeaseDuration = 0,
                       ar_Data = JNull, ar_WrapInfo = JNull, ar_Warnings = JNull,
                       ar_Auth = Some \<lparr>au_ClientToken = tok, au_Accessor = accessor,
                         au_Policies = [''default'', lr_Role req], au_TokenPolicies = [''default'', lr_Role req],
                         au_Metadata = [''role'' \<mapsto> lr_Role req,
                                        ''service_account_name'' \<mapsto> id_ServiceAccount identity,
                                        ''service_account_namespace'' \<mapsto> id_Namespace identity,
                                        ''service_account_uid'' \<mapsto> id_ServiceAccountUID identity],
                         au_LeaseDuration = seconds ttl, au_Renewable = False, au_EntityID = '''',
                         au_TokenType = ''service'', au_Orphan = True\<rparr>\<rparr>
           in (None, writeJSON 200 (BAuth resp) rw, h, w)))"

subsection \<open>Health\<close>

definition HealthHandler :: "env \<Rightarrow> Request \<Rightarrow> ResponseWriter \<Rightarrow> Handlers \<Rightarrow> world \<Rightarrow> result" where
  "HealthHandler ev r rw h w =
     (let (sealed, status, w) =
        (case h_backend h of
           Some b \<Rightarrow>
             if h_backendHealthCheck h then
               (case backend_HealthCheck (ev_remotes ev) b w of
                  (Some err, w) \<Rightarrow>
                    (True, 503,
                     slog LevelWarn ''backend health check failed''
                       [(''backend'', backendName h), (''error'', error_text err), (''request_id'', RequestID r)] w)
                | (None, w) \<Rightarrow> (False, 200, w))
             else (False, 200, w)
         | None \<Rightarrow> (False, 200, w))
      in (None,
          writeJSON status (BHealth
            \<lparr>hr_Initialized = True, hr_Sealed = sealed, hr_Standby = False, hr_PerformanceStandby = False,
             hr_ReplicationPerformanceMode = ''disabled'', hr_ReplicationDRMode = ''disabled'',
             hr_ServerTimeUTC = ev_clock ev 0 div Second, hr_Version = UserAgent (h_build h),
             hr_ClusterName = ''vault-gateway'', hr_ClusterID = h_clusterID h\<rparr>) rw,
          h, w))"

definition SealStatusHandler :: "env \<Rightarrow> Request \<Rightarrow> ResponseWriter \<Rightarrow> Handlers \<Rightarrow> world \<Rightarrow> result" where
  "SealStatusHandler ev r rw h w =
     (None,
      writeJSON 200 (BSeal
        \<lparr>ss_Type = ''shamir'', ss_Initialized = True, ss_Sealed = False, ss_T = 1, ss_N = 1, ss_Progress = 0,
         ss_Nonce = '''', ss_Version = bi_Version (h_build h), ss_BuildDate = bi_BuildDate (h_build h),
         ss_Migration = False, ss_ClusterName = ''vault-gateway'', ss_ClusterID = h_clusterID h,
         ss_RecoverySeal = False, ss_StorageType = ''gateway''\<rparr>) rw,
      h, w)"

end
