(* ===== verification/Api_Properties.thy ===== *)
theory Api_Properties
  imports Api_Handlers
begin

text \<open>
  What the handlers decide. Each handler gets a case rule with one case per return statement;
  the properties of single requests follow from them: who is denied and how, what a successful
  read and login mean, what is written to the log, and that emptying the returned map after the
  response never harms the cache.
\<close>

subsection \<open>Writing responses\<close>

lemma writeJSON_status [simp]: "rw_sent rw = None \<Longrightarrow> response_status (writeJSON st v rw) = Some st"
  by (simp add: writeJSON_def response_status_def)

lemma unsent_status [simp]: "rw_sent rw = None \<Longrightarrow> response_status rw = None"
  by (simp add: response_status_def)

lemma writeJSON_body [simp]: "rw_sent rw = None \<Longrightarrow> rw_body (writeJSON st v rw) = rw_body rw @ [v]"
  by (simp add: writeJSON_def)

lemma writeError_status [simp]: "rw_sent rw = None \<Longrightarrow> response_status (writeError st msgs rw) = Some st"
  by (simp add: writeError_def Let_def)

lemma writePermissionDenied_status [simp]: "rw_sent rw = None \<Longrightarrow> response_status (writePermissionDenied rw) = Some 403"
  by (simp add: writePermissionDenied_def)

lemma audit_heap [simp]: "w_heap (audit a i s n sa ro p res w) = w_heap w"
  by (simp add: audit_def)

lemma observe_fields [simp]:
  "w_heap (observeSecret st t0 t h w) = w_heap w" "w_log (observeSecret st t0 t h w) = w_log w"
  "w_heap (observeAuth st role t0 t h w) = w_heap w" "w_log (observeAuth st role t0 t h w) = w_log w"
  by (simp_all add: observeSecret_def observeAuth_def Let_def)

definition audit_entry ::
  "string \<Rightarrow> string \<Rightarrow> string \<Rightarrow> string \<Rightarrow> string \<Rightarrow> string \<Rightarrow> string \<Rightarrow> string \<Rightarrow> log_entry" where
  "audit_entry action reqID srcIP namespace sa role path res =
     \<lparr>l_level = LevelInfo, l_msg = ''audit'',
      l_attrs = [(''action'', action), (''request_id'', reqID), (''src_ip'', srcIP), (''namespace'', namespace),
        (''service_account'', sa), (''role'', role), (''path'', path), (''result'', res)]\<rparr>"

lemma audit_log [simp]: "w_log (audit a i s n sa ro p res w) = w_log w @ [audit_entry a i s n sa ro p res]"
  by (simp add: audit_def slog_def audit_entry_def)

subsection \<open>The cases of a read\<close>

definition read_path :: "Request \<Rightarrow> string" where
  "read_path r = TrimPrefix (req_PathValue r) ''/''"

definition read_audit :: "Request \<Rightarrow> Identity \<Rightarrow> string \<Rightarrow> log_entry" where
  "read_audit r i res = audit_entry ''read'' (RequestID r) (clientIP r) (id_Namespace i) (id_ServiceAccount i) (id_Role i) (read_path r) res"

definition secret_body :: "env \<Rightarrow> Request \<Rightarrow> strmap option \<Rightarrow> body" where
  "secret_body ev r data = BSecret
     \<lparr>sr_RequestID = RequestID r, sr_LeaseID = '''', sr_Renewable = False, sr_LeaseDuration = 0,
      sr_Data = \<lparr>sd_Data = data,
                 sd_Metadata = \<lparr>sm_CreatedTime = ev_clock ev 5, sm_CustomMetadata = JNull,
                                sm_DeletionTime = '''', sm_Destroyed = False, sm_Version = 1\<rparr>\<rparr>,
      sr_WrapInfo = JNull, sr_Warnings = JNull, sr_Auth = JNull\<rparr>"

text \<open>A token that verifies now and whose role covers the path.\<close>

definition authorized :: "env \<Rightarrow> Request \<Rightarrow> Handlers \<Rightarrow> Identity \<Rightarrow> bool" where
  "authorized ev r h i \<longleftrightarrow>
     VerifyToken (ev_clock ev 1) (req_Header r ''X-Vault-Token'') (h_tokens h) = Some i \<and>
     CheckAccess (h_rbac h) (Some i) (read_path r)"

lemma SecretRead_early:
  "Validate (read_path r) = Inl e \<Longrightarrow>
   SecretReadHandler ev r rw h w = (None, writeError 400 [''invalid secret path''] rw, h, w)"
  by (simp add: SecretReadHandler_def validatePath_def read_path_def Let_def)

lemma SecretRead_denied:
  assumes "Validate (read_path r) = Inr ()" and "\<nexists>i. authorized ev r h i"
  shows "\<exists>i w'. SecretReadHandler ev r rw h w = (None, writePermissionDenied rw, h, w') \<and>
    w_heap w' = w_heap w \<and> w_log w' = w_log w @ [read_audit r i ''denied'']"
proof (cases "VerifyToken (ev_clock ev 1) (req_Header r ''X-Vault-Token'') (h_tokens h)")
  case None
  let ?i = "\<lparr>id_ServiceAccount = '''', id_ServiceAccountUID = '''', id_Namespace = '''', id_Role = ''''\<rparr>"
  show ?thesis
    by (rule exI [of _ ?i])
      (use assms(1) None in \<open>simp add: SecretReadHandler_def validatePath_def read_path_def Let_def read_audit_def\<close>)
next
  case (Some i)
  then have "\<not> CheckAccess (h_rbac h) (Some i) (read_path r)"
    using assms(2) by (auto simp: authorized_def)
  with Some show ?thesis
    by (intro exI [of _ i])
      (use assms(1) Some in \<open>simp add: SecretReadHandler_def validatePath_def read_path_def Let_def read_audit_def\<close>)
qed

lemma SecretRead_authorized:
  assumes "Validate (read_path r) = Inr ()" and "authorized ev r h i"
  shows "SecretReadHandler ev r rw h w =
    (case h_backend h of
       None \<Rightarrow> (Some ''nil backend'', rw, h, w)
     | Some b \<Rightarrow>
        (case backend_GetSecret (ev_remotes ev) (ev_clock ev 2) (ev_clock ev 3) (read_path r) b w of
          (res, b, w1) \<Rightarrow>
          (let h = h\<lparr>h_backend := Some b\<rparr>;
               note = (\<lambda>res. observeSecret res (ev_clock ev 0) (ev_clock ev 4) h
                 (audit ''read'' (RequestID r) (clientIP r) (id_Namespace i) (id_ServiceAccount i) (id_Role i) (read_path r) res w1));
               failure = (\<lambda>msg txt. slog LevelError msg
                 [(''backend'', backendName h), (''path'', read_path r), (''request_id'', RequestID r), (''error'', txt)] (note ''error''))
           in case res of
             Inl (ErrSecretNotFound _) \<Rightarrow> (None, writeError 404 [''secret not found''] rw, h, note ''not_found'')
           | Inl (ErrBackendUnavailable txt) \<Rightarrow> (None, writeError 502 [''backend unavailable''] rw, h, failure ''backend unavailable'' txt)
           | Inl (ErrOther txt) \<Rightarrow> (None, writeError 502 [''backend error''] rw, h, failure ''backend error'' txt)
           | Inr v \<Rightarrow>
               (None, writeJSON 200 (secret_body ev r (map_option (cells (w_heap w1)) v)) rw, h,
                (note ''success'')\<lparr>w_heap := clearMap (ev_order ev) v (w_heap w1)\<rparr>))))"
  using assms
  by (auto simp: SecretReadHandler_def validatePath_def read_path_def authorized_def secret_body_def Let_def
      split: option.split prod.split sum.split backend_error.split)

lemma SecretRead_cases:
  assumes "SecretReadHandler ev r rw h w = (p, rw', h', w')"
  obtains (bad_path) e where "Validate (read_path r) = Inl e" "p = None" "rw' = writeError 400 [''invalid secret path''] rw"
      "h' = h" "w' = w"
  | (denied) i where "Validate (read_path r) = Inr ()" "\<nexists>i. authorized ev r h i" "p = None"
      "rw' = writePermissionDenied rw" "h' = h" "w_heap w' = w_heap w" "w_log w' = w_log w @ [read_audit r i ''denied'']"
  | (nil_backend) i where "Validate (read_path r) = Inr ()" "authorized ev r h i" "h_backend h = None"
      "p = Some ''nil backend''" "rw' = rw" "h' = h" "w' = w"
  | (failed) i b b' w1 e where "Validate (read_path r) = Inr ()" "authorized ev r h i" "h_backend h = Some b"
      "backend_GetSecret (ev_remotes ev) (ev_clock ev 2) (ev_clock ev 3) (read_path r) b w = (Inl e, b', w1)"
      "p = None" "h' = h\<lparr>h_backend := Some b'\<rparr>" "w_heap w' = w_heap w1"
      "rw' = (case e of ErrSecretNotFound _ \<Rightarrow> writeError 404 [''secret not found''] rw
                | ErrBackendUnavailable _ \<Rightarrow> writeError 502 [''backend unavailable''] rw
                | ErrOther _ \<Rightarrow> writeError 502 [''backend error''] rw)"
  | (success) i b b' w1 v where "Validate (read_path r) = Inr ()" "authorized ev r h i" "h_backend h = Some b"
      "backend_GetSecret (ev_remotes ev) (ev_clock ev 2) (ev_clock ev 3) (read_path r) b w = (Inr v, b', w1)"
      "p = None" "h' = h\<lparr>h_backend := Some b'\<rparr>"
      "rw' = writeJSON 200 (secret_body ev r (map_option (cells (w_heap w1)) v)) rw"
      "w_heap w' = clearMap (ev_order ev) v (w_heap w1)" "w_log w' = w_log w1 @ [read_audit r i ''success'']"
proof (cases "Validate (read_path r)")
  case (Inl e)
  with assms SecretRead_early [OF Inl] show ?thesis by (intro bad_path) auto
next
  case (Inr u)
  then have valid: "Validate (read_path r) = Inr ()" by simp
  show ?thesis
  proof (cases "\<exists>i. authorized ev r h i")
    case False
    with SecretRead_denied [OF valid, of ev h rw w] assms show ?thesis by (auto intro: denied [OF valid])
  next
    case True
    then obtain i where i: "authorized ev r h i" ..
    show ?thesis
    proof (cases "h_backend h")
      case None
      with SecretRead_authorized [OF valid i, of rw w] assms show ?thesis by (intro nil_backend [OF valid i None]) auto
    next
      case (Some b)
      obtain res b' w1 where get: "backend_GetSecret (ev_remotes ev) (ev_clock ev 2) (ev_clock ev 3) (read_path r) b w = (res, b', w1)"
        by (cases "backend_GetSecret (ev_remotes ev) (ev_clock ev 2) (ev_clock ev 3) (read_path r) b w")
      note eq = SecretRead_authorized [OF valid i, of rw w, unfolded assms Some get, simplified option.case prod.case Let_def]
      show ?thesis
      proof (cases res)
        case (Inl e)
        then show ?thesis
          using eq get by (intro failed [OF valid i Some, of e b' w1]) (cases e; simp add: slog_def)+
      next
        case (Inr v)
        then show ?thesis
          using eq get by (intro success [OF valid i Some, of v b' w1]) (simp_all add: read_audit_def)
      qed
    qed
  qed
qed


subsection \<open>The cases of a login\<close>

definition auth_body :: "Request \<Rightarrow> loginRequest \<Rightarrow> Identity \<Rightarrow> duration \<Rightarrow> string \<Rightarrow> string \<Rightarrow> body" where
  "auth_body r req i ttl tok acc = BAuth
     \<lparr>ar_RequestID = RequestID r, ar_LeaseID = '''', ar_Renewable = False, ar_LeaseDuration = 0,
      ar_Data = JNull, ar_WrapInfo = JNull, ar_Warnings = JNull,
      ar_Auth = Some \<lparr>au_ClientToken = tok, au_Accessor = acc,
        au_Policies = [''default'', lr_Role req], au_TokenPolicies = [''default'', lr_Role req],
        au_Metadata = [''role'' \<mapsto> lr_Role req, ''service_account_name'' \<mapsto> id_ServiceAccount i,
                       ''service_account_namespace'' \<mapsto> id_Namespace i, ''service_account_uid'' \<mapsto> id_ServiceAccountUID i],
        au_LeaseDuration = seconds ttl, au_Renewable = False, au_EntityID = '''',
        au_TokenType = ''service'', au_Orphan = True\<rparr>\<rparr>"

definition login_audit :: "Request \<Rightarrow> string \<Rightarrow> string \<Rightarrow> string \<Rightarrow> string \<Rightarrow> log_entry" where
  "login_audit r ns sa role res = audit_entry ''login'' (RequestID r) (clientIP r) ns sa role '''' res"

text \<open>The decoded body of a login request with both fields.\<close>

definition login_fields :: "Request \<Rightarrow> loginRequest option" where
  "login_fields r =
     (case req_Body r of
        Inl _ \<Rightarrow> None
      | Inr text \<Rightarrow>
          (case decode_login text of
             None \<Rightarrow> None
           | Some req \<Rightarrow> if lr_JWT req = '''' \<or> lr_Role req = '''' then None else Some req))"

definition reviewed :: "env \<Rightarrow> Handlers \<Rightarrow> loginRequest \<Rightarrow> jwt_error + Identity" where
  "reviewed ev h req = ValidateK8sJWT ((h_validator h)\<lparr>v_reviews := ev_reviews ev\<rparr>) (lr_JWT req)"

lemma Login_bad:
  assumes "login_fields r = None"
  shows "\<exists>msg w'. K8sLoginHandler ev r rw h w = (None, writeError 400 [msg] rw, h, w') \<and>
    w_heap w' = w_heap w \<and> w_log w' = w_log w"
  using assms
  by (auto simp: login_fields_def K8sLoginHandler_def Let_def split: sum.splits option.splits if_splits)

lemma Login_good:
  assumes "login_fields r = Some req"
  shows "\<exists>text. req_Body r = Inr text \<and> decode_login text = Some req" and "lr_JWT req \<noteq> ''''" and "lr_Role req \<noteq> ''''"
  using assms by (auto simp: login_fields_def split: sum.splits option.splits if_splits)

lemma Login_unreviewed:
  assumes "login_fields r = Some req" and "reviewed ev h req = Inl e"
  shows "\<exists>w'. K8sLoginHandler ev r rw h w = (None, writePermissionDenied rw, h, w') \<and>
    w_heap w' = w_heap w \<and> w_log w' = w_log w @ [login_audit r '''' '''' (lr_Role req) ''failure'']"
  using Login_good [OF assms(1)] assms(2)
  by (auto simp: reviewed_def K8sLoginHandler_def Let_def login_audit_def)

lemma Login_unbound:
  assumes "login_fields r = Some req" and "reviewed ev h req = Inr i"
    and "\<not> CheckBinding (h_rbac h) (lr_Role req) (id_Namespace i) (id_ServiceAccount i)"
  shows "\<exists>w'. K8sLoginHandler ev r rw h w = (None, writePermissionDenied rw, h, w') \<and>
    w_heap w' = w_heap w \<and> w_log w' = w_log w @ [login_audit r (id_Namespace i) (id_ServiceAccount i) (lr_Role req) ''failure'']"
  using Login_good [OF assms(1)] assms(2,3)
  by (auto simp: reviewed_def K8sLoginHandler_def Let_def login_audit_def)

lemma Login_bound:
  assumes "login_fields r = Some req" and "reviewed ev h req = Inr i"
    and "CheckBinding (h_rbac h) (lr_Role req) (id_Namespace i) (id_ServiceAccount i)"
    and "IssueToken (ev_rnd1 ev) (ev_rnd2 ev) (ev_clock ev 1) (i\<lparr>id_Role := lr_Role req\<rparr>)
           (ttlForRole h (lr_Role req)) (h_tokens h) = (res, toks)"
  shows "\<exists>w'. K8sLoginHandler ev r rw h w =
      (None, case res of
               Inl _ \<Rightarrow> writePermissionDenied rw
             | Inr (tok, acc) \<Rightarrow> writeJSON 200 (auth_body r req i (ttlForRole h (lr_Role req)) tok acc) rw,
       h\<lparr>h_tokens := toks\<rparr>, w') \<and>
    w_heap w' = w_heap w \<and>
    w_log w' = w_log w @ [login_audit r (id_Namespace i) (id_ServiceAccount i) (lr_Role req)
      (case res of Inl _ \<Rightarrow> ''failure'' | Inr _ \<Rightarrow> ''success'')]"
  using Login_good [OF assms(1)] assms(2-)
  by (cases res)
    (auto simp: reviewed_def K8sLoginHandler_def Let_def login_audit_def auth_body_def split: prod.split)

lemma Login_cases:
  assumes "K8sLoginHandler ev r rw h w = (p, rw', h', w')"
  obtains (bad_request) msg where "login_fields r = None" "p = None" "rw' = writeError 400 [msg] rw" "h' = h"
      "w_heap w' = w_heap w" "w_log w' = w_log w"
  | (denied) req ns sa where "login_fields r = Some req" "p = None" "rw' = writePermissionDenied rw" "h' = h"
      "w_heap w' = w_heap w" "w_log w' = w_log w @ [login_audit r ns sa (lr_Role req) ''failure'']"
  | (success) req i tok acc toks where "login_fields r = Some req" "reviewed ev h req = Inr i"
      "CheckBinding (h_rbac h) (lr_Role req) (id_Namespace i) (id_ServiceAccount i)"
      "IssueToken (ev_rnd1 ev) (ev_rnd2 ev) (ev_clock ev 1) (i\<lparr>id_Role := lr_Role req\<rparr>)
         (ttlForRole h (lr_Role req)) (h_tokens h) = (Inr (tok, acc), toks)"
      "p = None" "rw' = writeJSON 200 (auth_body r req i (ttlForRole h (lr_Role req)) tok acc) rw"
      "h' = h\<lparr>h_tokens := toks\<rparr>" "w_heap w' = w_heap w"
      "w_log w' = w_log w @ [login_audit r (id_Namespace i) (id_ServiceAccount i) (lr_Role req) ''success'']"
proof (cases "login_fields r")
  case None
  with Login_bad [OF None, of ev rw h w] assms show ?thesis by (auto intro: bad_request)
next
  case (Some req)
  show ?thesis
  proof (cases "reviewed ev h req")
    case (Inl e)
    with Login_unreviewed [OF Some Inl, of rw w] assms show ?thesis by (auto intro: denied [OF Some])
  next
    case (Inr i)
    show ?thesis
    proof (cases "CheckBinding (h_rbac h) (lr_Role req) (id_Namespace i) (id_ServiceAccount i)")
      case False
      with Login_unbound [OF Some Inr, of rw w] assms show ?thesis by (auto intro: denied [OF Some])
    next
      case True
      obtain res toks where issue: "IssueToken (ev_rnd1 ev) (ev_rnd2 ev) (ev_clock ev 1) (i\<lparr>id_Role := lr_Role req\<rparr>)
         (ttlForRole h (lr_Role req)) (h_tokens h) = (res, toks)" by fastforce
      note out = Login_bound [OF Some Inr True issue, of rw w]
      show ?thesis
      proof (cases res)
        case (Inl e)
        with issue have "toks = h_tokens h" by (auto dest: IssueToken_refused)
        with out Inl assms show ?thesis by (auto intro: denied [OF Some])
      next
        case (Inr pr)
        obtain tok acc where "pr = (tok, acc)" by (cases pr)
        with out Inr assms issue show ?thesis
          by (intro success [OF Some \<open>reviewed ev h req = Inr i\<close> True, of tok acc toks]) auto
      qed
    qed
  qed
qed

subsection \<open>Properties of single requests\<close>


definition demo_identity :: Identity where
  "demo_identity = \<lparr>id_ServiceAccount = ''web'', id_ServiceAccountUID = ''u1'', id_Namespace = ''opus'', id_Role = ''app''\<rparr>"

definition demo_handlers :: Handlers where
  "demo_handlers =
     \<lparr>h_backend = Some demo_aws,
      h_validator = newValidatorWithReviewer (\<lambda>_ _. Inl ''offline'') [] 0,
      h_tokens = snd (IssueToken (Some [171]) (Some [1]) 5 demo_identity 100 (NewTokenStore 10)),
      h_rbac = NewRBAC [''app'' \<mapsto> \<lparr>AllowedNamespaces = [''opus''], AllowedServiceAccounts = [''*''], AllowedPaths = [''db'']\<rparr>],
      h_metrics = True, h_defaultTokenTTL = 100, h_roleTokenTTL = Map.empty, h_backendHealthCheck = True,
      h_backendCheckTimeout = 5 * Second, h_clusterID = ''c'',
      h_build = \<lparr>bi_Version = ''dev'', bi_GitCommit = ''unknown'', bi_BuildDate = ''unknown'', bi_GoVersion = ''go1.24''\<rparr>\<rparr>"

definition demo_env :: env where
  "demo_env =
     \<lparr>ev_clock = (\<lambda>n. 10 + int n), ev_remotes = demo_remotes, ev_reviews = (\<lambda>_ _. Inl ''offline''),
      ev_rnd1 = Some [171], ev_rnd2 = Some [1], ev_order = [''value'']\<rparr>"

definition demo_read :: "string \<Rightarrow> string \<Rightarrow> Request" where
  "demo_read path tok =
     \<lparr>req_Method = ''GET'', req_Path = ''/v1/secret/data/'' @ path, req_EscapedPath = ''/v1/secret/data/'' @ path,
      req_RawQuery = '''',
      req_Header = (\<lambda>k. if k = ''X-Vault-Token'' then tok else ''''), req_RemoteAddr = ''10.0.0.1:4711'',
      req_Body = Inr '''', req_PathValue = path, req_ctx = Some ''rid''\<rparr>"

lemma demo_path: "read_path (demo_read ''db'' tok) = ''db''" "Validate ''db'' = Inr ()"
proof -
  show "read_path (demo_read ''db'' tok) = ''db''"
    by (simp add: read_path_def demo_read_def TrimPrefix_def HasPrefix_def)
  show "Validate ''db'' = Inr ()" by code_simp
qed

lemma demo_unauthorized: "\<not> authorized demo_env (demo_read ''db'' ''zz'') demo_handlers i"
proof -
  have "randomHex (Some [171]) = Some ''ab''" by code_simp
  then have "VerifyToken t ''zz'' (h_tokens demo_handlers) = None" for t
    by (simp add: demo_handlers_def IssueToken_def NewTokenStore_def randomHex_def VerifyToken_def lookupConstantTime_def Let_def)
  then show ?thesis by (simp add: authorized_def demo_read_def)
qed



text \<open>
  C9. Every denial looks the same. Whenever a read or a login answers 403, for a bad token, an
  uncovered path, a failed review, a role that is unknown or not bound, a full token quota or
  a failed random source, the response is one and the same function of the blank response: same
  status, headers and body. No token was issued and the handler's state is unchanged.
\<close>

theorem denials_are_uniform:
  assumes "K8sLoginHandler ev r rw h w = (p, rw1, h1, w1)" and "response_status rw1 = Some 403"
    and "SecretReadHandler ev' r' rw h' w' = (q, rw2, h2, w2)" and "response_status rw2 = Some 403"
    and "rw_sent rw = None"
  shows "rw1 = rw2 \<and> rw_body rw1 = rw_body rw @ [BError \<lparr>er_Errors = [''permission denied'']\<rparr>] \<and> h1 = h \<and> h2 = h'"
proof -
  have login: "rw1 = writePermissionDenied rw \<and> h1 = h"
    using assms(1) by (cases rule: Login_cases) (use assms(2,5) in auto)
  have "rw2 = writePermissionDenied rw \<and> h2 = h'"
    using assms(3)
  proof (cases rule: SecretRead_cases)
    case (failed i b b' w1 e)
    with assms(4,5) show ?thesis by (cases e) auto
  qed (use assms(4,5) in auto)
  with login assms(5) show ?thesis
    by (simp add: writePermissionDenied_def writeError_def msgPermissionDenied_def)
qed

definition demo_login :: "string \<Rightarrow> Request" where
  "demo_login text =
     \<lparr>req_Method = ''POST'', req_Path = ''/v1/auth/kubernetes/login'', req_EscapedPath = ''/v1/auth/kubernetes/login'',
      req_RawQuery = '''', req_Header = (\<lambda>_. ''''),
      req_RemoteAddr = ''10.0.0.1:4711'', req_Body = Inr text, req_PathValue = '''', req_ctx = Some ''rid''\<rparr>"

definition demo_login_text :: string where
  "demo_login_text = ''{\"jwt\":\"j\",\"role\":\"app\"}''"

lemma demo_login_decodes: "decode_login demo_login_text = Some \<lparr>lr_JWT = ''j'', lr_Role = ''app''\<rparr>"
proof -
  have "map_option (\<lambda>f. (f ''jwt'', f ''role'')) (Unmarshal_strings [''jwt'', ''role''] demo_login_text) = Some (''j'', ''app'')"
    unfolding demo_login_text_def by code_simp
  then show ?thesis by (auto simp: decode_login_def)
qed

lemma demo_login_fields: "login_fields (demo_login demo_login_text) = Some \<lparr>lr_JWT = ''j'', lr_Role = ''app''\<rparr>"
  by (simp add: login_fields_def demo_login_def demo_login_decodes)

lemma demo_jwt_visible: "TrimSpace ''j'' = ''j''"
  by (rule TrimSpace_visible) (simp_all add: code_def IsSpace_def)

theorem denials_are_uniform_witness:
  "\<exists>p rw1 h1 w1 q rw2 h2 w2.
     K8sLoginHandler demo_env (demo_login demo_login_text) new_response demo_handlers demo_world = (p, rw1, h1, w1) \<and>
     SecretReadHandler demo_env (demo_read ''db'' ''zz'') new_response demo_handlers demo_world = (q, rw2, h2, w2) \<and>
     rw1 = rw2 \<and> h1 = demo_handlers"
proof -
  let ?req = "\<lparr>lr_JWT = ''j'', lr_Role = ''app''\<rparr>"
  have fresh: "rw_sent new_response = None" by (simp add: new_response_def)
  have "reviewed demo_env demo_handlers ?req = Inl (TokenReviewFailed ''offline'')"
    by (simp add: reviewed_def demo_env_def demo_handlers_def newValidatorWithReviewer_def ValidateK8sJWT_def demo_jwt_visible Let_def)
  from Login_unreviewed [OF demo_login_fields this, of new_response demo_world]
  obtain w1 where login: "K8sLoginHandler demo_env (demo_login demo_login_text) new_response demo_handlers demo_world =
      (None, writePermissionDenied new_response, demo_handlers, w1)" by auto
  from SecretRead_denied [of "demo_read ''db'' ''zz''" demo_env demo_handlers new_response demo_world]
  obtain w2 where read: "SecretReadHandler demo_env (demo_read ''db'' ''zz'') new_response demo_handlers demo_world =
      (None, writePermissionDenied new_response, demo_handlers, w2)"
    using demo_unauthorized by (auto simp: demo_path)
  from denials_are_uniform [OF login _ read _ fresh] login read fresh show ?thesis by simp
qed

subsection \<open>The state between requests\<close>

definition handlers_ok :: "Handlers \<Rightarrow> mheap \<Rightarrow> bool" where
  "handlers_ok h hp \<longleftrightarrow> store_inv (h_tokens h) \<and> (case h_backend h of None \<Rightarrow> True | Some b \<Rightarrow> backend_ok b hp)"

lemma clearMap_None [simp]: "clearMap order None h = h"
  by (simp add: clearMap_def)

lemma clearMap_Some: "clearMap order (Some a) h = write_map a (clear_loop order (cells h a)) h"
  by (simp add: clearMap_def)

lemma read_success_backend:
  assumes "backend_ok b (w_heap w)" and "backend_GetSecret rs t1 t2 path b w = (Inr v, b', w1)"
  shows "backend_ok b' (clearMap order v (w_heap w1))"
    and "backend_view b' (clearMap order v (w_heap w1)) = backend_view b' (w_heap w1)"
  using be.erase_result [OF assms(1)] be.keeps [OF assms] assms(2)
  by (cases v; simp add: clearMap_Some)+

lemma handlers_ok_read [inv_intros]:
  assumes "handlers_ok h (w_heap w)" and "SecretReadHandler ev r rw h w = (p, rw', h', w')"
  shows "handlers_ok h' (w_heap w')"
  using assms(2)
proof (cases rule: SecretRead_cases)
  case (failed i b b' w1 e)
  with assms(1) be.keeps [OF _ failed(4)] show ?thesis by (simp add: handlers_ok_def)
next
  case (success i b b' w1 v)
  with assms(1) read_success_backend(1) [OF _ success(4)] show ?thesis by (simp add: handlers_ok_def)
qed (use assms(1) in simp_all)

lemma handlers_ok_login [inv_intros]:
  assumes "handlers_ok h (w_heap w)" and "K8sLoginHandler ev r rw h w = (p, rw', h', w')"
  shows "handlers_ok h' (w_heap w')"
  using assms(2)
proof (cases rule: Login_cases)
  case (success req i tok acc toks)
  then have "store_inv toks"
    using assms(1) tokens.issue_ok [of "h_tokens h" "ev_rnd1 ev" "ev_rnd2 ev" "ev_clock ev 1" "i\<lparr>id_Role := lr_Role req\<rparr>"
        "ttlForRole h (lr_Role req)"] by (simp add: handlers_ok_def)
  with success assms(1) show ?thesis by (simp add: handlers_ok_def)
qed (use assms(1) in simp_all)

text \<open>
  C7. A successful read was authorized and returns the right data. The path passed the allowlist,
  the presented token verified at that moment to an identity that is bound to its role and has a
  pattern for the path, and the data in the body are what the backend's cache held for that path
  or, without a live entry, what the remote store answered. The only line logged is the audit
  line, which depends on the request and the identity but not on the data. Afterwards the map
  that held the data has been emptied while every cached answer is what it was.
\<close>

theorem read_success:
  assumes "SecretReadHandler ev r rw h w = (p, rw', h', w')" and "rw_sent rw = None" and "handlers_ok h (w_heap w)"
    and "response_status rw' = Some 200"
  shows "\<exists>i b b' hp v. Validate (read_path r) = Inr () \<and>
    VerifyToken (ev_clock ev 1) (req_Header r ''X-Vault-Token'') (h_tokens h) = Some i \<and>
    CheckAccess (h_rbac h) (Some i) (read_path r) \<and>
    h_backend h = Some b \<and> h_backend h' = Some b' \<and>
    rw_body rw' = rw_body rw @ [secret_body ev r (map_option (cells hp) v)] \<and>
    (backend_view b (w_heap w) (ev_clock ev 2) (read_path r) = Present (deref hp v) \<or>
     backend_view b (w_heap w) (ev_clock ev 2) (read_path r) = Miss \<and>
     (\<exists>m. backend_answer (ev_remotes ev) b (read_path r) = Value m \<and> deref hp v = alloc_deref m)) \<and>
    w_log w' = w_log w @ [read_audit r i ''success''] \<and>
    backend_view b' (w_heap w') = backend_view b' hp \<and>
    (enumerates (ev_order ev) (deref hp v) \<longrightarrow> deref (w_heap w') v = Map.empty)"
  using assms(1)
proof (cases rule: SecretRead_cases)
  case (success i b b' w1 v)
  have ok: "backend_ok b (w_heap w)" using assms(3) success(3) by (simp add: handlers_ok_def)
  have res: "result_ok (backend_view b (w_heap w) (ev_clock ev 2) (read_path r))
      (backend_answer (ev_remotes ev) b (read_path r)) (w_heap w1) (Inr v)"
    using be.result [OF ok success(4)] .
  have data: "backend_view b (w_heap w) (ev_clock ev 2) (read_path r) = Present (deref (w_heap w1) v) \<or>
     backend_view b (w_heap w) (ev_clock ev 2) (read_path r) = Miss \<and>
     (\<exists>m. backend_answer (ev_remotes ev) b (read_path r) = Value m \<and> deref (w_heap w1) v = alloc_deref m)"
    using res by (auto simp: result_ok_def split: answer.splits outcome.splits)
  have "w_log w1 = w_log w" using be.silent [OF success(4)] .
  moreover have "deref (w_heap w') v = Map.empty" if "enumerates (ev_order ev) (deref (w_heap w1) v)"
    using that success(8) clear_loop_empties
    by (cases v) (auto simp: clearMap_Some deref_def write_map_def)
  ultimately show ?thesis
    using success data read_success_backend(2) [OF ok success(4)] assms(2)
    by (intro exI [of _ i] exI [of _ b] exI [of _ b'] exI [of _ "w_heap w1"] exI [of _ v])
      (simp add: authorized_def)
next
  case (failed i b b' w1 e)
  with assms(2,4) show ?thesis by (cases e) auto
qed (use assms(2,4) in auto)

lemma demo_handlers_ok: "handlers_ok demo_handlers (w_heap demo_world)"
proof -
  have "store_inv (h_tokens demo_handlers)"
    by (simp add: demo_handlers_def) (intro tokens.issue_ok inv_intros)
  then show ?thesis
    by (simp add: handlers_ok_def) (simp add: demo_handlers_def demo_aws_def aws_newWithClient_def aws_ok_def new_cache_ok)
qed

lemma demo_authorized: "authorized demo_env (demo_read ''db'' ''ab'') demo_handlers demo_identity"
proof -
  have hex: "randomHex (Some [171]) = Some ''ab''" "randomHex (Some [1]) = Some ''01''" by code_simp+
  have "VerifyToken 11 ''ab'' (h_tokens demo_handlers) = Some demo_identity"
    by (simp add: demo_handlers_def IssueToken_def NewTokenStore_def hex VerifyToken_def lookupConstantTime_def
        ConstantTimeCompare_def active_count_def Let_def)
  moreover have "CheckAccess (h_rbac demo_handlers) (Some demo_identity) ''db''"
    unfolding demo_handlers_def demo_identity_def by code_simp
  ultimately show ?thesis
    by (simp add: authorized_def demo_path) (simp add: demo_read_def demo_env_def)
qed

lemma demo_get_ok:
  assumes "backend_ok demo_aws (w_heap w)"
  shows "\<exists>v b' w1. backend_GetSecret demo_remotes 12 13 ''db'' demo_aws w = (Inr v, b', w1)"
    and "backend_view demo_aws (w_heap w) t ''db'' = Miss"
    and "backend_answer demo_remotes demo_aws ''db'' = Value (Some [''value'' \<mapsto> ''plain''])"
proof -
  obtain res b' w1 where get: "backend_GetSecret demo_remotes 12 13 ''db'' demo_aws w = (res, b', w1)"
    by (cases "backend_GetSecret demo_remotes 12 13 ''db'' demo_aws w")
  show view: "backend_view demo_aws (w_heap w) t ''db'' = Miss" for t
    by (simp add: demo_aws_def aws_newWithClient_def aws_view_def new_cache_misses)
  have "Unmarshal_map ''plain'' = None"
    by (simp add: Unmarshal_map_def parse_json_def dispatch_def code_def digit19_def)
  then show ans: "backend_answer demo_remotes demo_aws ''db'' = Value (Some [''value'' \<mapsto> ''plain''])"
    by (simp add: demo_aws_def demo_remotes_def aws_answer_def aws_fetch_def parseSecret_def)
  show "\<exists>v b' w1. backend_GetSecret demo_remotes 12 13 ''db'' demo_aws w = (Inr v, b', w1)"
    using be.result [OF assms get] view ans get by (auto simp: result_ok_def)
qed

lemma demo_read_ok:
  assumes "h_backend h = Some demo_aws" and "authorized demo_env (demo_read ''db'' ''ab'') h i" and "handlers_ok h (w_heap w)"
  shows "\<exists>rw' h' w'. SecretReadHandler demo_env (demo_read ''db'' ''ab'') new_response h w = (None, rw', h', w') \<and>
    response_status rw' = Some 200 \<and> backend_view demo_aws (w_heap w) 12 ''db'' = Miss \<and>
    backend_answer demo_remotes demo_aws ''db'' = Value (Some [''value'' \<mapsto> ''plain''])"
proof -
  let ?r = "demo_read ''db'' ''ab''"
  have fresh: "rw_sent new_response = None" by (simp add: new_response_def)
  have valid: "Validate (read_path ?r) = Inr ()" by (simp add: demo_path)
  have ok: "backend_ok demo_aws (w_heap w)" using assms(1,3) by (simp add: handlers_ok_def)
  obtain v b' w1 where get: "backend_GetSecret demo_remotes 12 13 ''db'' demo_aws w = (Inr v, b', w1)"
    using demo_get_ok(1) [OF ok] by auto
  show ?thesis
    using SecretRead_authorized [OF valid assms(2), of new_response w] get assms(1) fresh demo_get_ok(2,3) [OF ok]
    by (auto simp: demo_path demo_env_def Let_def)
qed

theorem read_success_witness:
  "\<exists>p rw' h' w' data. SecretReadHandler demo_env (demo_read ''db'' ''ab'') new_response demo_handlers demo_world = (p, rw', h', w') \<and>
     response_status rw' = Some 200 \<and> rw_body rw' = [secret_body demo_env (demo_read ''db'' ''ab'') data] \<and>
     alloc_deref data = [''value'' \<mapsto> ''plain'']"
proof -
  let ?r = "demo_read ''db'' ''ab''"
  have fresh: "rw_sent new_response = None" "rw_body new_response = []" by (simp_all add: new_response_def)
  have be: "h_backend demo_handlers = Some demo_aws" by (simp add: demo_handlers_def)
  obtain rw' h' w' where run: "SecretReadHandler demo_env ?r new_response demo_handlers demo_world = (None, rw', h', w')"
    and status: "response_status rw' = Some 200" and view: "backend_view demo_aws (w_heap demo_world) 12 ''db'' = Miss"
    and ans: "backend_answer demo_remotes demo_aws ''db'' = Value (Some [''value'' \<mapsto> ''plain''])"
    using demo_read_ok [OF be demo_authorized demo_handlers_ok] by auto
  obtain hp u where "rw_body rw' = [secret_body demo_env ?r (map_option (cells hp) u)]"
    and "deref hp u = [''value'' \<mapsto> ''plain'']"
    using read_success [OF run fresh(1) demo_handlers_ok status] view ans be fresh(2)
    by (auto simp: demo_path demo_env_def alloc_deref_def)
  moreover from this(2) have "alloc_deref (map_option (cells hp) u) = [''value'' \<mapsto> ''plain'']"
    by (cases u) (auto simp: alloc_deref_def deref_def)
  ultimately show ?thesis using run status by blast
qed

text \<open>
  C11. The status of a login: 400 exactly when the body cannot be read, is not a JSON object with
  string fields or lacks the token or the role; 200 exactly when the API server authenticated
  the token as a service account that the requested role admits, the account has quota left and
  random bytes could be read; 403 in every other case.
\<close>

theorem login_decision:
  assumes "K8sLoginHandler ev r rw h w = (p, rw', h', w')" and "rw_sent rw = None"
  shows "(response_status rw' = Some 400) = (login_fields r = None) \<and>
    (response_status rw' = Some 200) =
      (\<exists>req i tok acc toks. login_fields r = Some req \<and> reviewed ev h req = Inr i \<and>
         CheckBinding (h_rbac h) (lr_Role req) (id_Namespace i) (id_ServiceAccount i) \<and>
         IssueToken (ev_rnd1 ev) (ev_rnd2 ev) (ev_clock ev 1) (i\<lparr>id_Role := lr_Role req\<rparr>)
           (ttlForRole h (lr_Role req)) (h_tokens h) = (Inr (tok, acc), toks)) \<and>
    p = None \<and> the (response_status rw') \<in> {200, 400, 403}"
  using assms(1)
proof (cases rule: Login_cases)
  case (denied req ns sa)
  have "\<not> (\<exists>i tok acc toks. reviewed ev h req = Inr i \<and>
      CheckBinding (h_rbac h) (lr_Role req) (id_Namespace i) (id_ServiceAccount i) \<and>
      IssueToken (ev_rnd1 ev) (ev_rnd2 ev) (ev_clock ev 1) (i\<lparr>id_Role := lr_Role req\<rparr>)
        (ttlForRole h (lr_Role req)) (h_tokens h) = (Inr (tok, acc), toks))"
  proof
    assume "\<exists>i tok acc toks. reviewed ev h req = Inr i \<and>
      CheckBinding (h_rbac h) (lr_Role req) (id_Namespace i) (id_ServiceAccount i) \<and>
      IssueToken (ev_rnd1 ev) (ev_rnd2 ev) (ev_clock ev 1) (i\<lparr>id_Role := lr_Role req\<rparr>)
        (ttlForRole h (lr_Role req)) (h_tokens h) = (Inr (tok, acc), toks)"
    then obtain i tok acc toks where "reviewed ev h req = Inr i"
      "CheckBinding (h_rbac h) (lr_Role req) (id_Namespace i) (id_ServiceAccount i)"
      "IssueToken (ev_rnd1 ev) (ev_rnd2 ev) (ev_clock ev 1) (i\<lparr>id_Role := lr_Role req\<rparr>)
        (ttlForRole h (lr_Role req)) (h_tokens h) = (Inr (tok, acc), toks)" by blast
    from Login_bound [OF denied(1) this, of rw w] assms denied(3)
    have "writePermissionDenied rw = writeJSON 200 (auth_body r req i (ttlForRole h (lr_Role req)) tok acc) rw" by auto
    from arg_cong [OF this, of response_status] assms(2) show False by simp
  qed
  with denied assms(2) show ?thesis by auto
next
  case (success req i tok acc toks)
  with assms(2) show ?thesis by auto
qed (use assms(2) in auto)

theorem login_decision_witness:
  "\<exists>rw' h' w'. K8sLoginHandler demo_env (demo_login ''[]'') new_response demo_handlers demo_world = (None, rw', h', w') \<and>
     response_status rw' = Some 400"
proof -
  have "Unmarshal_strings [''jwt'', ''role''] ''[]'' = None"
    by (simp add: Unmarshal_strings_def parse_json_def dispatch_def code_def digit19_def push_frame_def)
  then have none: "login_fields (demo_login ''[]'') = None"
    by (simp add: login_fields_def demo_login_def decode_login_def)
  obtain p rw' h' w' where run: "K8sLoginHandler demo_env (demo_login ''[]'') new_response demo_handlers demo_world = (p, rw', h', w')"
    by (cases "K8sLoginHandler demo_env (demo_login ''[]'') new_response demo_handlers demo_world") auto
  from login_decision [OF run] none run show ?thesis by (auto simp: new_response_def)
qed

text \<open>
  C8. A successful login means that a TokenReview of exactly the presented token, for the
  configured audiences, came back authenticated with the username of a service account that the
  role admits. The token in the body is fresh from the random source, it verifies to that
  account in that role up to the role's time to live and not longer, the lease duration is that
  time in seconds, and every other token is as valid as before. The audit line names the account
  and the role and not the token.
\<close>

theorem login_success:
  assumes "K8sLoginHandler ev r rw h w = (p, rw', h', w')" and "rw_sent rw = None" and "store_inv (h_tokens h)"
    and "response_status rw' = Some 200"
  shows "\<exists>req i tok acc status. login_fields r = Some req \<and>
    ev_reviews ev (v_timeout (h_validator h)) \<lparr>spec_Token = lr_JWT req, spec_Audiences = v_audience (h_validator h)\<rparr> = Inr status \<and>
    st_Authenticated status \<and>
    st_Username status = ''system:serviceaccount:'' @ id_Namespace i @ '':'' @ id_ServiceAccount i \<and>
    CheckBinding (h_rbac h) (lr_Role req) (id_Namespace i) (id_ServiceAccount i) \<and> id_Role i = lr_Role req \<and>
    randomHex (ev_rnd1 ev) = Some tok \<and>
    rw_body rw' = rw_body rw @ [auth_body r req i (ttlForRole h (lr_Role req)) tok acc] \<and>
    (\<forall>t. VerifyToken t tok (h_tokens h') = (if t \<le> ev_clock ev 1 + ttlForRole h (lr_Role req) then Some i else None)) \<and>
    (\<forall>t tok'. tok' \<noteq> tok \<longrightarrow> VerifyToken t tok' (h_tokens h') = VerifyToken t tok' (h_tokens h)) \<and>
    w_log w' = w_log w @ [login_audit r (id_Namespace i) (id_ServiceAccount i) (lr_Role req) ''success'']"
  using assms(1)
proof (cases rule: Login_cases)
  case (success req i tok acc toks)
  let ?i = "i\<lparr>id_Role := lr_Role req\<rparr>"
  obtain status where st: "ev_reviews ev (v_timeout (h_validator h)) \<lparr>spec_Token = lr_JWT req, spec_Audiences = v_audience (h_validator h)\<rparr> = Inr status"
    "st_Authenticated status" "st_Username status = ''system:serviceaccount:'' @ id_Namespace i @ '':'' @ id_ServiceAccount i"
    using success(2) by (auto simp: reviewed_def ValidateK8sJWT_ok review_spec_def parse_username_ok sa_prefix_def)
  have hex: "randomHex (ev_rnd1 ev) = Some tok"
    using tokens.issue_view [OF assms(3) success(4)] by simp
  have body: "auth_body r req ?i ttl tok acc = auth_body r req i ttl tok acc" for ttl
    by (simp add: auth_body_def)
  show ?thesis
    by (intro exI [of _ req] exI [of _ ?i] exI [of _ tok] exI [of _ acc] exI [of _ status])
      (use st hex success assms(2) tokens.issued_token_verifies [OF assms(3) success(4)]
        tokens.issue_keeps_others [OF assms(3) success(4)] in \<open>simp add: body\<close>)
qed (use assms(2,4) in auto)

definition demo_reviews :: tokenReviewer where
  "demo_reviews = (\<lambda>_ s. Inr \<lparr>st_Authenticated = spec_Token s = ''j'',
     st_Username = ''system:serviceaccount:opus:web'', st_UID = ''u1''\<rparr>)"

definition demo_login_env :: env where
  "demo_login_env = demo_env\<lparr>ev_reviews := demo_reviews\<rparr>"

definition demo_start :: Handlers where
  "demo_start = demo_handlers\<lparr>h_tokens := NewTokenStore 10\<rparr>"

lemma demo_start_fields [simp]:
  "h_tokens demo_start = NewTokenStore 10" "h_rbac demo_start = h_rbac demo_handlers"
  "h_validator demo_start = h_validator demo_handlers" "h_backend demo_start = h_backend demo_handlers"
  "ttlForRole demo_start role = 100"
  by (simp_all add: demo_start_def ttlForRole_def) (simp_all add: demo_handlers_def)

lemma demo_login_env_fields [simp]:
  "ev_rnd1 demo_login_env = Some [171]" "ev_rnd2 demo_login_env = Some [1]" "ev_clock demo_login_env n = 10 + int n"
  "ev_reviews demo_login_env = demo_reviews"
  by (simp_all add: demo_login_env_def demo_env_def)

lemma demo_hex: "randomHex (Some [171]) = Some ''ab''" "randomHex (Some [1]) = Some ''01''"
  by code_simp+

lemma demo_reviewed:
  "reviewed demo_login_env h \<lparr>lr_JWT = ''j'', lr_Role = role\<rparr> = Inr (demo_identity\<lparr>id_Role := ''''\<rparr>)"
proof -
  have "parseServiceAccountUsername ''system:serviceaccount:opus:web'' = Inr (''opus'', ''web'')"
    by (simp add: parse_username_ok sa_prefix_def)
  then show ?thesis
    by (simp add: reviewed_def ValidateK8sJWT_ok review_spec_def demo_reviews_def demo_jwt_visible demo_identity_def)
qed

lemma demo_bound: "CheckBinding (h_rbac demo_start) ''app'' ''opus'' ''web''"
  by (simp add: demo_handlers_def) code_simp

lemma demo_login_ok:
  "\<exists>rw' toks w'. K8sLoginHandler demo_login_env (demo_login demo_login_text) new_response demo_start demo_world =
     (None, rw', demo_start\<lparr>h_tokens := toks\<rparr>, w') \<and> response_status rw' = Some 200 \<and>
     w_heap w' = w_heap demo_world \<and> VerifyToken 11 ''ab'' toks = Some demo_identity"
proof -
  let ?req = "\<lparr>lr_JWT = ''j'', lr_Role = ''app''\<rparr>"
  let ?i = "demo_identity\<lparr>id_Role := ''''\<rparr>"
  have bind: "CheckBinding (h_rbac demo_start) (lr_Role ?req) (id_Namespace ?i) (id_ServiceAccount ?i)"
    using demo_bound by (simp add: demo_identity_def)
  obtain toks where issue: "IssueToken (ev_rnd1 demo_login_env) (ev_rnd2 demo_login_env) (ev_clock demo_login_env 1)
      (?i\<lparr>id_Role := lr_Role ?req\<rparr>) (ttlForRole demo_start (lr_Role ?req)) (h_tokens demo_start) = (Inr (''ab'', ''01''), toks)"
    by (simp add: IssueToken_def NewTokenStore_def demo_hex active_count_def)
  have inv: "store_inv (h_tokens demo_start)" by (auto intro: inv_intros)
  have "VerifyToken 11 ''ab'' toks = Some demo_identity"
    using tokens.issued_token_verifies [OF inv issue, of 11] by (simp add: demo_identity_def)
  moreover have "rw_sent new_response = None" by (simp add: new_response_def)
  ultimately show ?thesis
    using Login_bound [OF demo_login_fields demo_reviewed bind issue, of new_response demo_world] by auto
qed

theorem login_success_witness:
  "\<exists>rw' h' w'. K8sLoginHandler demo_login_env (demo_login demo_login_text) new_response demo_start demo_world = (None, rw', h', w') \<and>
     response_status rw' = Some 200 \<and> VerifyToken 111 ''ab'' (h_tokens h') \<noteq> None \<and> VerifyToken 112 ''ab'' (h_tokens h') = None"
proof -
  obtain rw' h' w' where run: "K8sLoginHandler demo_login_env (demo_login demo_login_text) new_response demo_start demo_world = (None, rw', h', w')"
    and status: "response_status rw' = Some 200" using demo_login_ok by auto
  have fresh: "rw_sent new_response = None" by (simp add: new_response_def)
  have inv: "store_inv (h_tokens demo_start)" by (auto intro: inv_intros)
  from login_success [OF run fresh inv status] run status show ?thesis
    by (auto simp: demo_hex)
qed

text \<open>
  The health endpoint answers 503 and reports the gateway as sealed exactly when backend
  checks are on, a backend is configured and its check fails; otherwise 200 and unsealed. It
  never touches tokens, cache or heap.
\<close>

theorem health_reports_backend:
  assumes "HealthHandler ev r rw h w = (p, rw', h', w')" and "rw_sent rw = None"
    and "unhealthy = (case h_backend h of None \<Rightarrow> False
           | Some b \<Rightarrow> h_backendHealthCheck h \<and> fst (backend_HealthCheck (ev_remotes ev) b w) \<noteq> None)"
  shows "response_status rw' = Some (if unhealthy then 503 else 200) \<and>
    (\<exists>hr. rw_body rw' = rw_body rw @ [BHealth hr] \<and> hr_Sealed hr = unhealthy) \<and>
    p = None \<and> h' = h"
proof (cases "h_backend h")
  case None
  with assms show ?thesis by (auto simp: HealthHandler_def Let_def)
next
  case (Some b)
  obtain e w1 where check: "backend_HealthCheck (ev_remotes ev) b w = (e, w1)"
    by (cases "backend_HealthCheck (ev_remotes ev) b w")
  with Some assms show ?thesis
    by (cases e; cases "h_backendHealthCheck h") (auto simp: HealthHandler_def Let_def)
qed

theorem health_reports_backend_witness:
  "\<exists>rw' h' w'. HealthHandler demo_env (demo_login '''') new_response demo_handlers demo_world = (None, rw', h', w') \<and>
     response_status rw' = Some 200"
proof -
  obtain p rw' h' w' where run: "HealthHandler demo_env (demo_login '''') new_response demo_handlers demo_world = (p, rw', h', w')"
    by (cases "HealthHandler demo_env (demo_login '''') new_response demo_handlers demo_world") auto
  have "rw_sent new_response = None" by (simp add: new_response_def)
  from health_reports_backend [OF run this refl] run show ?thesis
    by (auto simp: demo_handlers_def demo_aws_def demo_env_def demo_remotes_def aws_HealthCheck_def)
qed

end
