(* ===== verification/Gateway_Run.thy ===== *)
theory Gateway_Run
  imports Api_Properties
begin

text \<open>
  The gateway over time: requests to the API handlers and ticks of the token cleanup of
  cmd/vault-gateway/main.go, in any order, each one step on the shared state. Requests that overlap
  are the subject of Gateway_Steps, where a step is one locked operation.
\<close>

subsection \<open>The cleanup loop\<close>

definition cleanup_interval :: "duration \<Rightarrow> duration" where
  "cleanup_interval interval = (if interval \<le> 0 then 60 * Second else interval)"

text \<open>One tick: purge the expired tokens and refresh the gauge.\<close>

definition cleanup_tick :: "string list \<Rightarrow> time \<Rightarrow> bool \<Rightarrow> TokenStore \<Rightarrow> world \<Rightarrow> TokenStore \<times> world" where
  "cleanup_tick order now m s w =
     (let (_, s) = CleanupExpired order now s in
      (s, if m then w\<lparr>w_metrics := (w_metrics w)\<lparr>m_ActiveTokens := TokenCount s\<rparr>\<rparr> else w))"

text \<open>
  The goroutine of \<open>startTokenCleanup\<close>, as it consumes ticks until the context is cancelled or
  the stop function closes its channel; the flag says whether it still runs.
\<close>

datatype cleanup_event = Tick "string list" time | CleanupCtxDone | CleanupStopped

fun startTokenCleanup :: "cleanup_event list \<Rightarrow> bool \<Rightarrow> TokenStore \<Rightarrow> world \<Rightarrow> bool \<times> TokenStore \<times> world" where
  "startTokenCleanup [] m s w = (True, s, w)"
| "startTokenCleanup (Tick order now # evs) m s w =
     (case cleanup_tick order now m s w of (s, w) \<Rightarrow> startTokenCleanup evs m s w)"
| "startTokenCleanup (CleanupCtxDone # evs) m s w = (False, s, w)"
| "startTokenCleanup (CleanupStopped # evs) m s w = (False, s, w)"

subsection \<open>Histories\<close>

datatype event =
    Login env Request
  | Read env Request
  | Health env Request
  | Sweep "string list" time

fun gw_step :: "event \<Rightarrow> Handlers \<times> world \<Rightarrow> Handlers \<times> world" where
  "gw_step (Login ev r) (h, w) = snd (snd (K8sLoginHandler ev r new_response h w))"
| "gw_step (Read ev r) (h, w) = snd (snd (SecretReadHandler ev r new_response h w))"
| "gw_step (Health ev r) (h, w) = snd (snd (HealthHandler ev r new_response h w))"
| "gw_step (Sweep order now) (h, w) =
     (case cleanup_tick order now (h_metrics h) (h_tokens h) w of (s, w) \<Rightarrow> (h\<lparr>h_tokens := s\<rparr>, w))"

definition gw_run :: "event list \<Rightarrow> Handlers \<times> world \<Rightarrow> Handlers \<times> world" where
  "gw_run evs s = fold gw_step evs s"

lemma gw_run_snoc: "gw_run (evs @ [e]) s = gw_step e (gw_run evs s)"
  by (simp add: gw_run_def)

text \<open>What no request changes.\<close>

definition same_config :: "Handlers \<Rightarrow> Handlers \<Rightarrow> bool" where
  "same_config h h' \<longleftrightarrow> h_rbac h' = h_rbac h \<and> h_validator h' = h_validator h \<and>
     h_defaultTokenTTL h' = h_defaultTokenTTL h \<and> h_roleTokenTTL h' = h_roleTokenTTL h"

lemma cleanup_tick_fields:
  "cleanup_tick order now m s w = (s', w') \<Longrightarrow> s' = snd (CleanupExpired order now s) \<and> w_heap w' = w_heap w \<and> w_log w' = w_log w"
  by (auto simp: cleanup_tick_def split: prod.splits)

lemma HealthHandler_fields:
  "HealthHandler ev r rw h w = (p, rw', h', w') \<Longrightarrow> h' = h \<and> w_heap w' = w_heap w"
proof (cases "h_backend h")
  case (Some b)
  assume run: "HealthHandler ev r rw h w = (p, rw', h', w')"
  have "w_heap (snd (backend_HealthCheck rs b w)) = w_heap w" for rs
    by (cases b) (auto simp: aws_HealthCheck_def vault_HealthCheck_def gcp_HealthCheck_def split: option.split sum.split)
  from this [of "ev_remotes ev"] run Some show ?thesis
    by (auto simp: HealthHandler_def Let_def split: prod.splits option.splits if_splits)
qed (auto simp: HealthHandler_def)

lemma gw_step_keeps:
  assumes "gw_step e (h, w) = (h', w')"
  shows "same_config h h'" and "handlers_ok h (w_heap w) \<Longrightarrow> handlers_ok h' (w_heap w')"
proof -
  have "same_config h h' \<and> (handlers_ok h (w_heap w) \<longrightarrow> handlers_ok h' (w_heap w'))"
  proof (cases e)
    case (Login ev r)
    then obtain p rw' where run: "K8sLoginHandler ev r new_response h w = (p, rw', h', w')"
      using assms by (cases "K8sLoginHandler ev r new_response h w") auto
    then have "same_config h h'" by (cases rule: Login_cases) (auto simp: same_config_def)
    with handlers_ok_login [OF _ run] show ?thesis by blast
  next
    case (Read ev r)
    then obtain p rw' where run: "SecretReadHandler ev r new_response h w = (p, rw', h', w')"
      using assms by (cases "SecretReadHandler ev r new_response h w") auto
    then have "same_config h h'" by (cases rule: SecretRead_cases) (auto simp: same_config_def)
    with handlers_ok_read [OF _ run] show ?thesis by blast
  next
    case (Health ev r)
    then obtain p rw' where run: "HealthHandler ev r new_response h w = (p, rw', h', w')"
      using assms by (cases "HealthHandler ev r new_response h w") auto
    from HealthHandler_fields [OF run] show ?thesis by (simp add: same_config_def)
  next
    case (Sweep order now)
    obtain s w1 where tick: "cleanup_tick order now (h_metrics h) (h_tokens h) w = (s, w1)"
      by (cases "cleanup_tick order now (h_metrics h) (h_tokens h) w")
    with Sweep assms have eq: "h' = h\<lparr>h_tokens := s\<rparr>" "w' = w1" by auto
    with cleanup_tick_fields [OF tick] tokens.sweep_ok [of "h_tokens h" order now]
    show ?thesis by (auto simp: same_config_def handlers_ok_def)
  qed
  then show "same_config h h'" and "handlers_ok h (w_heap w) \<Longrightarrow> handlers_ok h' (w_heap w')" by auto
qed

lemma gw_run_keeps:
  assumes "handlers_ok h (w_heap w)" and "gw_run evs (h, w) = (h', w')"
  shows "same_config h h' \<and> handlers_ok h' (w_heap w')"
  using assms(2)
proof (induction evs arbitrary: h' w' rule: rev_induct)
  case Nil
  with assms(1) show ?case by (simp add: gw_run_def same_config_def)
next
  case (snoc e evs)
  obtain h1 w1 where s1: "gw_run evs (h, w) = (h1, w1)" by (cases "gw_run evs (h, w)")
  with snoc.prems have "gw_step e (h1, w1) = (h', w')" by (simp add: gw_run_snoc)
  with gw_step_keeps snoc.IH [OF s1] show ?case by (simp add: same_config_def)
qed

subsection \<open>Every stored token comes from a login\<close>

text \<open>
  \<open>granted h ev r tok i exp\<close>: the login request \<open>r\<close>, served under the configuration of \<open>h\<close>,
  was entitled to the token \<open>tok\<close> for the identity \<open>i\<close> until \<open>exp\<close>.
\<close>

definition granted :: "Handlers \<Rightarrow> env \<Rightarrow> Request \<Rightarrow> string \<Rightarrow> Identity \<Rightarrow> time \<Rightarrow> bool" where
  "granted h ev r tok i expiry \<longleftrightarrow>
     (\<exists>req j. login_fields r = Some req \<and> reviewed ev h req = Inr j \<and>
        CheckBinding (h_rbac h) (lr_Role req) (id_Namespace j) (id_ServiceAccount j) \<and>
        i = j\<lparr>id_Role := lr_Role req\<rparr> \<and> randomHex (ev_rnd1 ev) = Some tok \<and>
        expiry = ev_clock ev 1 + ttlForRole h (lr_Role req))"

definition tokens_from :: "Handlers \<Rightarrow> (env \<times> Request) set \<Rightarrow> TokenStore \<Rightarrow> bool" where
  "tokens_from h L s \<longleftrightarrow>
     (\<forall>tok i expiry. store_view s tok = Some (i, expiry) \<longrightarrow> (\<exists>(ev, r) \<in> L. granted h ev r tok i expiry))"

lemma granted_config: "same_config h h' \<Longrightarrow> granted h' ev r tok i expiry = granted h ev r tok i expiry"
proof -
  assume same: "same_config h h'"
  then have "ttlForRole h' role = ttlForRole h role" "reviewed ev h' req = reviewed ev h req" "h_rbac h' = h_rbac h" for role req
    by (simp_all add: same_config_def ttlForRole_def reviewed_def split: option.split)
  then show ?thesis by (simp add: granted_def)
qed

lemma tokens_from_mono: "tokens_from h L s \<Longrightarrow> L \<subseteq> L' \<Longrightarrow> tokens_from h L' s"
  unfolding tokens_from_def by blast

lemma tokens_from_new [simp]: "tokens_from h L (NewTokenStore m)"
  by (simp add: tokens_from_def store_view_def NewTokenStore_def)

text \<open>A login adds what it grants, reads and health checks add nothing and sweeps only remove.\<close>

lemma tokens_from_login:
  assumes "tokens_from h0 L (h_tokens h)" and "same_config h0 h" and "store_inv (h_tokens h)"
    and "K8sLoginHandler ev r rw h w = (p, rw', h', w')"
  shows "tokens_from h0 (insert (ev, r) L) (h_tokens h')"
  using assms(4)
proof (cases rule: Login_cases)
  case (success req j tok acc toks)
  let ?i = "j\<lparr>id_Role := lr_Role req\<rparr>"
  let ?exp = "ev_clock ev 1 + ttlForRole h (lr_Role req)"
  have view: "randomHex (ev_rnd1 ev) = Some tok" "store_view toks = (store_view (h_tokens h))(tok \<mapsto> (?i, ?exp))"
    using tokens.issue_view [OF assms(3) success(4)] by auto
  have "granted h ev r tok ?i ?exp"
    unfolding granted_def using success view(1) by auto
  then have "granted h0 ev r tok ?i ?exp" using granted_config [OF assms(2)] by simp
  with assms(1) view(2) show ?thesis
    by (auto simp: tokens_from_def success(7) split: if_splits)
qed (use tokens_from_mono [OF assms(1)] in auto)

lemma tokens_from_sweep:
  assumes "tokens_from h0 L s" and "store_inv s"
  shows "tokens_from h0 L (snd (CleanupExpired order now s))"
  unfolding tokens_from_def
proof (intro allI impI)
  fix tok i expiry
  assume "store_view (snd (CleanupExpired order now s)) tok = Some (i, expiry)"
  then have "store_view s tok = Some (i, expiry)"
    using tokens.sweep_view [OF assms(2), of order now tok] by auto
  with assms(1) show "\<exists>(ev, r) \<in> L. granted h0 ev r tok i expiry" by (simp add: tokens_from_def)
qed

definition logins :: "event list \<Rightarrow> (env \<times> Request) set" where
  "logins evs = {(ev, r). Login ev r \<in> set evs}"

lemma logins_snoc: "logins evs \<subseteq> logins (evs @ [e])" "logins (evs @ [Login ev r]) = insert (ev, r) (logins evs)"
  by (auto simp: logins_def)

lemma tokens_from_step:
  assumes "tokens_from h0 (logins evs) (h_tokens h)" and "same_config h0 h" and "handlers_ok h (w_heap w)"
    and "gw_step e (h, w) = (h', w')"
  shows "tokens_from h0 (logins (evs @ [e])) (h_tokens h')"
proof -
  have inv: "store_inv (h_tokens h)" using assms(3) by (simp add: handlers_ok_def)
  have keep: "tokens_from h0 (logins (evs @ [e])) (h_tokens h)" using assms(1) logins_snoc(1) by (rule tokens_from_mono)
  show ?thesis
  proof (cases e)
    case (Login ev r)
    then obtain p rw' where "K8sLoginHandler ev r new_response h w = (p, rw', h', w')"
      using assms(4) by (cases "K8sLoginHandler ev r new_response h w") auto
    from tokens_from_login [OF assms(1,2) inv this] Login show ?thesis by (simp add: logins_snoc)
  next
    case (Read ev r)
    then obtain p rw' where run: "SecretReadHandler ev r new_response h w = (p, rw', h', w')"
      using assms(4) by (cases "SecretReadHandler ev r new_response h w") auto
    then have "h_tokens h' = h_tokens h" by (cases rule: SecretRead_cases) auto
    with keep show ?thesis by simp
  next
    case (Health ev r)
    then obtain p rw' where run: "HealthHandler ev r new_response h w = (p, rw', h', w')"
      using assms(4) by (cases "HealthHandler ev r new_response h w") auto
    from HealthHandler_fields [OF run] keep show ?thesis by simp
  next
    case (Sweep order now)
    obtain s w1 where tick: "cleanup_tick order now (h_metrics h) (h_tokens h) w = (s, w1)"
      by (cases "cleanup_tick order now (h_metrics h) (h_tokens h) w")
    with Sweep assms(4) have "h_tokens h' = snd (CleanupExpired order now (h_tokens h))"
      using cleanup_tick_fields [OF tick] by auto
    with tokens_from_sweep [OF keep inv] show ?thesis by simp
  qed
qed

lemma tokens_from_run:
  assumes "handlers_ok h (w_heap w)" and "h_tokens h = NewTokenStore m" and "gw_run evs (h, w) = (h', w')"
  shows "tokens_from h (logins evs) (h_tokens h')"
  using assms(3)
proof (induction evs arbitrary: h' w' rule: rev_induct)
  case Nil
  with assms(2) show ?case by (auto simp: gw_run_def)
next
  case (snoc e evs)
  obtain h1 w1 where s1: "gw_run evs (h, w) = (h1, w1)" by (cases "gw_run evs (h, w)")
  with snoc.prems have "gw_step e (h1, w1) = (h', w')" by (simp add: gw_run_snoc)
  with tokens_from_step [OF snoc.IH [OF s1]] gw_run_keeps [OF assms(1) s1] show ?case by blast
qed

text \<open>What stands behind a token that verifies for a path.\<close>

lemma token_is_backed:
  assumes "tokens_from h L (h_tokens h1)" and "same_config h h1" and "store_inv (h_tokens h1)"
    and "VerifyToken now tok (h_tokens h1) = Some i" and "CheckAccess (h_rbac h1) (Some i) path"
  shows "\<exists>ev0 r0 req status ns sa rl pattern. (ev0, r0) \<in> L \<and> login_fields r0 = Some req \<and>
    ev_reviews ev0 (v_timeout (h_validator h)) \<lparr>spec_Token = lr_JWT req, spec_Audiences = v_audience (h_validator h)\<rparr> = Inr status \<and>
    st_Authenticated status \<and> st_Username status = ''system:serviceaccount:'' @ ns @ '':'' @ sa \<and>
    roles (h_rbac h) (lr_Role req) = Some rl \<and> ns \<in> set (AllowedNamespaces rl) \<and>
    (''*'' \<in> set (AllowedServiceAccounts rl) \<or> sa \<in> set (AllowedServiceAccounts rl)) \<and>
    randomHex (ev_rnd1 ev0) = Some tok \<and> now \<le> ev_clock ev0 1 + ttlForRole h (lr_Role req) \<and>
    pattern \<in> set (AllowedPaths rl) \<and> MatchPath pattern path"
proof -
  obtain expiry where view: "store_view (h_tokens h1) tok = Some (i, expiry)" "now \<le> expiry"
    using assms(4) tokens.verify_view [OF assms(3)] by (auto split: option.splits prod.splits if_splits)
  obtain ev0 r0 where login: "(ev0, r0) \<in> L" "granted h ev0 r0 tok i expiry"
    using assms(1) view(1) unfolding tokens_from_def by blast
  then obtain req j where g: "login_fields r0 = Some req" "reviewed ev0 h req = Inr j"
      "CheckBinding (h_rbac h) (lr_Role req) (id_Namespace j) (id_ServiceAccount j)"
      "i = j\<lparr>id_Role := lr_Role req\<rparr>" "randomHex (ev_rnd1 ev0) = Some tok"
      "expiry = ev_clock ev0 1 + ttlForRole h (lr_Role req)"
    by (auto simp: granted_def)
  obtain status where st: "ev_reviews ev0 (v_timeout (h_validator h)) \<lparr>spec_Token = lr_JWT req, spec_Audiences = v_audience (h_validator h)\<rparr> = Inr status"
    "st_Authenticated status" "st_Username status = ''system:serviceaccount:'' @ id_Namespace j @ '':'' @ id_ServiceAccount j"
    using g(2) by (auto simp: reviewed_def ValidateK8sJWT_ok review_spec_def parse_username_ok sa_prefix_def)
  obtain rl where rl: "roles (h_rbac h) (lr_Role req) = Some rl" "id_Namespace j \<in> set (AllowedNamespaces rl)"
    "''*'' \<in> set (AllowedServiceAccounts rl) \<or> id_ServiceAccount j \<in> set (AllowedServiceAccounts rl)"
    using g(3) by (auto simp: CheckBinding_iff)
  have "any_pattern (AllowedPaths rl) path"
    using assms(2,5) g(4) rl(1) by (simp add: CheckAccess_binding same_config_def)
  then obtain pattern where "pattern \<in> set (AllowedPaths rl)" "MatchPath pattern path"
    by (auto simp: any_pattern_iff list_ex_iff)
  with login(1) g st rl view(2) show ?thesis by blast
qed

text \<open>
  A secret is served only on behalf of an authenticated workload. After any history of
  logins, reads, health checks and sweeps from an empty token store, a read that answers 200 is
  backed by an earlier login in that history: a login whose service-account token the API server
  authenticated, for a role that admits this namespace and account, that received exactly the
  token now presented, not longer ago than the role's time to live; and that role has a pattern
  that matches the path, which passed the allowlist.
\<close>

theorem secrets_only_to_authenticated_workloads:
  assumes "gw_run evs (h, w) = (h1, w1)" and "handlers_ok h (w_heap w)" and "h_tokens h = NewTokenStore m"
    and "SecretReadHandler ev r new_response h1 w1 = (p, rw', h2, w2)" and "response_status rw' = Some 200"
  shows "\<exists>ev0 r0 req status ns sa rl pattern. Login ev0 r0 \<in> set evs \<and> login_fields r0 = Some req \<and>
    ev_reviews ev0 (v_timeout (h_validator h)) \<lparr>spec_Token = lr_JWT req, spec_Audiences = v_audience (h_validator h)\<rparr> = Inr status \<and>
    st_Authenticated status \<and> st_Username status = ''system:serviceaccount:'' @ ns @ '':'' @ sa \<and>
    roles (h_rbac h) (lr_Role req) = Some rl \<and> ns \<in> set (AllowedNamespaces rl) \<and>
    (''*'' \<in> set (AllowedServiceAccounts rl) \<or> sa \<in> set (AllowedServiceAccounts rl)) \<and>
    randomHex (ev_rnd1 ev0) = Some (req_Header r ''X-Vault-Token'') \<and>
    ev_clock ev 1 \<le> ev_clock ev0 1 + ttlForRole h (lr_Role req) \<and>
    pattern \<in> set (AllowedPaths rl) \<and> MatchPath pattern (read_path r) \<and> Validate (read_path r) = Inr ()"
proof -
  have conf: "same_config h h1" and ok: "handlers_ok h1 (w_heap w1)" using gw_run_keeps [OF assms(2,1)] by auto
  then have inv: "store_inv (h_tokens h1)" by (simp add: handlers_ok_def)
  have fresh: "rw_sent new_response = None" by (simp add: new_response_def)
  obtain i where i: "authorized ev r h1 i" and valid: "Validate (read_path r) = Inr ()"
    using assms(4)
  proof (cases rule: SecretRead_cases)
    case (failed i b b' w' e)
    with assms(5) fresh show ?thesis by (intro that) (cases e; simp)+
  qed (use assms(5) fresh that in auto)
  then have "VerifyToken (ev_clock ev 1) (req_Header r ''X-Vault-Token'') (h_tokens h1) = Some i"
    "CheckAccess (h_rbac h1) (Some i) (read_path r)"
    by (simp_all add: authorized_def)
  from token_is_backed [OF tokens_from_run [OF assms(2,3,1)] conf inv this] valid show ?thesis
    unfolding logins_def by blast
qed

lemma demo_start_ok: "handlers_ok demo_start (w_heap demo_world)"
  using demo_handlers_ok by (simp add: handlers_ok_def) (intro inv_intros)

lemma demo_history:
  "\<exists>h1 w1 rw' h2 w2. gw_run [Login demo_login_env (demo_login demo_login_text)] (demo_start, demo_world) = (h1, w1) \<and>
     SecretReadHandler demo_env (demo_read ''db'' ''ab'') new_response h1 w1 = (None, rw', h2, w2) \<and> response_status rw' = Some 200"
proof -
  obtain rw0 toks w1 where login: "K8sLoginHandler demo_login_env (demo_login demo_login_text) new_response demo_start demo_world =
      (None, rw0, demo_start\<lparr>h_tokens := toks\<rparr>, w1)" and "w_heap w1 = w_heap demo_world"
    and tok: "VerifyToken 11 ''ab'' toks = Some demo_identity"
    using demo_login_ok by blast
  let ?h1 = "demo_start\<lparr>h_tokens := toks\<rparr>"
  have run: "gw_run [Login demo_login_env (demo_login demo_login_text)] (demo_start, demo_world) = (?h1, w1)"
    using login by (simp add: gw_run_def)
  have "handlers_ok ?h1 (w_heap w1)" using gw_run_keeps [OF demo_start_ok run] by simp
  moreover have "authorized demo_env (demo_read ''db'' ''ab'') ?h1 demo_identity"
    using demo_authorized tok by (simp add: authorized_def demo_path) (simp add: demo_env_def demo_read_def)
  moreover have "h_backend ?h1 = Some demo_aws" by (simp add: demo_handlers_def)
  ultimately show ?thesis using demo_read_ok [of ?h1 demo_identity w1] run by blast
qed

theorem secrets_only_to_authenticated_workloads_witness:
  "\<exists>ev0 r0 req. Login ev0 r0 \<in> set [Login demo_login_env (demo_login demo_login_text)] \<and> login_fields r0 = Some req \<and>
     randomHex (ev_rnd1 ev0) = Some ''ab''"
proof -
  obtain h1 w1 rw' h2 w2 where run: "gw_run [Login demo_login_env (demo_login demo_login_text)] (demo_start, demo_world) = (h1, w1)"
    and read: "SecretReadHandler demo_env (demo_read ''db'' ''ab'') new_response h1 w1 = (None, rw', h2, w2)"
    and status: "response_status rw' = Some 200"
    using demo_history by blast
  have new: "h_tokens demo_start = NewTokenStore 10" by simp
  have "req_Header (demo_read ''db'' ''ab'') ''X-Vault-Token'' = ''ab''" by (simp add: demo_read_def)
  with secrets_only_to_authenticated_workloads [OF run demo_start_ok new read status] show ?thesis by metis
qed

subsection \<open>A token keeps working until it expires\<close>

fun disturbs :: "string \<Rightarrow> time \<Rightarrow> event \<Rightarrow> bool" where
  "disturbs tok expiry (Login ev r) = (randomHex (ev_rnd1 ev) = Some tok)"
| "disturbs tok expiry (Sweep order now) = (expiry < now)"
| "disturbs tok expiry _ = False"

lemma token_survives_step:
  assumes "gw_step e (h, w) = (h', w')" and "handlers_ok h (w_heap w)" and "\<not> disturbs tok expiry e"
    and "store_view (h_tokens h) tok = Some (i, expiry)"
  shows "store_view (h_tokens h') tok = Some (i, expiry)"
proof (cases e)
  case (Login ev r)
  then obtain p rw' where run: "K8sLoginHandler ev r new_response h w = (p, rw', h', w')"
    using assms(1) by (cases "K8sLoginHandler ev r new_response h w") auto
  then show ?thesis
  proof (cases rule: Login_cases)
    case (success req j t acc toks)
    have inv: "store_inv (h_tokens h)" using assms(2) by (simp add: handlers_ok_def)
    have "t \<noteq> tok" using tokens.issue_view [OF inv success(4)] assms(3) Login by auto
    with tokens.issue_view [OF inv success(4)] assms(4) success(7) show ?thesis by simp
  qed (use assms(4) in simp_all)
next
  case (Read ev r)
  then obtain p rw' where run: "SecretReadHandler ev r new_response h w = (p, rw', h', w')"
    using assms(1) by (cases "SecretReadHandler ev r new_response h w") auto
  then have "h_tokens h' = h_tokens h" by (cases rule: SecretRead_cases) auto
  with assms(4) show ?thesis by simp
next
  case (Health ev r)
  then obtain p rw' where run: "HealthHandler ev r new_response h w = (p, rw', h', w')"
    using assms(1) by (cases "HealthHandler ev r new_response h w") auto
  from HealthHandler_fields [OF run] assms(4) show ?thesis by simp
next
  case (Sweep order now)
  obtain s w1 where tick: "cleanup_tick order now (h_metrics h) (h_tokens h) w = (s, w1)"
    by (cases "cleanup_tick order now (h_metrics h) (h_tokens h) w")
  with Sweep assms(1) have "h_tokens h' = snd (CleanupExpired order now (h_tokens h))"
    using cleanup_tick_fields [OF tick] by auto
  with tokens.sweep_view [of "h_tokens h" order now tok] assms Sweep show ?thesis
    by (auto simp: handlers_ok_def)
qed

lemma token_survives_run:
  assumes "gw_run evs (h, w) = (h', w')" and "handlers_ok h (w_heap w)" and "list_all (\<lambda>e. \<not> disturbs tok expiry e) evs"
    and "store_view (h_tokens h) tok = Some (i, expiry)"
  shows "store_view (h_tokens h') tok = Some (i, expiry)"
  using assms(1,3)
proof (induction evs arbitrary: h' w' rule: rev_induct)
  case Nil
  with assms(4) show ?case by (simp add: gw_run_def)
next
  case (snoc e evs)
  obtain h1 w1 where s1: "gw_run evs (h, w) = (h1, w1)" by (cases "gw_run evs (h, w)")
  with snoc.prems have step: "gw_step e (h1, w1) = (h', w')" by (simp add: gw_run_snoc)
  from snoc.prems(2) have "\<not> disturbs tok expiry e" by simp
  with token_survives_step [OF step] gw_run_keeps [OF assms(2) s1] snoc.IH [OF s1] snoc.prems(2) show ?case by simp
qed

text \<open>
  C6. A token that a login handed out opens the role's paths until it expires. Whatever requests
  and sweeps happen in between, as long as the random source does not repeat the token and no
  sweep runs with a clock past its expiry, a read of an allowlisted path that some pattern of
  the role matches is never refused: not with 400 and not with 403.
\<close>

theorem token_serves_until_expiry:
  assumes "K8sLoginHandler ev0 r0 new_response h w = (p0, rw0, h1, w1)" and "response_status rw0 = Some 200"
    and "handlers_ok h (w_heap w)" and "login_fields r0 = Some req" and "randomHex (ev_rnd1 ev0) = Some tok"
    and "expiry = ev_clock ev0 1 + ttlForRole h (lr_Role req)"
    and "gw_run evs (h1, w1) = (h2, w2)" and "list_all (\<lambda>e. \<not> disturbs tok expiry e) evs"
    and "req_Header r ''X-Vault-Token'' = tok" and "ev_clock ev 1 \<le> expiry" and "Validate (read_path r) = Inr ()"
    and "roles (h_rbac h) (lr_Role req) = Some rl" and "list_ex (\<lambda>pattern. MatchPath pattern (read_path r)) (AllowedPaths rl)"
    and "SecretReadHandler ev r new_response h2 w2 = (p, rw', h3, w3)"
  shows "response_status rw' \<notin> {Some 400, Some 403}"
proof -
  have fresh: "rw_sent new_response = None" by (simp add: new_response_def)
  have inv: "store_inv (h_tokens h)" using assms(3) by (simp add: handlers_ok_def)
  have ok1: "handlers_ok h1 (w_heap w1)" using handlers_ok_login [OF assms(3,1)] .
  obtain i where login: "same_config h h1" "store_view (h_tokens h1) tok = Some (i, expiry)" "id_Role i = lr_Role req"
      "CheckBinding (h_rbac h) (lr_Role req) (id_Namespace i) (id_ServiceAccount i)"
    using assms(1)
  proof (cases rule: Login_cases)
    case (success req' j t acc toks)
    have "req' = req" using success(1) assms(4) by simp
    have view: "t = tok" "store_view toks = (store_view (h_tokens h))(tok \<mapsto> (j\<lparr>id_Role := lr_Role req\<rparr>, expiry))"
      using tokens.issue_view [OF inv success(4)] assms(5,6) \<open>req' = req\<close> by auto
    show ?thesis
      by (rule that [of "j\<lparr>id_Role := lr_Role req\<rparr>"])
        (use success view \<open>req' = req\<close> in \<open>simp_all add: same_config_def\<close>)
  qed (use assms(2) fresh in auto)
  have run: "same_config h1 h2" "handlers_ok h2 (w_heap w2)" using gw_run_keeps [OF ok1 assms(7)] by auto
  have "store_view (h_tokens h2) tok = Some (i, expiry)"
    using token_survives_run [OF assms(7) ok1 assms(8) login(2)] .
  then have "VerifyToken (ev_clock ev 1) tok (h_tokens h2) = Some i"
    using tokens.verify_view [of "h_tokens h2"] run(2) assms(10) by (simp add: handlers_ok_def)
  moreover have "CheckAccess (h_rbac h2) (Some i) (read_path r)"
    using run(1) login assms(12,13) by (simp add: CheckAccess_binding same_config_def any_pattern_iff)
  ultimately have auth: "authorized ev r h2 i" using assms(9) by (simp add: authorized_def)
  show ?thesis
    using assms(14)
  proof (cases rule: SecretRead_cases)
    case (failed i' b b' w' e)
    with fresh show ?thesis by (cases e) auto
  qed (use auth assms(11) fresh in auto)
qed

theorem token_serves_until_expiry_witness:
  "\<exists>h2 w2 p rw' h3 w3. gw_run [Login demo_login_env (demo_login demo_login_text), Sweep [''ab''] 50] (demo_start, demo_world) = (h2, w2) \<and>
     SecretReadHandler demo_env (demo_read ''db'' ''ab'') new_response h2 w2 = (p, rw', h3, w3) \<and>
     response_status rw' \<notin> {Some 400, Some 403}"
proof -
  obtain rw0 h1 w1 where login: "K8sLoginHandler demo_login_env (demo_login demo_login_text) new_response demo_start demo_world =
      (None, rw0, h1, w1)" and status: "response_status rw0 = Some 200"
    using demo_login_ok by blast
  have hex: "randomHex (ev_rnd1 demo_login_env) = Some ''ab''" by (simp add: demo_hex)
  have ttl: "111 = ev_clock demo_login_env 1 + ttlForRole demo_start (lr_Role \<lparr>lr_JWT = ''j'', lr_Role = ''app''\<rparr>)"
    by simp
  obtain h2 w2 where run: "gw_run [Sweep [''ab''] 50] (h1, w1) = (h2, w2)" by (cases "gw_run [Sweep [''ab''] 50] (h1, w1)")
  obtain p rw' h3 w3 where read: "SecretReadHandler demo_env (demo_read ''db'' ''ab'') new_response h2 w2 = (p, rw', h3, w3)"
    by (cases "SecretReadHandler demo_env (demo_read ''db'' ''ab'') new_response h2 w2") auto
  have calm: "list_all (\<lambda>e. \<not> disturbs ''ab'' 111 e) [Sweep [''ab''] 50]" by simp
  have hdr: "req_Header (demo_read ''db'' ''ab'') ''X-Vault-Token'' = ''ab''" by (simp add: demo_read_def)
  have now: "ev_clock demo_env 1 \<le> 111" by (simp add: demo_env_def)
  have valid: "Validate (read_path (demo_read ''db'' ''ab'')) = Inr ()" by (simp add: demo_path)
  have rl: "roles (h_rbac demo_start) (lr_Role \<lparr>lr_JWT = ''j'', lr_Role = ''app''\<rparr>) =
      Some \<lparr>AllowedNamespaces = [''opus''], AllowedServiceAccounts = [''*''], AllowedPaths = [''db'']\<rparr>"
    by (simp add: demo_handlers_def NewRBAC_def)
  have "MatchPath ''db'' ''db''" by code_simp
  then have pat: "list_ex (\<lambda>pattern. MatchPath pattern (read_path (demo_read ''db'' ''ab'')))
      (AllowedPaths \<lparr>AllowedNamespaces = [''opus''], AllowedServiceAccounts = [''*''], AllowedPaths = [''db'']\<rparr>)"
    by (simp add: demo_path)
  have "gw_run [Login demo_login_env (demo_login demo_login_text), Sweep [''ab''] 50] (demo_start, demo_world) = (h2, w2)"
    using run login by (simp add: gw_run_def)
  with token_serves_until_expiry [OF login status demo_start_ok demo_login_fields hex ttl run calm hdr now valid rl pat read] read
  show ?thesis by blast
qed

end
