(* ===== verification/Interleaving.thy ===== *)
theory Interleaving
  imports Main
begin

text \<open>
  Programs that run side by side on a shared state. A program is a value that says how far it has come;
  one step of it, under what the environment answers at that moment, changes it and the shared state, or
  is refused because the program has ended. Programs are started at any moment and any of them moves next.

  The locale \<open>side_by_side\<close> is the method of rely and guarantee for such runs: an assertion about the
  shared state, one about each program, and a relation that keeps any two programs apart. What holds of
  every single step then holds in every interleaving.
\<close>

subsection \<open>Runs\<close>

inductive interleaved ::
  "(nat \<Rightarrow> 'e \<Rightarrow> 'g \<Rightarrow> 's \<Rightarrow> ('g \<times> 's) option) \<Rightarrow> ('g \<Rightarrow> bool) \<Rightarrow> 's \<Rightarrow> (nat \<Rightarrow> 'g option) \<Rightarrow> 's \<Rightarrow> bool"
  for step start s0 where
  idle: "interleaved step start s0 (\<lambda>_. None) s0"
| spawn: "interleaved step start s0 P s \<Longrightarrow> P i = None \<Longrightarrow> start g \<Longrightarrow> interleaved step start s0 (P(i := Some g)) s"
| move: "interleaved step start s0 P s \<Longrightarrow> P i = Some g \<Longrightarrow> step i e g s = Some (g', s') \<Longrightarrow>
    interleaved step start s0 (P(i := Some g')) s'"

text \<open>One program alone, for at most \<open>n\<close> steps.\<close>

fun run_alone :: "('g \<Rightarrow> 's \<Rightarrow> ('g \<times> 's) option) \<Rightarrow> nat \<Rightarrow> 'g \<Rightarrow> 's \<Rightarrow> 'g \<times> 's" where
  "run_alone step 0 g s = (g, s)"
| "run_alone step (Suc n) g s =
     (case step g s of None \<Rightarrow> (g, s) | Some (g', s') \<Rightarrow> run_alone step n g' s')"

subsection \<open>Rely and guarantee\<close>

locale side_by_side =
  fixes step :: "nat \<Rightarrow> 'e \<Rightarrow> 'g \<Rightarrow> 's \<Rightarrow> ('g \<times> 's) option"
    and start :: "'g \<Rightarrow> bool"
    and shared :: "'s \<Rightarrow> bool"
    and own :: "nat \<Rightarrow> 's \<Rightarrow> 'g \<Rightarrow> bool"
    and apart :: "'g \<Rightarrow> 'g \<Rightarrow> bool"
  assumes start_own: "shared s \<Longrightarrow> start g \<Longrightarrow> own i s g"
    and start_apart: "start g \<Longrightarrow> apart g k"
    and apart_sym: "apart g k \<Longrightarrow> apart k g"
    and step_shared: "shared s \<Longrightarrow> own i s g \<Longrightarrow> step i e g s = Some (g', s') \<Longrightarrow> shared s'"
    and step_own: "shared s \<Longrightarrow> own i s g \<Longrightarrow> step i e g s = Some (g', s') \<Longrightarrow> own i s' g'"
    and step_stable: "shared s \<Longrightarrow> own i s g \<Longrightarrow> own j s k \<Longrightarrow> apart g k \<Longrightarrow> step i e g s = Some (g', s') \<Longrightarrow>
      own j s' k \<and> apart g' k"
begin

lemma every_interleaving:
  assumes "interleaved step start s0 P s" and "shared s0"
  shows "shared s \<and> (\<forall>i g. P i = Some g \<longrightarrow> own i s g) \<and> (\<forall>i j g k. i \<noteq> j \<longrightarrow> P i = Some g \<longrightarrow> P j = Some k \<longrightarrow> apart g k)"
  using assms(1)
proof (induction rule: interleaved.induct)
  case idle
  with assms(2) show ?case by simp
next
  case (spawn P s i g)
  then show ?case using start_own start_apart apart_sym by (auto split: if_splits)
next
  case (move P s i g e g' s')
  then have now: "shared s" "own i s g" by auto
  have rest: "own j s' k \<and> apart g' k" if "P j = Some k" "j \<noteq> i" for j k
  proof -
    have "own j s k" "apart g k" using move.IH move.hyps(2) that by metis+
    from step_stable [OF now this move.hyps(3)] show ?thesis .
  qed
  show ?case
    using step_shared [OF now move.hyps(3)] step_own [OF now move.hyps(3)] rest move.IH apart_sym
    by (auto split: if_splits)
qed

lemma shared_always: "interleaved step start s0 P s \<Longrightarrow> shared s0 \<Longrightarrow> shared s"
  using every_interleaving by blast

lemma own_always: "interleaved step start s0 P s \<Longrightarrow> shared s0 \<Longrightarrow> P i = Some g \<Longrightarrow> own i s g"
  using every_interleaving by blast

end

end
