(* ===== verification/Gateway_Steps.thy ===== *)
theory Gateway_Steps
  imports Gateway_Run Interleaving
begin

text \<open>
  The handlers in small steps. Every request is served by a goroutine of its own, and goroutines share the
  token store, the cache and the heap. The token store and the cache take their lock in every operation,
  so a step is one such operation, or one call of a remote service, with what the goroutine does on its own
  before the next one: reading the request, writing the response, a line of the log, a counter. Between two
  steps any other goroutine may run. Run alone, the steps of a goroutine are the handler.
\<close>

subsection \<open>GetSecret of every backend\<close>

text \<open>The parts of a backend that its \<open>GetSecret\<close> uses: cache, key, name in the metrics, and the remote call.\<close>

fun backend_cache :: "backend \<Rightarrow> Cache" where
  "backend_cache (AWS b) = aws_cache b"
| "backend_cache (Azure b) = az_cache b"
| "backend_cache (Vault b) = vb_cache b"
| "backend_cache (GCP b) = gcp_cache b"

fun set_cache :: "Cache \<Rightarrow> backend \<Rightarrow> backend" where
  "set_cache c (AWS b) = AWS (b\<lparr>aws_cache := c\<rparr>)"
| "set_cache c (Azure b) = Azure (b\<lparr>az_cache := c\<rparr>)"
| "set_cache c (Vault b) = Vault (b\<lparr>vb_cache := c\<rparr>)"
| "set_cache c (GCP b) = GCP (b\<lparr>gcp_cache := c\<rparr>)"

fun backend_key :: "backend \<Rightarrow> string \<Rightarrow> string" where
  "backend_key (AWS b) path = aws_prefix b @ path"
| "backend_key (Azure b) path = path"
| "backend_key (Vault b) path = path"
| "backend_key (GCP b) path = secretID b path"

fun backend_metric :: "backend \<Rightarrow> bool" where
  "backend_metric (AWS b) = aws_metric b"
| "backend_metric (Azure b) = az_metrics b"
| "backend_metric (Vault b) = vb_metric b"
| "backend_metric (GCP b) = gcp_metric b"

fun backend_fetch :: "remotes \<Rightarrow> backend \<Rightarrow> string \<Rightarrow> outcome \<times> (world \<Rightarrow> world)" where
  "backend_fetch rs (AWS b) path = aws_fetch (r_aws rs) path (aws_prefix b @ path)"
| "backend_fetch rs (Azure b) path = (azure_fetch (r_azure_uerr rs) (r_azure rs) b path, \<lambda>w. w)"
| "backend_fetch rs (Vault b) path = vault_fetch (r_vault rs) path"
| "backend_fetch rs (GCP b) path = gcp_fetch (r_gcp rs) b path"

text \<open>
  \<open>GetSecret\<close> looks into the cache, asks the remote service, stores the answer, counts the entries of the
  cache for the gauge, sets the gauge and returns. On a hit it returns at once; what it was answered is nil,
  a map, or an error.
\<close>

datatype get_pc =
    GetLookup
  | GetAsk
  | GetAnswer outcome
  | GetStored mref
  | GetCounted mref nat
  | GetReturn "backend_error + mref"

fun get_step :: "remotes \<Rightarrow> time \<Rightarrow> time \<Rightarrow> string \<Rightarrow> get_pc \<Rightarrow> backend \<Rightarrow> world \<Rightarrow> get_pc \<times> backend \<times> world" where
  "get_step rs t1 t2 path GetLookup b w =
     (case cache_Get t1 (backend_key b path) (backend_cache b) (w_heap w) of
        ((v, hit, neg), c, h) \<Rightarrow>
          let w = w\<lparr>w_heap := h\<rparr> in
          if hit then (GetReturn (if neg then Inl errSecretNotFound else Inr v), set_cache c b,
            bump_hits (backend_Name b) (backend_metric b) w)
          else (GetAsk, set_cache c b, bump_misses (backend_Name b) (backend_metric b) w))"
| "get_step rs t1 t2 path GetAsk b w =
     (case backend_fetch rs b path of (out, eff) \<Rightarrow> (GetAnswer out, b, eff w))"
| "get_step rs t1 t2 path (GetAnswer out) b w =
     (case out of
        Failed e \<Rightarrow> (GetReturn (Inl e), b, w)
      | Missing \<Rightarrow>
          (GetReturn (Inl errSecretNotFound), set_cache (cache_SetNegative t2 (backend_key b path) (backend_cache b)) b, w)
      | Value m \<Rightarrow>
          let (v, h) = alloc m (w_heap w);
              (c, h) = cache_Set t2 (backend_key b path) v (backend_cache b) h
          in (GetStored v, set_cache c b, w\<lparr>w_heap := h\<rparr>))"
| "get_step rs t1 t2 path (GetStored v) b w = (GetCounted v (cache_Len (backend_cache b)), b, w)"
| "get_step rs t1 t2 path (GetCounted v n) b w =
     (GetReturn (Inr v), b, gauge_entries (backend_Name b) (backend_metric b) n w)"
| "get_step rs t1 t2 path (GetReturn res) b w = (GetReturn res, b, w)"

subsection \<open>The read handler\<close>

datatype read_pc =
    ReadArrived
  | ReadGetting Identity time get_pc
  | ReadWritten mref ResponseWriter
  | ReadDone "string option" ResponseWriter

definition note_read :: "env \<Rightarrow> Request \<Rightarrow> time \<Rightarrow> string \<times> string \<times> string \<Rightarrow> string \<Rightarrow> Handlers \<Rightarrow> world \<Rightarrow> world" where
  "note_read ev r start who res h w =
     (case who of (ns, sa, role) \<Rightarrow>
        observeSecret res start (ev_clock ev 4) h
          (audit ''read'' (RequestID r) (clientIP r) ns sa role (TrimPrefix (req_PathValue r) ''/'') res w))"

definition who_reads :: "Identity \<Rightarrow> string \<times> string \<times> string" where
  "who_reads i = (id_Namespace i, id_ServiceAccount i, id_Role i)"

definition read_failure ::
  "env \<Rightarrow> Request \<Rightarrow> ResponseWriter \<Rightarrow> Identity \<Rightarrow> time \<Rightarrow> backend_error \<Rightarrow> Handlers \<Rightarrow> world \<Rightarrow> ResponseWriter \<times> world" where
  "read_failure ev r rw i start e h w =
     (let about = (\<lambda>txt. [(''backend'', backendName h), (''path'', TrimPrefix (req_PathValue r) ''/''),
                          (''request_id'', RequestID r), (''error'', txt)])
      in case e of
        ErrSecretNotFound _ \<Rightarrow> (writeError 404 [''secret not found''] rw, note_read ev r start (who_reads i) ''not_found'' h w)
      | ErrBackendUnavailable txt \<Rightarrow>
          (writeError 502 [''backend unavailable''] rw,
           slog LevelError ''backend unavailable'' (about txt) (note_read ev r start (who_reads i) ''error'' h w))
      | ErrOther txt \<Rightarrow>
          (writeError 502 [''backend error''] rw,
           slog LevelError ''backend error'' (about txt) (note_read ev r start (who_reads i) ''error'' h w)))"

fun read_step :: "env \<Rightarrow> Request \<Rightarrow> ResponseWriter \<Rightarrow> read_pc \<Rightarrow> Handlers \<Rightarrow> world \<Rightarrow> (read_pc \<times> Handlers \<times> world) option" where
  "read_step ev r rw ReadArrived h w =
     (let start = ev_clock ev 0; path = TrimPrefix (req_PathValue r) ''/'' in
      case validatePath path of
        Inl _ \<Rightarrow> Some (ReadDone None (writeError 400 [''invalid secret path''] rw), h, w)
      | Inr _ \<Rightarrow>
      case VerifyToken (ev_clock ev 1) (req_Header r ''X-Vault-Token'') (h_tokens h) of
        None \<Rightarrow> Some (ReadDone None (writePermissionDenied rw), h, note_read ev r start ('''', '''', '''') ''denied'' h w)
      | Some i \<Rightarrow>
          if CheckAccess (h_rbac h) (Some i) path then Some (ReadGetting i start GetLookup, h, w)
          else Some (ReadDone None (writePermissionDenied rw), h, note_read ev r start (who_reads i) ''denied'' h w))"
| "read_step ev r rw (ReadGetting i start (GetReturn res)) h w =
     (case res of
        Inl e \<Rightarrow> (case read_failure ev r rw i start e h w of (rw, w) \<Rightarrow> Some (ReadDone None rw, h, w))
      | Inr v \<Rightarrow>
          Some (ReadWritten v (writeJSON 200 (secret_body ev r (map_option (cells (w_heap w)) v)) rw), h,
                note_read ev r start (who_reads i) ''success'' h w))"
| "read_step ev r rw (ReadGetting i start pc) h w =
     (case h_backend h of
        None \<Rightarrow> Some (ReadDone (Some ''nil backend'') rw, h, w)
      | Some b \<Rightarrow>
          (case get_step (ev_remotes ev) (ev_clock ev 2) (ev_clock ev 3) (TrimPrefix (req_PathValue r) ''/'') pc b w of
             (pc, b, w) \<Rightarrow> Some (ReadGetting i start pc, h\<lparr>h_backend := Some b\<rparr>, w)))"
| "read_step ev r rw (ReadWritten v rw') h w = Some (ReadDone None rw', h, w\<lparr>w_heap := clearMap (ev_order ev) v (w_heap w)\<rparr>)"
| "read_step ev r rw (ReadDone p rw') h w = None"

subsection \<open>The login handler, the sweep and the health check\<close>

datatype login_pc =
    LoginArrived
  | LoginReviewed time loginRequest Identity
  | LoginIssued time loginRequest Identity "string \<times> string"
  | LoginCounted time loginRequest Identity "string \<times> string" nat
  | LoginDone ResponseWriter

definition note_login ::
  "env \<Rightarrow> Request \<Rightarrow> time \<Rightarrow> string \<times> string \<Rightarrow> string \<Rightarrow> string \<Rightarrow> Handlers \<Rightarrow> world \<Rightarrow> world" where
  "note_login ev r start who role res h w =
     observeAuth res role start (ev_clock ev 2) h
       (audit ''login'' (RequestID r) (clientIP r) (fst who) (snd who) role '''' res w)"

definition who_logs_in :: "Identity \<Rightarrow> string \<times> string" where
  "who_logs_in i = (id_Namespace i, id_ServiceAccount i)"

fun login_step :: "env \<Rightarrow> Request \<Rightarrow> ResponseWriter \<Rightarrow> login_pc \<Rightarrow> Handlers \<Rightarrow> world \<Rightarrow> (login_pc \<times> Handlers \<times> world) option" where
  "login_step ev r rw LoginArrived h w =
     (let start = ev_clock ev 0; failure = (\<lambda>role. observeAuth ''failure'' role start (ev_clock ev 2) h w) in
      case req_Body r of
        Inl _ \<Rightarrow> Some (LoginDone (writeError 400 [''error reading request body''] rw), h, failure '''')
      | Inr text \<Rightarrow>
      case decode_login text of
        None \<Rightarrow> Some (LoginDone (writeError 400 [''invalid request body''] rw), h, failure '''')
      | Some req \<Rightarrow>
      if lr_JWT req = '''' \<or> lr_Role req = '''' then
        Some (LoginDone (writeError 400 [''missing required fields: jwt and role''] rw), h, failure (lr_Role req))
      else
      case ValidateK8sJWT ((h_validator h)\<lparr>v_reviews := ev_reviews ev\<rparr>) (lr_JWT req) of
        Inl _ \<Rightarrow> Some (LoginDone (writePermissionDenied rw), h, note_login ev r start ('''', '''') (lr_Role req) ''failure'' h w)
      | Inr i \<Rightarrow>
          if CheckBinding (h_rbac h) (lr_Role req) (id_Namespace i) (id_ServiceAccount i)
          then Some (LoginReviewed start req (i\<lparr>id_Role := lr_Role req\<rparr>), h, w)
          else Some (LoginDone (writePermissionDenied rw), h,
            note_login ev r start (who_logs_in i) (lr_Role req) ''failure'' h w))"
| "login_step ev r rw (LoginReviewed start req i) h w =
     (case IssueToken (ev_rnd1 ev) (ev_rnd2 ev) (ev_clock ev 1) i (ttlForRole h (lr_Role req)) (h_tokens h) of
        (Inl _, toks) \<Rightarrow>
          Some (LoginDone (writePermissionDenied rw), h\<lparr>h_tokens := toks\<rparr>,
            note_login ev r start (who_logs_in i) (lr_Role req) ''failure'' h w)
      | (Inr tok, toks) \<Rightarrow> Some (LoginIssued start req i tok, h\<lparr>h_tokens := toks\<rparr>, w))"
| "login_step ev r rw (LoginIssued start req i tok) h w = Some (LoginCounted start req i tok (TokenCount (h_tokens h)), h, w)"
| "login_step ev r rw (LoginCounted start req i tok n) h w =
     (let w = (if h_metrics h then w\<lparr>w_metrics := (w_metrics w)\<lparr>m_ActiveTokens := n\<rparr>\<rparr> else w) in
      Some (LoginDone (writeJSON 200 (auth_body r req i (ttlForRole h (lr_Role req)) (fst tok) (snd tok)) rw), h,
        note_login ev r start (who_logs_in i) (lr_Role req) ''success'' h w))"
| "login_step ev r rw (LoginDone rw') h w = None"

datatype sweep_pc = SweepArrived | SweepPurged | SweepCounted nat | SweepDone

fun sweep_step :: "string list \<Rightarrow> time \<Rightarrow> sweep_pc \<Rightarrow> Handlers \<Rightarrow> world \<Rightarrow> (sweep_pc \<times> Handlers \<times> world) option" where
  "sweep_step order now SweepArrived h w = Some (SweepPurged, h\<lparr>h_tokens := snd (CleanupExpired order now (h_tokens h))\<rparr>, w)"
| "sweep_step order now SweepPurged h w = Some (SweepCounted (TokenCount (h_tokens h)), h, w)"
| "sweep_step order now (SweepCounted n) h w =
     Some (SweepDone, h, if h_metrics h then w\<lparr>w_metrics := (w_metrics w)\<lparr>m_ActiveTokens := n\<rparr>\<rparr> else w)"
| "sweep_step order now SweepDone h w = None"

subsection \<open>Goroutines\<close>

datatype goroutine =
    Reading Request ResponseWriter read_pc
  | LoggingIn Request ResponseWriter login_pc
  | Sweeping sweep_pc
  | Checking Request ResponseWriter "ResponseWriter option"

fun goroutine_step :: "env \<Rightarrow> goroutine \<Rightarrow> Handlers \<times> world \<Rightarrow> (goroutine \<times> Handlers \<times> world) option" where
  "goroutine_step ev (Reading r rw pc) (h, w) = map_option (map_prod (Reading r rw) id) (read_step ev r rw pc h w)"
| "goroutine_step ev (LoggingIn r rw pc) (h, w) = map_option (map_prod (LoggingIn r rw) id) (login_step ev r rw pc h w)"
| "goroutine_step ev (Sweeping pc) (h, w) = map_option (map_prod Sweeping id) (sweep_step (ev_order ev) (ev_clock ev 0) pc h w)"
| "goroutine_step ev (Checking r rw None) (h, w) =
     (case HealthHandler ev r rw h w of (_, rw', h', w') \<Rightarrow> Some (Checking r rw (Some rw'), h', w'))"
| "goroutine_step ev (Checking r rw (Some rw')) (h, w) = None"

text \<open>A goroutine starts with the request at hand and nothing written.\<close>

definition unwritten :: "ResponseWriter \<Rightarrow> bool" where
  "unwritten rw \<longleftrightarrow> rw_sent rw = None \<and> rw_body rw = []"

fun starts :: "goroutine \<Rightarrow> bool" where
  "starts (Reading r rw pc) = (pc = ReadArrived \<and> unwritten rw)"
| "starts (LoggingIn r rw pc) = (pc = LoginArrived \<and> unwritten rw)"
| "starts (Sweeping pc) = (pc = SweepArrived)"
| "starts (Checking r rw res) = (res = None \<and> unwritten rw)"

text \<open>
  The shared state of a run, with the steps so far, the latest first: which goroutine moved, where it stood
  before and what the environment answered it. The steps are recorded for the statements only.
\<close>

type_synonym moves = "(nat \<times> goroutine \<times> env) list"
type_synonym shared_state = "(Handlers \<times> world) \<times> moves"

fun gateway_step :: "nat \<Rightarrow> env \<Rightarrow> goroutine \<Rightarrow> shared_state \<Rightarrow> (goroutine \<times> shared_state) option" where
  "gateway_step i ev g (s, tr) = map_option (map_prod id (\<lambda>s. (s, (i, g, ev) # tr))) (goroutine_step ev g s)"

abbreviation concurrent :: "Handlers \<times> world \<Rightarrow> (nat \<Rightarrow> goroutine option) \<Rightarrow> shared_state \<Rightarrow> bool" where
  "concurrent s0 \<equiv> interleaved gateway_step starts (s0, [])"

subsection \<open>Alone, the steps are the handler\<close>

lemma set_cache_parts [simp]:
  "backend_cache (set_cache c b) = c" "backend_key (set_cache c b) = backend_key b" "backend_Name (set_cache c b) = backend_Name b"
  "backend_metric (set_cache c b) = backend_metric b" "set_cache c' (set_cache c b) = set_cache c' b"
  "set_cache (backend_cache b) b = b"
  by (cases b; simp add: fun_eq_iff secretID_def aws_Name_def azure_Name_def vault_Name_def gcp_Name_def)+

lemma set_cache_fetch [simp]: "backend_fetch rs (set_cache c b) = backend_fetch rs b"
  by (cases b) (simp_all add: fun_eq_iff azure_fetch_def gcp_fetch_def secretID_def)

lemma backend_GetSecret_read_through:
  "backend_GetSecret rs t1 t2 path b w =
     (case read_through (backend_Name b) (backend_metric b) (backend_fetch rs b path) t1 t2 (backend_key b path) (backend_cache b) w of
        (res, c, w') \<Rightarrow> (res, set_cache c b, w'))"
  by (cases b) (simp_all add: aws_GetSecret_read_through azure_GetSecret_read_through vault_GetSecret_read_through
      gcp_GetSecret_read_through aws_Name_def azure_Name_def vault_Name_def gcp_Name_def aws_backendName_def
      azure_backendName_def vault_backendName_def gcp_backendName_def split: prod.split)


lemma run_alone_step: "step g s = Some (g', s') \<Longrightarrow> run_alone step (Suc n) g s = run_alone step n g' s'"
  by simp

lemma run_alone_done: "step g s = None \<Longrightarrow> run_alone step n g s = (g, s)"
  by (cases n) simp_all

text \<open>From the lookup to the return of \<open>GetSecret\<close>: one, three or five steps.\<close>

lemma get_alone:
  assumes "h_backend h = Some b"
    and "backend_GetSecret (ev_remotes ev) (ev_clock ev 2) (ev_clock ev 3) (read_path r) b w = (res, b', w')"
  obtains n where "n \<le> 5" "\<And>m. run_alone (goroutine_step ev) (n + m) (Reading r rw (ReadGetting i start GetLookup)) (h, w) =
    run_alone (goroutine_step ev) m (Reading r rw (ReadGetting i start (GetReturn res))) (h\<lparr>h_backend := Some b'\<rparr>, w')"
proof -
  let ?key = "backend_key b (read_path r)"
  obtain v hit neg c1 h1 where get: "cache_Get (ev_clock ev 2) ?key (backend_cache b) (w_heap w) = ((v, hit, neg), c1, h1)"
    by (cases "cache_Get (ev_clock ev 2) ?key (backend_cache b) (w_heap w)") auto
  obtain out eff where fetch: "backend_fetch (ev_remotes ev) b (read_path r) = (out, eff)"
    by (cases "backend_fetch (ev_remotes ev) b (read_path r)")
  note defs = backend_GetSecret_read_through read_through_def read_path_def [symmetric] numeral_eq_Suc
  show thesis
  proof (cases hit)
    case True
    then show thesis using assms get by (intro that [of 1]) (auto simp: defs Let_def)
  next
    case miss: False
    show thesis
    proof (cases out)
      case (Value m)
      then show thesis using assms get fetch miss by (intro that [of 5]) (auto simp: defs Let_def split: prod.splits)
    next
      case Missing
      then show thesis using assms get fetch miss by (intro that [of 3]) (auto simp: defs Let_def)
    next
      case (Failed e)
      then show thesis using assms get fetch miss by (intro that [of 3]) (auto simp: defs Let_def)
    qed
  qed
qed

lemma read_alone:
  "run_alone (goroutine_step ev) 8 (Reading r rw ReadArrived) (h, w) =
     (case SecretReadHandler ev r rw h w of (p, rw', h', w') \<Rightarrow> (Reading r rw (ReadDone p rw'), h', w'))"
proof (cases "Validate (read_path r) = Inr () \<and> (\<exists>i. authorized ev r h i)")
  case False
  then show ?thesis
    by (auto simp: SecretReadHandler_def read_path_def authorized_def validatePath_def who_reads_def note_read_def Let_def numeral_eq_Suc
        split: sum.split option.split)
next
  case True
  then obtain i where valid: "Validate (read_path r) = Inr ()" and auth: "authorized ev r h i" by blast
  let ?run = "\<lambda>n pc s. run_alone (goroutine_step ev) n (Reading r rw pc) s"
  have "?run 8 ReadArrived (h, w) = ?run 7 (ReadGetting i (ev_clock ev 0) GetLookup) (h, w)"
    using valid auth by (simp add: authorized_def read_path_def validatePath_def Let_def numeral_eq_Suc)
  also have "\<dots> = (case SecretReadHandler ev r rw h w of (p, rw', h', w') \<Rightarrow> (Reading r rw (ReadDone p rw'), h', w'))"
  proof (cases "h_backend h")
    case None
    then show ?thesis by (simp add: SecretRead_authorized [OF valid auth] numeral_eq_Suc)
  next
    case (Some b)
    obtain res b' w1 where get: "backend_GetSecret (ev_remotes ev) (ev_clock ev 2) (ev_clock ev 3) (read_path r) b w = (res, b', w1)"
      by (cases "backend_GetSecret (ev_remotes ev) (ev_clock ev 2) (ev_clock ev 3) (read_path r) b w") auto
    obtain n where n: "n \<le> 5" "\<And>m. ?run (n + m) (ReadGetting i (ev_clock ev 0) GetLookup) (h, w) =
        ?run m (ReadGetting i (ev_clock ev 0) (GetReturn res)) (h\<lparr>h_backend := Some b'\<rparr>, w1)"
      using get_alone [OF Some get] by metis
    define k where "k = 5 - n"
    have seven: "7 = n + Suc (Suc k)" using n(1) by (simp add: k_def)
    have "?run 7 (ReadGetting i (ev_clock ev 0) GetLookup) (h, w) =
        ?run (Suc (Suc k)) (ReadGetting i (ev_clock ev 0) (GetReturn res)) (h\<lparr>h_backend := Some b'\<rparr>, w1)"
      unfolding seven by (rule n(2))
    also have "\<dots> = (case SecretReadHandler ev r rw h w of (p, rw', h', w') \<Rightarrow> (Reading r rw (ReadDone p rw'), h', w'))"
      by (cases k; auto simp: SecretRead_authorized [OF valid auth] Some get read_failure_def note_read_def who_reads_def
          read_path_def [symmetric] Let_def split: sum.split backend_error.split)
    finally show ?thesis .
  qed
  finally show ?thesis .
qed

lemma login_alone:
  "run_alone (goroutine_step ev) 4 (LoggingIn r rw LoginArrived) (h, w) =
     (case K8sLoginHandler ev r rw h w of (p, rw', h', w') \<Rightarrow> (LoggingIn r rw (LoginDone rw'), h', w'))"
  by (auto simp: K8sLoginHandler_def auth_body_def note_login_def who_logs_in_def ttlForRole_def Let_def numeral_eq_Suc
      split: sum.split option.split prod.split)

lemma sweep_alone:
  "run_alone (goroutine_step ev) 3 (Sweeping SweepArrived) (h, w) =
     (Sweeping SweepDone, gw_step (Sweep (ev_order ev) (ev_clock ev 0)) (h, w))"
  by (simp add: cleanup_tick_def Let_def numeral_eq_Suc split: prod.split)

text \<open>
  C14. The steps are the handlers. A read that nobody interrupts ends within eight steps, a login within
  four and a sweep within three, with the response, the panic, the gateway and the world that the handler
  of the code, or the tick of the cleanup, gives.
\<close>

theorem handlers_are_their_steps:
  "run_alone (goroutine_step ev) 8 (Reading r rw ReadArrived) (h, w) =
     (case SecretReadHandler ev r rw h w of (p, rw', h', w') \<Rightarrow> (Reading r rw (ReadDone p rw'), h', w')) \<and>
   run_alone (goroutine_step ev) 4 (LoggingIn r rw LoginArrived) (h, w) =
     (case K8sLoginHandler ev r rw h w of (p, rw', h', w') \<Rightarrow> (LoggingIn r rw (LoginDone rw'), h', w')) \<and>
   run_alone (goroutine_step ev) 3 (Sweeping SweepArrived) (h, w) =
     (Sweeping SweepDone, gw_step (Sweep (ev_order ev) (ev_clock ev 0)) (h, w))"
  by (intro conjI read_alone login_alone sweep_alone)

end
