(* ===== verification/Concurrent_Gateway.thy ===== *)
theory Concurrent_Gateway
  imports Gateway_Steps
begin

text \<open>
  What holds however goroutines interleave: the assertions of the method of rely and guarantee. Shared is
  that the token store and the cache are well formed, that every stored token comes from the steps of a
  login, and that every live cache entry is an answer of the remote service to some goroutine. Each
  goroutine keeps what it knows, because the maps it has in hand are its own.
\<close>

subsection \<open>What the steps of a run say\<close>

text \<open>The goroutine \<open>j\<close> serving \<open>r\<close> asked the remote service, put the answer into the cache, or looked there.\<close>

definition asked :: "backend \<Rightarrow> moves \<Rightarrow> nat \<Rightarrow> Request \<Rightarrow> outcome \<Rightarrow> bool" where
  "asked b tr j r out \<longleftrightarrow>
     (\<exists>rw i start ev. (j, Reading r rw (ReadGetting i start GetAsk), ev) \<in> set tr \<and>
        fst (backend_fetch (ev_remotes ev) b (read_path r)) = out)"

definition kept_at :: "moves \<Rightarrow> nat \<Rightarrow> Request \<Rightarrow> outcome \<Rightarrow> time \<Rightarrow> bool" where
  "kept_at tr j r out t \<longleftrightarrow>
     (\<exists>rw i start ev. (j, Reading r rw (ReadGetting i start (GetAnswer out)), ev) \<in> set tr \<and> ev_clock ev 3 = t)"

definition looked_up :: "moves \<Rightarrow> nat \<Rightarrow> Request \<Rightarrow> time \<Rightarrow> bool" where
  "looked_up tr j r t \<longleftrightarrow> (\<exists>rw i start ev. (j, Reading r rw (ReadGetting i start GetLookup), ev) \<in> set tr \<and> ev_clock ev 2 = t)"

definition lifetime :: "backend \<Rightarrow> outcome \<Rightarrow> duration" where
  "lifetime b out =
     (case out of Value _ \<Rightarrow> cc_TTL (c_cfg (backend_cache b)) | Missing \<Rightarrow> cc_NegativeTTL (c_cfg (backend_cache b)) | Failed _ \<Rightarrow> 0)"

text \<open>At time \<open>t\<close> the answer \<open>out\<close> for the key is one that a goroutine got and stored within its lifetime.\<close>

definition remembered :: "backend \<Rightarrow> moves \<Rightarrow> string \<Rightarrow> time \<Rightarrow> outcome \<Rightarrow> bool" where
  "remembered b tr key t out \<longleftrightarrow>
     (\<exists>j r t0. backend_key b (read_path r) = key \<and> asked b tr j r out \<and> kept_at tr j r out t0 \<and> t \<le> t0 + lifetime b out)"

definition given :: "backend \<Rightarrow> moves \<Rightarrow> nat \<Rightarrow> Request \<Rightarrow> outcome \<Rightarrow> bool" where
  "given b tr i r out \<longleftrightarrow>
     asked b tr i r out \<or> (\<exists>t. looked_up tr i r t \<and> remembered b tr (backend_key b (read_path r)) t out)"

text \<open>The logins of a run: the answer of the review belongs to the first step, clock and random bytes to the second.\<close>

definition logins_of :: "moves \<Rightarrow> (env \<times> Request) set" where
  "logins_of tr =
     {(ev\<lparr>ev_reviews := ev_reviews ev0\<rparr>, r) | ev ev0 r. \<exists>j rw start req i.
        (j, LoggingIn r rw (LoginReviewed start req i), ev) \<in> set tr \<and> (j, LoggingIn r rw LoginArrived, ev0) \<in> set tr}"

text \<open>
  The goroutine \<open>i\<close> serving \<open>r\<close> verified its token, at a moment when every stored token came from a login
  of the steps before that moment, and was admitted as \<open>who\<close>.
\<close>

definition admitted :: "Handlers \<Rightarrow> moves \<Rightarrow> nat \<Rightarrow> Request \<Rightarrow> Identity \<Rightarrow> bool" where
  "admitted h0 tr i r who \<longleftrightarrow>
     (\<exists>later rw ev before h. tr = later @ (i, Reading r rw ReadArrived, ev) # before \<and> Validate (read_path r) = Inr () \<and>
        authorized ev r h who \<and> tokens_from h0 (logins_of before) (h_tokens h) \<and> same_config h0 h \<and> store_inv (h_tokens h))"

lemma logins_ofI:
  "(j, LoggingIn r rw (LoginReviewed start req i), ev) \<in> set tr \<Longrightarrow> (j, LoggingIn r rw LoginArrived, ev0) \<in> set tr \<Longrightarrow>
   (ev\<lparr>ev_reviews := ev_reviews ev0\<rparr>, r) \<in> logins_of tr"
  unfolding logins_of_def by blast

lemma moves_mono:
  assumes "set tr \<subseteq> set tr'"
  shows "asked b tr j r out \<Longrightarrow> asked b tr' j r out" and "kept_at tr j r out t \<Longrightarrow> kept_at tr' j r out t"
    and "looked_up tr j r t \<Longrightarrow> looked_up tr' j r t" and "remembered b tr key t out \<Longrightarrow> remembered b tr' key t out"
    and "given b tr j r out \<Longrightarrow> given b tr' j r out" and "logins_of tr \<subseteq> logins_of tr'"
proof -
  show asked: "asked b tr j r out \<Longrightarrow> asked b tr' j r out" for j r out using assms unfolding asked_def by blast
  show kept: "kept_at tr j r out t \<Longrightarrow> kept_at tr' j r out t" for j r out t using assms unfolding kept_at_def by blast
  show look: "looked_up tr j r t \<Longrightarrow> looked_up tr' j r t" for j r t using assms unfolding looked_up_def by blast
  show rem: "remembered b tr key t out \<Longrightarrow> remembered b tr' key t out" for key t out
    unfolding remembered_def using asked kept by blast
  show "given b tr j r out \<Longrightarrow> given b tr' j r out" unfolding given_def using asked look rem by blast
  show "logins_of tr \<subseteq> logins_of tr'" using assms unfolding logins_of_def by blast
qed

lemma admitted_later: "admitted h0 tr i r who \<Longrightarrow> admitted h0 (m # tr) i r who"
  unfolding admitted_def by (metis append_Cons)

subsection \<open>The cache between steps\<close>

definition entry_backed :: "backend \<Rightarrow> moves \<Rightarrow> string \<Rightarrow> time \<Rightarrow> answer \<Rightarrow> bool" where
  "entry_backed b tr key t ans =
     (case ans of
        Miss \<Rightarrow> True
      | Absent \<Rightarrow> remembered b tr key t Missing
      | Present m \<Rightarrow> (\<exists>out. alloc_deref out = m \<and> remembered b tr key t (Value out)))"

definition cache_backed :: "backend \<Rightarrow> moves \<Rightarrow> Cache \<Rightarrow> mheap \<Rightarrow> bool" where
  "cache_backed b tr c h \<longleftrightarrow> (\<forall>t key. entry_backed b tr key t (cache_peek c h t key))"

lemma entry_backed_mono: "entry_backed b tr key t ans \<Longrightarrow> set tr \<subseteq> set tr' \<Longrightarrow> entry_backed b tr' key t ans"
  unfolding entry_backed_def using moves_mono(4) [of tr tr' b key t] by (auto split: answer.splits)

lemma cache_backed_shrinks:
  assumes "cache_backed b tr c h" and "set tr \<subseteq> set tr'"
    and "\<And>t q. cache_peek c' h' t q = Miss \<or> cache_peek c' h' t q = cache_peek c h t q"
  shows "cache_backed b tr' c' h'"
  unfolding cache_backed_def
proof (intro allI)
  fix t key
  from assms(1) have "entry_backed b tr' key t (cache_peek c h t key)"
    using entry_backed_mono [OF _ assms(2)] by (simp add: cache_backed_def)
  with assms(3) [of t key] show "entry_backed b tr' key t (cache_peek c' h' t key)" by (auto simp: entry_backed_def)
qed

lemma cache_Get_peek:
  assumes "cache_ok c h" and "cache_Get now p c h = (r, c', h')"
  shows "cache_peek c' h' t q = Miss \<or> cache_peek c' h' t q = cache_peek c h t q"
proof -
  have "extends h h'" using cache_Get_keeps [OF assms] by simp
  from peek_extends [OF assms(1) this, of t q]
  have same: "peek_content h' t (map_option content_of (c_items c q)) = peek_content h t (map_option content_of (c_items c q))" .
  show ?thesis
    using assms(2) by (cases rule: cache_Get_cases) (use same in \<open>auto simp: cache_peek_def removeLocked_def peek_content_def\<close>)
qed

text \<open>A store changes one key, where the new answer is backed, and can only drop others.\<close>

lemma cache_backed_store:
  assumes "cache_backed b tr c h" and "set tr \<subseteq> set tr'"
    and "\<And>t. cache_peek c' h' t key = (case ttl of None \<Rightarrow> cache_peek c h t key | Some d \<Rightarrow> if t \<le> now + d then ans else Miss)"
    and "\<And>t q. q \<noteq> key \<Longrightarrow> cache_peek c' h' t q = Miss \<or> cache_peek c' h' t q = cache_peek c h t q"
    and "\<And>t d. ttl = Some d \<Longrightarrow> t \<le> now + d \<Longrightarrow> entry_backed b tr' key t ans"
  shows "cache_backed b tr' c' h'"
  unfolding cache_backed_def
proof (intro allI)
  fix t q
  have old: "entry_backed b tr' q t (cache_peek c h t q)"
    using assms(1) entry_backed_mono [OF _ assms(2)] by (simp add: cache_backed_def)
  have none: "entry_backed b tr' q t Miss" by (simp add: entry_backed_def)
  show "entry_backed b tr' q t (cache_peek c' h' t q)"
  proof (cases "q = key")
    case True
    with old none assms(3) [of t] assms(5) show ?thesis by (cases ttl) auto
  next
    case False
    from assms(4) [OF False, of t] old none show ?thesis by auto
  qed
qed

lemma cache_backed_Set:
  assumes "cache_ok c h" and "c_cfg c = c_cfg (backend_cache b)" and "cache_backed b tr c h" and "set tr \<subseteq> set tr'"
    and "alloc m h = (v, h1)" and "cache_Set now key v c h1 = (c', h')"
    and "\<And>t. t \<le> now + lifetime b (Value m) \<Longrightarrow> remembered b tr' key t (Value m)"
  shows "cache_backed b tr' c' h'"
proof -
  have ok: "cache_ok c h1" and same: "cache_peek c h1 = cache_peek c h"
    using lru.heap_grows [OF assms(1) alloc_spec(1) [OF assms(5)]] by auto
  note peek = cache_Set_peek [OF ok alloc_spec(3) [OF assms(5)] assms(6), unfolded same]
  show ?thesis
  proof (rule cache_backed_store [OF assms(3,4) peek])
    fix t d
    assume "positive_ttl c = Some d" "t \<le> now + d"
    then have "remembered b tr' key t (Value m)"
      using assms(2,7) by (auto simp: positive_ttl_def lifetime_def split: if_splits)
    then show "entry_backed b tr' key t (Present (deref h1 v))"
      using alloc_spec(4) [OF assms(5)] by (auto simp: entry_backed_def)
  qed
qed

lemma cache_backed_SetNegative:
  assumes "cache_ok c h" and "c_cfg c = c_cfg (backend_cache b)" and "cache_backed b tr c h" and "set tr \<subseteq> set tr'"
    and "\<And>t. t \<le> now + lifetime b Missing \<Longrightarrow> remembered b tr' key t Missing"
  shows "cache_backed b tr' (cache_SetNegative now key c) h"
proof (rule cache_backed_store [OF assms(3,4) cache_SetNegative_peek [OF assms(1)]])
  fix t d
  assume "negative_ttl c = Some d" "t \<le> now + d"
  then show "entry_backed b tr' key t Absent"
    using assms(2,5) by (auto simp: entry_backed_def negative_ttl_def lifetime_def split: if_splits)
qed

subsection \<open>Assertions\<close>

text \<open>The maps a goroutine has in hand, and what it knows of them.\<close>

fun get_holds :: "get_pc \<Rightarrow> nat set" where
  "get_holds (GetStored v) = set_option v"
| "get_holds (GetCounted v n) = set_option v"
| "get_holds (GetReturn (Inr v)) = set_option v"
| "get_holds _ = {}"

fun holds :: "goroutine \<Rightarrow> nat set" where
  "holds (Reading r rw (ReadGetting i start pc)) = get_holds pc"
| "holds (Reading r rw (ReadWritten v rw')) = set_option v"
| "holds _ = {}"

fun get_knows :: "backend \<Rightarrow> moves \<Rightarrow> nat \<Rightarrow> Request \<Rightarrow> mheap \<Rightarrow> get_pc \<Rightarrow> bool" where
  "get_knows b tr i r h (GetAnswer out) = asked b tr i r out"
| "get_knows b tr i r h (GetStored v) = (\<exists>out. asked b tr i r (Value out) \<and> deref h v = alloc_deref out)"
| "get_knows b tr i r h (GetCounted v n) = (\<exists>out. asked b tr i r (Value out) \<and> deref h v = alloc_deref out)"
| "get_knows b tr i r h (GetReturn (Inl e)) = (asked b tr i r (Failed e) \<or> e = errSecretNotFound \<and> given b tr i r Missing)"
| "get_knows b tr i r h (GetReturn (Inr v)) = (\<exists>out. given b tr i r (Value out) \<and> deref h v = alloc_deref out)"
| "get_knows b tr i r h _ = True"

text \<open>What a response may say: an answer other than a refusal is for an admitted request, and comes from the remote service.\<close>

definition truthful :: "Handlers \<Rightarrow> backend \<Rightarrow> moves \<Rightarrow> nat \<Rightarrow> Request \<Rightarrow> ResponseWriter \<Rightarrow> bool" where
  "truthful h0 b tr i r rw \<longleftrightarrow>
     (response_status rw \<notin> {None, Some 400, Some 403} \<longrightarrow> (\<exists>who. admitted h0 tr i r who)) \<and>
     (response_status rw = Some 404 \<longrightarrow> given b tr i r Missing \<or> (\<exists>e. asked b tr i r (Failed e))) \<and>
     (response_status rw = Some 502 \<longrightarrow> (\<exists>e. asked b tr i r (Failed e))) \<and>
     (\<forall>resp. BSecret resp \<in> set (rw_body rw) \<longrightarrow> response_status rw = Some 200 \<and>
        (\<exists>out. given b tr i r (Value out) \<and> alloc_deref (sd_Data (sr_Data resp)) = alloc_deref out))"

fun read_knows :: "Handlers \<Rightarrow> backend \<Rightarrow> moves \<Rightarrow> nat \<Rightarrow> Request \<Rightarrow> mheap \<Rightarrow> read_pc \<Rightarrow> bool" where
  "read_knows h0 b tr i r h ReadArrived = True"
| "read_knows h0 b tr i r h (ReadGetting who start pc) = (admitted h0 tr i r who \<and> get_knows b tr i r h pc)"
| "read_knows h0 b tr i r h (ReadWritten v rw) = truthful h0 b tr i r rw"
| "read_knows h0 b tr i r h (ReadDone p rw) = truthful h0 b tr i r rw"

fun login_knows :: "Handlers \<Rightarrow> moves \<Rightarrow> nat \<Rightarrow> Request \<Rightarrow> ResponseWriter \<Rightarrow> login_pc \<Rightarrow> bool" where
  "login_knows h0 tr i r rw (LoginReviewed start req who) =
     (\<exists>ev j. (i, LoggingIn r rw LoginArrived, ev) \<in> set tr \<and> login_fields r = Some req \<and> reviewed ev h0 req = Inr j \<and>
        CheckBinding (h_rbac h0) (lr_Role req) (id_Namespace j) (id_ServiceAccount j) \<and> who = j\<lparr>id_Role := lr_Role req\<rparr>)"
| "login_knows h0 tr i r rw _ = True"

fun knows :: "Handlers \<Rightarrow> backend \<Rightarrow> moves \<Rightarrow> nat \<Rightarrow> mheap \<Rightarrow> goroutine \<Rightarrow> bool" where
  "knows h0 b tr i h (Reading r rw pc) = (unwritten rw \<and> read_knows h0 b tr i r h pc)"
| "knows h0 b tr i h (LoggingIn r rw pc) = login_knows h0 tr i r rw pc"
| "knows h0 b tr i h _ = True"

text \<open>The shared assertion, relative to the state \<open>h0\<close> and the backend \<open>b\<close> of the start, and that of each goroutine.\<close>

definition store_backed :: "Handlers \<Rightarrow> moves \<Rightarrow> Handlers \<Rightarrow> bool" where
  "store_backed h0 tr h \<longleftrightarrow> store_inv (h_tokens h) \<and> same_config h0 h \<and> tokens_from h0 (logins_of tr) (h_tokens h)"

definition gateway_ok :: "Handlers \<Rightarrow> backend \<Rightarrow> shared_state \<Rightarrow> bool" where
  "gateway_ok h0 b s \<longleftrightarrow>
     (case s of ((h, w), tr) \<Rightarrow> store_backed h0 tr h \<and>
        (\<exists>c. h_backend h = Some (set_cache c b) \<and> cache_ok c (w_heap w) \<and> c_cfg c = c_cfg (backend_cache b) \<and>
           cache_backed b tr c (w_heap w)))"

definition cached_maps :: "Handlers \<Rightarrow> nat set" where
  "cached_maps h = (case h_backend h of None \<Rightarrow> {} | Some b \<Rightarrow> owned (backend_cache b))"

definition goroutine_ok :: "Handlers \<Rightarrow> backend \<Rightarrow> nat \<Rightarrow> shared_state \<Rightarrow> goroutine \<Rightarrow> bool" where
  "goroutine_ok h0 b i s g \<longleftrightarrow>
     (case s of ((h, w), tr) \<Rightarrow> holds g \<subseteq> {..<next_addr (w_heap w)} - cached_maps h \<and> knows h0 b tr i (w_heap w) g)"

definition apart :: "goroutine \<Rightarrow> goroutine \<Rightarrow> bool" where
  "apart g k \<longleftrightarrow> holds g \<inter> holds k = {}"

subsection \<open>The guarantee\<close>

text \<open>
  What a step leaves to the others: it changes only maps that the goroutine holds, and what it takes into its
  hands or gives to the cache is newly made or was its own.
\<close>

definition guarantees :: "nat set \<Rightarrow> nat set \<Rightarrow> mheap \<Rightarrow> nat set \<Rightarrow> nat set \<Rightarrow> mheap \<Rightarrow> bool" where
  "guarantees hs cs h hs' cs' h' \<longleftrightarrow>
     next_addr h \<le> next_addr h' \<and> (\<forall>a < next_addr h. a \<notin> hs \<longrightarrow> cells h' a = cells h a) \<and>
     cs' \<subseteq> cs \<union> {next_addr h..} \<and> hs' \<subseteq> hs \<union> {next_addr h..} \<and> hs' \<subseteq> {..<next_addr h'} - cs'"

lemma guarantees_same: "hs' \<subseteq> hs \<Longrightarrow> hs \<subseteq> {..<next_addr h} - cs \<Longrightarrow> guarantees hs cs h hs' cs h"
  by (auto simp: guarantees_def)

lemma guarantees_keeps_deref:
  "guarantees hs cs h hs' cs' h' \<Longrightarrow> set_option v \<subseteq> {..<next_addr h} \<Longrightarrow> set_option v \<inter> hs = {} \<Longrightarrow> deref h' v = deref h v"
  by (cases v) (auto simp: guarantees_def deref_def)

lemma guarantees_others:
  assumes "guarantees hs cs h hs' cs' h'" and "ks \<subseteq> {..<next_addr h} - cs" and "hs \<inter> ks = {}"
  shows "ks \<subseteq> {..<next_addr h'} - cs'" and "hs' \<inter> ks = {}"
proof -
  from assms(1) have g: "next_addr h \<le> next_addr h'" "cs' \<subseteq> cs \<union> {next_addr h..}" "hs' \<subseteq> hs \<union> {next_addr h..}"
    by (simp_all add: guarantees_def)
  have old: "ks \<inter> {next_addr h..} = {}" "ks \<subseteq> {..<next_addr h}" using assms(2) by auto
  from old(2) g(1) have "ks \<subseteq> {..<next_addr h'}" by auto
  with assms(2) g(2) old(1) show "ks \<subseteq> {..<next_addr h'} - cs'" by blast
  from assms(3) g(3) old(1) show "hs' \<inter> ks = {}" by blast
qed

lemma get_knows_stable:
  assumes "guarantees hs cs h hs' cs' h'" and "get_holds pc \<subseteq> {..<next_addr h}" and "get_holds pc \<inter> hs = {}"
    and "get_knows b tr i r h pc" and "set tr \<subseteq> set tr'"
  shows "get_knows b tr' i r h' pc"
proof -
  note mono = moves_mono [OF assms(5)]
  have same: "deref h' v = deref h v" if "get_holds pc = set_option v" for v
    using guarantees_keeps_deref [OF assms(1), of v] assms(2,3) that by simp
  show ?thesis
  proof (cases pc)
    case (GetReturn res)
    with assms(4) mono same show ?thesis by (cases res) fastforce+
  qed (use assms(4) mono same in fastforce)+
qed

lemma truthful_later: "truthful h0 b tr i r rw \<Longrightarrow> truthful h0 b (m # tr) i r rw"
proof -
  have "set tr \<subseteq> set (m # tr)" by auto
  from moves_mono(1,5) [OF this] show "truthful h0 b tr i r rw \<Longrightarrow> truthful h0 b (m # tr) i r rw"
    unfolding truthful_def using admitted_later by meson
qed

text \<open>So every other goroutine still knows what it knew.\<close>

lemma knows_stable:
  assumes "guarantees hs cs h hs' cs' h'" and "holds k \<subseteq> {..<next_addr h}" and "holds k \<inter> hs = {}"
    and "knows h0 b tr i h k"
  shows "knows h0 b (m # tr) i h' k"
proof (cases k)
  case (Reading r rw pc)
  show ?thesis
  proof (cases pc)
    case (ReadGetting who start gpc)
    with get_knows_stable [OF assms(1), of gpc b tr i r "m # tr"] Reading assms(2-4) show ?thesis
      by (auto intro: admitted_later)
  qed (use Reading assms(4) in \<open>auto intro: truthful_later\<close>)
next
  case (LoggingIn r rw pc)
  then show ?thesis using assms(4) by (cases pc) auto
qed simp_all

subsection \<open>Steps of GetSecret\<close>

definition get_fine :: "backend \<Rightarrow> moves \<Rightarrow> nat \<Rightarrow> Request \<Rightarrow> Cache \<Rightarrow> mheap \<Rightarrow> get_pc \<Rightarrow> bool" where
  "get_fine b tr i r c h pc \<longleftrightarrow>
     cache_ok c h \<and> c_cfg c = c_cfg (backend_cache b) \<and> cache_backed b tr c h \<and>
     get_holds pc \<subseteq> {..<next_addr h} - owned c \<and> get_knows b tr i r h pc"

lemma fetch_heap [simp]: "w_heap (snd (backend_fetch rs b path) w) = w_heap w"
  using aws_fetch_quiet vault_fetch_quiet gcp_fetch_quiet by (cases b) (auto simp: logs_only_def)

text \<open>A step that leaves cache and heap alone.\<close>

lemma quiet_fine:
  assumes "get_fine b tr i r c h pc" and "set tr \<subseteq> set tr'" and "get_knows b tr' i r h pc'" and "get_holds pc' \<subseteq> get_holds pc"
  shows "\<exists>c'. set_cache c b = set_cache c' b \<and> get_fine b tr' i r c' h pc' \<and>
    guarantees (get_holds pc) (owned c) h (get_holds pc') (owned c') h"
  using assms cache_backed_shrinks [OF _ assms(2), of b c h c h]
  by (intro exI [of _ c]) (auto simp: get_fine_def guarantees_def)

lemma lookup_fine:
  assumes "get_fine b tr i r c h GetLookup" and "cache_Get (ev_clock ev 2) (backend_key b (read_path r)) c h = ((v, hit, neg), c', h')"
    and "tr' = (i, Reading r rw (ReadGetting who start GetLookup), ev) # tr"
    and "pc' = (if hit then GetReturn (if neg then Inl errSecretNotFound else Inr v) else GetAsk)"
  shows "get_fine b tr' i r c' h' pc' \<and> guarantees {} (owned c) h (get_holds pc') (owned c') h'"
proof -
  let ?key = "backend_key b (read_path r)"
  from assms(1) have ok: "cache_ok c h" and cfg: "c_cfg c = c_cfg (backend_cache b)" and backed: "cache_backed b tr c h"
    by (simp_all add: get_fine_def)
  have sub: "set tr \<subseteq> set tr'" using assms(3) by auto
  note keeps = cache_Get_keeps [OF ok assms(2)]
  have ans: "answers h' (cache_peek c h (ev_clock ev 2) ?key) (v, hit, neg)" and fresh: "fresh_ref h h' v"
    using lru.get_answers [OF ok assms(2)] by auto
  have "looked_up tr' i r (ev_clock ev 2)" unfolding looked_up_def assms(3) by auto
  moreover have "entry_backed b tr' ?key (ev_clock ev 2) (cache_peek c h (ev_clock ev 2) ?key)"
    using backed entry_backed_mono [OF _ sub] by (simp add: cache_backed_def)
  ultimately have knows: "get_knows b tr' i r h' pc'"
    using ans unfolding assms(4) by (auto simp: answers_def entry_backed_def given_def split: answer.splits)
  have none: "v = None" if "neg" "hit" using ans that by (auto simp: answers_def split: answer.splits)
  have held: "get_holds pc' \<subseteq> {next_addr h..<next_addr h'} - owned c'"
    using fresh lru.fresh_not_held [OF ok _ keeps(3)] none unfolding assms(4) by (auto simp: fresh_ref_def)
  have "cache_backed b tr' c' h'" using cache_backed_shrinks [OF backed sub cache_Get_peek [OF ok assms(2)]] .
  with keeps cfg knows held show ?thesis
    by (auto simp: get_fine_def guarantees_def extends_def)
qed

lemma answer_fine:
  assumes "get_fine b tr i r c (w_heap w) (GetAnswer out)" and "tr' = (i, Reading r rw (ReadGetting who start (GetAnswer out)), ev) # tr"
    and "get_step rs t1 (ev_clock ev 3) (read_path r) (GetAnswer out) (set_cache c b) w = (pc', b', w')"
  shows "\<exists>c'. b' = set_cache c' b \<and> get_fine b tr' i r c' (w_heap w') pc' \<and>
    guarantees {} (owned c) (w_heap w) (get_holds pc') (owned c') (w_heap w')"
proof -
  let ?key = "backend_key b (read_path r)"
  from assms(1) have ok: "cache_ok c (w_heap w)" and cfg: "c_cfg c = c_cfg (backend_cache b)"
    and backed: "cache_backed b tr c (w_heap w)" and "asked b tr i r out"
    by (simp_all add: get_fine_def)
  have sub: "set tr \<subseteq> set tr'" using assms(2) by auto
  have asked: "asked b tr' i r out" using moves_mono(1) [OF sub] \<open>asked b tr i r out\<close> .
  have "kept_at tr' i r out (ev_clock ev 3)" unfolding kept_at_def assms(2) by auto
  with asked have rem: "t \<le> ev_clock ev 3 + lifetime b out \<Longrightarrow> remembered b tr' ?key t out" for t
    unfolding remembered_def by blast
  show ?thesis
  proof (cases out)
    case (Value m)
    obtain v h1 where al: "alloc m (w_heap w) = (v, h1)" by (cases "alloc m (w_heap w)")
    obtain c' h' where set: "cache_Set (ev_clock ev 3) ?key v c h1 = (c', h')" by (cases "cache_Set (ev_clock ev 3) ?key v c h1")
    have eq: "pc' = GetStored v" "b' = set_cache c' b" "w_heap w' = h'" using assms(3) Value al set by auto
    note stored = alloc_then_Set [OF ok al set]
    have held: "set_option v \<subseteq> {next_addr (w_heap w)..<next_addr h'} - owned c'" using stored(4) by (cases v) auto
    have "cache_ok c h1" using lru.heap_grows [OF ok alloc_spec(1) [OF al]] by simp
    note put = cache_Set_keeps [OF this set]
    have "next_addr (w_heap w) \<le> next_addr h1" using alloc_spec(1) [OF al] by (simp add: extends_def)
    with put(3) have "owned c' \<subseteq> owned c \<union> {next_addr (w_heap w)..}" by fastforce
    moreover have "cache_backed b tr' c' h'" using cache_backed_Set [OF ok cfg backed sub al set] rem Value by blast
    ultimately show ?thesis
      using eq stored(1-3) held put(4) cfg asked Value by (auto simp: get_fine_def guarantees_def extends_def)
  next
    case Missing
    let ?c = "cache_SetNegative (ev_clock ev 3) ?key c"
    have eq: "pc' = GetReturn (Inl errSecretNotFound)" "b' = set_cache ?c b" "w' = w" using assms(3) Missing by auto
    have "cache_backed b tr' ?c (w_heap w)" using cache_backed_SetNegative [OF ok cfg backed sub] rem Missing by blast
    with eq cache_SetNegative_keeps [OF ok, of "ev_clock ev 3" ?key] cfg asked Missing show ?thesis
      by (auto simp: get_fine_def guarantees_def given_def)
  next
    case (Failed e)
    then have eq: "pc' = GetReturn (Inl e)" "b' = set_cache c b" "w' = w" using assms(3) by auto
    from quiet_fine [OF assms(1) sub, of pc'] asked eq Failed show ?thesis by simp
  qed
qed

lemma get_step_fine:
  assumes "get_fine b tr i r c (w_heap w) pc" and "tr' = (i, Reading r rw (ReadGetting who start pc), ev) # tr"
    and "get_step (ev_remotes ev) (ev_clock ev 2) (ev_clock ev 3) (read_path r) pc (set_cache c b) w = (pc', b', w')"
  shows "\<exists>c'. b' = set_cache c' b \<and> get_fine b tr' i r c' (w_heap w') pc' \<and>
    guarantees (get_holds pc) (owned c) (w_heap w) (get_holds pc') (owned c') (w_heap w')"
proof -
  have sub: "set tr \<subseteq> set tr'" using assms(2) by auto
  note quiet = quiet_fine [OF assms(1) sub, of pc']
  note mono = moves_mono(1,5) [OF sub]
  show ?thesis
  proof (cases pc)
    case GetLookup
    obtain v hit neg c' h' where get: "cache_Get (ev_clock ev 2) (backend_key b (read_path r)) c (w_heap w) = ((v, hit, neg), c', h')"
      by (cases "cache_Get (ev_clock ev 2) (backend_key b (read_path r)) c (w_heap w)") auto
    have eq: "pc' = (if hit then GetReturn (if neg then Inl errSecretNotFound else Inr v) else GetAsk)" "b' = set_cache c' b" "w_heap w' = h'"
      using assms(3) get GetLookup by (auto simp: Let_def split: if_splits)
    from lookup_fine [OF assms(1) [unfolded GetLookup] get assms(2) [unfolded GetLookup] eq(1)] eq GetLookup show ?thesis by auto
  next
    case GetAsk
    then have eq: "pc' = GetAnswer (fst (backend_fetch (ev_remotes ev) b (read_path r)))" "b' = set_cache c b" "w_heap w' = w_heap w"
      using assms(3) by (auto split: prod.splits dest: arg_cong [of _ _ "\<lambda>x. w_heap (snd x w)"])
    then have "get_knows b tr' i r (w_heap w) pc'" unfolding asked_def eq(1) assms(2) GetAsk by (auto simp: asked_def)
    from quiet [OF this] eq GetAsk show ?thesis by simp
  next
    case (GetAnswer out)
    from answer_fine [OF assms(1) [unfolded GetAnswer] assms(2) [unfolded GetAnswer] assms(3) [unfolded GetAnswer]] GetAnswer
    show ?thesis by simp
  next
    case (GetStored v)
    with assms(1,3) have "get_knows b tr' i r (w_heap w) pc'" by (fastforce simp: get_fine_def intro: mono)
    from quiet [OF this] assms(3) GetStored show ?thesis by auto
  next
    case (GetCounted v n)
    with assms(1,3) have "get_knows b tr' i r (w_heap w) pc'" by (fastforce simp: get_fine_def given_def intro: mono)
    from quiet [OF this] assms(3) GetCounted show ?thesis by auto
  next
    case (GetReturn res)
    with assms(1,3) have "get_knows b tr' i r (w_heap w) pc'" by (cases res) (fastforce simp: get_fine_def intro: mono)+
    from quiet [OF this] assms(3) GetReturn show ?thesis by auto
  qed
qed

subsection \<open>Steps of the read handler\<close>

text \<open>What a step of a goroutine achieves: the shared assertion, its own and the guarantee.\<close>

definition step_fine :: "Handlers \<Rightarrow> backend \<Rightarrow> nat \<Rightarrow> goroutine \<Rightarrow> Handlers \<times> world \<Rightarrow> goroutine \<Rightarrow> shared_state \<Rightarrow> bool" where
  "step_fine h0 b i g s g' s' \<longleftrightarrow>
     gateway_ok h0 b s' \<and> knows h0 b (snd s') i (w_heap (snd (fst s'))) g' \<and>
     guarantees (holds g) (cached_maps (fst s)) (w_heap (snd s)) (holds g') (cached_maps (fst (fst s'))) (w_heap (snd (fst s')))"

lemma store_backed_later:
  "store_backed h0 tr h \<Longrightarrow> h_tokens h' = h_tokens h \<Longrightarrow> same_config h h' \<Longrightarrow> store_backed h0 (m # tr) h'"
  unfolding store_backed_def using tokens_from_mono [of h0 "logins_of tr" "h_tokens h"] moves_mono(6) [of tr "m # tr"]
  by (auto simp: same_config_def)

lemma gateway_ok_quiet:
  assumes "gateway_ok h0 b ((h, w), tr)" and "w_heap w' = w_heap w"
  shows "gateway_ok h0 b ((h, w'), m # tr)"
proof -
  obtain c where c: "h_backend h = Some (set_cache c b)" "cache_ok c (w_heap w)" "c_cfg c = c_cfg (backend_cache b)" "cache_backed b tr c (w_heap w)"
    and store: "store_backed h0 tr h" using assms(1) by (auto simp: gateway_ok_def)
  have "store_backed h0 (m # tr) h" using store by (rule store_backed_later) (simp_all add: same_config_def)
  moreover have "cache_backed b (m # tr) c (w_heap w)" by (rule cache_backed_shrinks [OF c(4)]) auto
  ultimately show ?thesis using c(1-3) assms(2) by (auto simp: gateway_ok_def)
qed

text \<open>A step that leaves the shared state alone.\<close>

lemma step_quiet:
  assumes "gateway_ok h0 b ((h, w), tr)" and "goroutine_ok h0 b i ((h, w), tr) g" and "w_heap w' = w_heap w"
    and "holds g' \<subseteq> holds g" and "knows h0 b (m # tr) i (w_heap w) g'"
  shows "step_fine h0 b i g (h, w) g' ((h, w'), m # tr)"
  using gateway_ok_quiet [OF assms(1,3)] assms(2-5) guarantees_same [of "holds g'" "holds g" "w_heap w" "cached_maps h"]
  by (simp add: step_fine_def goroutine_ok_def)

lemma response_bodies [simp]:
  "rw_sent rw = None \<Longrightarrow> rw_body (writeError st msgs rw) = rw_body rw @ [BError \<lparr>er_Errors = (if msgs = [] then [StatusText st] else msgs)\<rparr>]"
  "rw_sent rw = None \<Longrightarrow> rw_body (writePermissionDenied rw) = rw_body rw @ [BError \<lparr>er_Errors = [msgPermissionDenied]\<rparr>]"
  by (simp_all add: writePermissionDenied_def writeError_def Let_def)

lemma truthful_refusal:
  "unwritten rw \<Longrightarrow> truthful h0 b tr i r (writeError 400 msgs rw)" "unwritten rw \<Longrightarrow> truthful h0 b tr i r (writePermissionDenied rw)"
  "unwritten rw \<Longrightarrow> truthful h0 b tr i r rw"
  by (simp_all add: truthful_def unwritten_def)

lemma note_read_heap [simp]: "w_heap (note_read ev r start who res h w) = w_heap w"
  by (simp add: note_read_def split: prod.split)

lemma read_arrived_fine:
  assumes "gateway_ok h0 b ((h, w), tr)" and "goroutine_ok h0 b i ((h, w), tr) (Reading r rw ReadArrived)"
    and "read_step ev r rw ReadArrived h w = Some (pc', h', w')"
  shows "step_fine h0 b i (Reading r rw ReadArrived) (h, w) (Reading r rw pc') ((h', w'), (i, Reading r rw ReadArrived, ev) # tr)"
proof -
  let ?tr = "(i, Reading r rw ReadArrived, ev) # tr"
  have un: "unwritten rw" using assms(2) by (simp add: goroutine_ok_def)
  have backed: "store_backed h0 tr h" using assms(1) by (simp add: gateway_ok_def)
  have "admitted h0 ?tr i r who" if "Validate (read_path r) = Inr ()" "authorized ev r h who" for who
    using backed that unfolding admitted_def store_backed_def by (intro exI [of _ "[]"]) auto
  with assms(3) un have "h' = h \<and> w_heap w' = w_heap w \<and> holds (Reading r rw pc') = {} \<and> read_knows h0 b ?tr i r (w_heap w) pc'"
    by (auto simp: Let_def validatePath_def authorized_def read_path_def truthful_refusal split: sum.splits option.splits if_splits)
  with step_quiet [OF assms(1,2), of w' "Reading r rw pc'"] un show ?thesis by simp
qed

lemma read_return_fine:
  assumes "gateway_ok h0 b ((h, w), tr)" and "goroutine_ok h0 b i ((h, w), tr) (Reading r rw (ReadGetting who start (GetReturn res)))"
    and "read_step ev r rw (ReadGetting who start (GetReturn res)) h w = Some (pc', h', w')"
  shows "step_fine h0 b i (Reading r rw (ReadGetting who start (GetReturn res))) (h, w) (Reading r rw pc')
    ((h', w'), (i, Reading r rw (ReadGetting who start (GetReturn res)), ev) # tr)"
proof -
  let ?g = "Reading r rw (ReadGetting who start (GetReturn res))"
  let ?tr = "(i, ?g, ev) # tr"
  have sub: "set tr \<subseteq> set ?tr" by auto
  from assms(2) have un: "rw_sent rw = None" "rw_body rw = []" and adm: "admitted h0 ?tr i r who"
    and know: "get_knows b tr i r (w_heap w) (GetReturn res)"
    by (auto simp: goroutine_ok_def unwritten_def intro: admitted_later)
  have "h' = h \<and> w_heap w' = w_heap w \<and> holds (Reading r rw pc') \<subseteq> holds ?g \<and> read_knows h0 b ?tr i r (w_heap w) pc'"
  proof (cases res)
    case (Inl e)
    have said: "asked b ?tr i r (Failed e) \<or> e = errSecretNotFound \<and> given b ?tr i r Missing"
      using know Inl moves_mono(1,5) [OF sub] by auto
    with Inl assms(3) un adm show ?thesis
      by (cases e) (auto simp: read_failure_def truthful_def)
  next
    case (Inr v)
    obtain out where out: "given b ?tr i r (Value out)" "deref (w_heap w) v = alloc_deref out"
      using know Inr moves_mono(5) [OF sub] unfolding Inr get_knows.simps by blast
    have "alloc_deref (map_option (cells (w_heap w)) v) = alloc_deref out"
      using out(2) by (cases v) (auto simp: alloc_deref_def deref_def)
    with Inr assms(3) un adm out(1) show ?thesis by (auto simp: truthful_def secret_body_def)
  qed
  with step_quiet [OF assms(1,2), of w' "Reading r rw pc'"] un show ?thesis by (simp add: unwritten_def)
qed

lemma read_written_fine:
  assumes "gateway_ok h0 b ((h, w), tr)" and "goroutine_ok h0 b i ((h, w), tr) (Reading r rw (ReadWritten v rw1))"
    and "read_step ev r rw (ReadWritten v rw1) h w = Some (pc', h', w')"
  shows "step_fine h0 b i (Reading r rw (ReadWritten v rw1)) (h, w) (Reading r rw pc')
    ((h', w'), (i, Reading r rw (ReadWritten v rw1), ev) # tr)"
proof (cases v)
  case None
  with assms(3) have eq: "pc' = ReadDone None rw1" "h' = h" "w_heap w' = w_heap w" by auto
  then show ?thesis
    using step_quiet [OF assms(1,2) eq(3), of "Reading r rw pc'"] assms(2) truthful_later by (auto simp: goroutine_ok_def)
next
  case (Some a)
  let ?tr = "(i, Reading r rw (ReadWritten v rw1), ev) # tr"
  from assms(3) Some have eq: "pc' = ReadDone None rw1" "h' = h" and heap: "w_heap w' = write_map a (clear_loop (ev_order ev) (cells (w_heap w) a)) (w_heap w)"
    by (auto simp: clearMap_Some)
  obtain c where c: "h_backend h = Some (set_cache c b)" "cache_ok c (w_heap w)" "c_cfg c = c_cfg (backend_cache b)" "cache_backed b tr c (w_heap w)"
    and store: "store_backed h0 tr h" using assms(1) by (auto simp: gateway_ok_def)
  have a: "a < next_addr (w_heap w)" "a \<notin> owned c" using assms(2) Some c(1) by (auto simp: goroutine_ok_def cached_maps_def)
  have "cache_ok c (w_heap w')" "cache_peek c (w_heap w') = cache_peek c (w_heap w)"
    using cache_foreign_write [OF c(2) a(2)] heap by auto
  moreover from this cache_backed_shrinks [OF c(4), of ?tr c "w_heap w'"] have "cache_backed b ?tr c (w_heap w')" by auto
  moreover have "store_backed h0 ?tr h" using store by (rule store_backed_later) (simp_all add: same_config_def)
  ultimately have "gateway_ok h0 b ((h', w'), ?tr)" using c(1,3) eq by (auto simp: gateway_ok_def)
  with eq Some assms(2) show ?thesis
    by (auto simp: step_fine_def goroutine_ok_def guarantees_def heap write_map_def intro: truthful_later)
qed

lemma read_get_fine:
  assumes "gateway_ok h0 b ((h, w), tr)" and "goroutine_ok h0 b i ((h, w), tr) (Reading r rw (ReadGetting who start pc))"
    and "read_step ev r rw (ReadGetting who start pc) h w = Some (pc', h', w')" and "\<And>res. pc \<noteq> GetReturn res"
  shows "step_fine h0 b i (Reading r rw (ReadGetting who start pc)) (h, w) (Reading r rw pc')
    ((h', w'), (i, Reading r rw (ReadGetting who start pc), ev) # tr)"
proof -
  let ?tr = "(i, Reading r rw (ReadGetting who start pc), ev) # tr"
  obtain c where c: "h_backend h = Some (set_cache c b)" "cache_ok c (w_heap w)" "c_cfg c = c_cfg (backend_cache b)" "cache_backed b tr c (w_heap w)"
    and store: "store_backed h0 tr h" using assms(1) by (auto simp: gateway_ok_def)
  have fine: "get_fine b tr i r c (w_heap w) pc" using c assms(2) by (auto simp: get_fine_def goroutine_ok_def cached_maps_def)
  obtain gpc b1 w1 where step: "get_step (ev_remotes ev) (ev_clock ev 2) (ev_clock ev 3) (read_path r) pc (set_cache c b) w = (gpc, b1, w1)"
    by (cases "get_step (ev_remotes ev) (ev_clock ev 2) (ev_clock ev 3) (read_path r) pc (set_cache c b) w") auto
  then have eq: "pc' = ReadGetting who start gpc" "h' = h\<lparr>h_backend := Some b1\<rparr>" "w' = w1"
    using assms(3,4) c(1) by (cases pc; auto simp: read_path_def simp del: get_step.simps)+
  obtain c' where c': "b1 = set_cache c' b" "get_fine b ?tr i r c' (w_heap w1) gpc"
      "guarantees (get_holds pc) (owned c) (w_heap w) (get_holds gpc) (owned c') (w_heap w1)"
    using get_step_fine [OF fine refl step] by blast
  have "store_backed h0 ?tr h'" using store by (rule store_backed_later) (simp_all add: eq same_config_def)
  then have "gateway_ok h0 b ((h', w'), ?tr)" using c' eq by (auto simp: gateway_ok_def get_fine_def)
  moreover have "admitted h0 ?tr i r who" "unwritten rw" using assms(2) by (auto simp: goroutine_ok_def intro: admitted_later)
  ultimately show ?thesis using c' eq c(1) by (auto simp: step_fine_def get_fine_def cached_maps_def)
qed

lemma read_step_fine:
  assumes "gateway_ok h0 b ((h, w), tr)" and "goroutine_ok h0 b i ((h, w), tr) (Reading r rw pc)"
    and "read_step ev r rw pc h w = Some (pc', h', w')"
  shows "step_fine h0 b i (Reading r rw pc) (h, w) (Reading r rw pc') ((h', w'), (i, Reading r rw pc, ev) # tr)"
proof (cases pc)
  case ReadArrived
  with read_arrived_fine assms show ?thesis by blast
next
  case (ReadGetting who start gpc)
  with read_return_fine [of h0 b h w tr i r rw who start _ ev pc' h' w'] read_get_fine [of h0 b h w tr i r rw who start gpc ev pc' h' w'] assms
  show ?thesis by (cases "\<exists>res. gpc = GetReturn res") auto
next
  case (ReadWritten v rw1)
  with read_written_fine assms show ?thesis by blast
next
  case (ReadDone p rw1)
  with assms(3) show ?thesis by simp
qed

subsection \<open>Steps of logins, sweeps and health checks\<close>

text \<open>A step that changes the token store only.\<close>

lemma step_store:
  assumes "gateway_ok h0 b ((h, w), tr)" and "holds g = {}" and "holds g' = {}" and "w_heap w' = w_heap w"
    and "h' = h\<lparr>h_tokens := toks\<rparr>" and "store_inv toks" and "tokens_from h0 (logins_of (m # tr)) toks" and "knows h0 b (m # tr) i (w_heap w) g'"
  shows "step_fine h0 b i g (h, w) g' ((h', w'), m # tr)"
proof -
  have "store_backed h0 (m # tr) h'" using assms(1,5-7) by (auto simp: gateway_ok_def store_backed_def same_config_def)
  moreover have "gateway_ok h0 b ((h, w'), m # tr)" using gateway_ok_quiet [OF assms(1,4)] .
  ultimately show ?thesis using assms(2-5,8) by (auto simp: step_fine_def gateway_ok_def cached_maps_def guarantees_def)
qed

lemma note_login_heap [simp]: "w_heap (note_login ev r start who role res h w) = w_heap w"
  by (simp add: note_login_def)

lemma login_issue_fine:
  assumes "gateway_ok h0 b ((h, w), tr)" and "goroutine_ok h0 b i ((h, w), tr) (LoggingIn r rw (LoginReviewed start req who))"
    and "login_step ev r rw (LoginReviewed start req who) h w = Some (pc', h', w')"
  shows "step_fine h0 b i (LoggingIn r rw (LoginReviewed start req who)) (h, w) (LoggingIn r rw pc')
    ((h', w'), (i, LoggingIn r rw (LoginReviewed start req who), ev) # tr)"
proof -
  let ?tr = "(i, LoggingIn r rw (LoginReviewed start req who), ev) # tr" and ?ttl = "ttlForRole h (lr_Role req)"
  have sub: "set tr \<subseteq> set ?tr" by auto
  from assms(1) have inv: "store_inv (h_tokens h)" and same: "same_config h0 h" and from_tr: "tokens_from h0 (logins_of tr) (h_tokens h)"
    by (auto simp: gateway_ok_def store_backed_def)
  obtain res toks where issue: "IssueToken (ev_rnd1 ev) (ev_rnd2 ev) (ev_clock ev 1) who ?ttl (h_tokens h) = (res, toks)"
    by (cases "IssueToken (ev_rnd1 ev) (ev_rnd2 ev) (ev_clock ev 1) who ?ttl (h_tokens h)")
  have eq: "h' = h\<lparr>h_tokens := toks\<rparr>" "w_heap w' = w_heap w" "login_knows h0 ?tr i r rw pc'"
    using assms(3) issue by (auto split: sum.splits)
  have "tokens_from h0 (logins_of ?tr) toks"
  proof (cases res)
    case (Inl e)
    with tokens.issue_refused [OF inv] issue from_tr tokens_from_mono moves_mono(6) [OF sub] show ?thesis by blast
  next
    case (Inr ta)
    let ?exp = "ev_clock ev 1 + ?ttl"
    have view: "randomHex (ev_rnd1 ev) = Some (fst ta)" "store_view toks = (store_view (h_tokens h))(fst ta \<mapsto> (who, ?exp))"
      using tokens.issue_view [OF inv, of "ev_rnd1 ev" "ev_rnd2 ev" "ev_clock ev 1" who ?ttl "fst ta" "snd ta" toks] issue Inr by auto
    obtain ev0 j where login: "(i, LoggingIn r rw LoginArrived, ev0) \<in> set tr" "login_fields r = Some req" "reviewed ev0 h0 req = Inr j"
        "CheckBinding (h_rbac h0) (lr_Role req) (id_Namespace j) (id_ServiceAccount j)" "who = j\<lparr>id_Role := lr_Role req\<rparr>"
      using assms(2) by (auto simp: goroutine_ok_def)
    let ?ev = "ev\<lparr>ev_reviews := ev_reviews ev0\<rparr>"
    have "?ttl = ttlForRole h0 (lr_Role req)" using same by (simp add: same_config_def ttlForRole_def split: option.split)
    then have "granted h0 ?ev r (fst ta) who ?exp" using login view(1) by (auto simp: granted_def reviewed_def)
    moreover have "(?ev, r) \<in> logins_of ?tr" by (rule logins_ofI [of i _ rw start req who]) (use login(1) in auto)
    ultimately show ?thesis
      using tokens_from_mono [OF from_tr moves_mono(6) [OF sub]] view(2) by (auto simp: tokens_from_def split: if_splits)
  qed
  moreover have "store_inv toks" using tokens.issue_ok [OF inv, of "ev_rnd1 ev" "ev_rnd2 ev" "ev_clock ev 1" who ?ttl] issue by simp
  ultimately show ?thesis using step_store [OF assms(1) _ _ eq(2,1)] eq(3) by simp
qed

lemma login_arrived:
  assumes "login_step ev r rw LoginArrived h w = Some (pc', h', w')"
  shows "h' = h \<and> w_heap w' = w_heap w" and "(\<exists>rw'. pc' = LoginDone rw') \<or>
    (\<exists>req j. login_fields r = Some req \<and> reviewed ev h req = Inr j \<and>
       CheckBinding (h_rbac h) (lr_Role req) (id_Namespace j) (id_ServiceAccount j) \<and>
       pc' = LoginReviewed (ev_clock ev 0) req (j\<lparr>id_Role := lr_Role req\<rparr>))"
proof -
  have "(h' = h \<and> w_heap w' = w_heap w) \<and> ((\<exists>rw'. pc' = LoginDone rw') \<or>
    (\<exists>req j. login_fields r = Some req \<and> reviewed ev h req = Inr j \<and>
       CheckBinding (h_rbac h) (lr_Role req) (id_Namespace j) (id_ServiceAccount j) \<and>
       pc' = LoginReviewed (ev_clock ev 0) req (j\<lparr>id_Role := lr_Role req\<rparr>)))"
  proof (cases "login_fields r")
    case None
    with assms show ?thesis by (auto simp: login_fields_def Let_def split: sum.splits option.splits if_splits)
  next
    case (Some req)
    then obtain doc where "req_Body r = Inr doc" "decode_login doc = Some req" "lr_JWT req \<noteq> []" "lr_Role req \<noteq> []"
      by (auto simp: login_fields_def split: sum.splits option.splits if_splits)
    with assms Some show ?thesis by (cases "reviewed ev h req") (auto simp: reviewed_def Let_def split: if_splits)
  qed
  then show "h' = h \<and> w_heap w' = w_heap w" and "(\<exists>rw'. pc' = LoginDone rw') \<or>
    (\<exists>req j. login_fields r = Some req \<and> reviewed ev h req = Inr j \<and>
       CheckBinding (h_rbac h) (lr_Role req) (id_Namespace j) (id_ServiceAccount j) \<and>
       pc' = LoginReviewed (ev_clock ev 0) req (j\<lparr>id_Role := lr_Role req\<rparr>))" by simp_all
qed

lemma login_step_fine:
  assumes "gateway_ok h0 b ((h, w), tr)" and "goroutine_ok h0 b i ((h, w), tr) (LoggingIn r rw pc)"
    and "login_step ev r rw pc h w = Some (pc', h', w')"
  shows "step_fine h0 b i (LoggingIn r rw pc) (h, w) (LoggingIn r rw pc') ((h', w'), (i, LoggingIn r rw pc, ev) # tr)"
proof (cases pc)
  case LoginArrived
  let ?tr = "(i, LoggingIn r rw LoginArrived, ev) # tr"
  have same: "same_config h0 h" using assms(1) by (auto simp: gateway_ok_def store_backed_def)
  then have "h_rbac h = h_rbac h0" "reviewed ev h req = reviewed ev h0 req" for req by (simp_all add: same_config_def reviewed_def)
  moreover have "(i, LoggingIn r rw LoginArrived, ev) \<in> set ?tr" by simp
  moreover note arrived = login_arrived [OF assms(3) [unfolded LoginArrived]]
  ultimately have "login_knows h0 ?tr i r rw pc'"
    by (metis login_knows.simps(1,5))
  with step_quiet [OF assms(1,2), of w' "LoggingIn r rw pc'"] arrived(1) LoginArrived show ?thesis by simp
next
  case (LoginReviewed start req who)
  with login_issue_fine assms show ?thesis by blast
next
  case (LoginIssued start req who tok)
  with step_quiet [OF assms(1,2), of w' "LoggingIn r rw pc'"] assms(3) show ?thesis by auto
next
  case (LoginCounted start req who tok n)
  then have "pc' = LoginDone (writeJSON 200 (auth_body r req who (ttlForRole h (lr_Role req)) (fst tok) (snd tok)) rw)" "h' = h"
    "w_heap w' = w_heap w" using assms(3) by (auto simp: Let_def)
  with step_quiet [OF assms(1,2), of w' "LoggingIn r rw pc'"] show ?thesis by simp
next
  case (LoginDone rw1)
  with assms(3) show ?thesis by simp
qed

lemma sweep_step_fine:
  assumes "gateway_ok h0 b ((h, w), tr)" and "goroutine_ok h0 b i ((h, w), tr) (Sweeping pc)"
    and "sweep_step order now pc h w = Some (pc', h', w')"
  shows "step_fine h0 b i (Sweeping pc) (h, w) (Sweeping pc') ((h', w'), m # tr)"
proof (cases "pc = SweepArrived")
  case True
  from assms(1) have inv: "store_inv (h_tokens h)" and "tokens_from h0 (logins_of tr) (h_tokens h)"
    by (auto simp: gateway_ok_def store_backed_def)
  then have "tokens_from h0 (logins_of (m # tr)) (snd (CleanupExpired order now (h_tokens h)))"
    by (intro tokens_from_mono [OF tokens_from_sweep moves_mono(6)]) auto
  moreover have "h' = h\<lparr>h_tokens := snd (CleanupExpired order now (h_tokens h))\<rparr>" "w_heap w' = w_heap w" using assms(3) True by auto
  ultimately show ?thesis using step_store [OF assms(1), of "Sweeping pc" "Sweeping pc'" w' h' _ m] tokens.sweep_ok [OF inv] by simp
next
  case False
  with assms(3) have "h' = h" "w_heap w' = w_heap w" by (cases pc; auto)+
  with step_quiet [OF assms(1,2), of w' "Sweeping pc'"] show ?thesis by simp
qed

lemma goroutine_step_fine:
  assumes "gateway_ok h0 b ((h, w), tr)" and "goroutine_ok h0 b i ((h, w), tr) g" and "goroutine_step ev g (h, w) = Some (g', s')"
  shows "step_fine h0 b i g (h, w) g' (s', (i, g, ev) # tr)"
proof (cases g)
  case (Reading r rw pc)
  then obtain pc' h' w' where "read_step ev r rw pc h w = Some (pc', h', w')" "g' = Reading r rw pc'" "s' = (h', w')"
    using assms(3) by auto
  with read_step_fine assms(1,2) Reading show ?thesis by blast
next
  case (LoggingIn r rw pc)
  then obtain pc' h' w' where "login_step ev r rw pc h w = Some (pc', h', w')" "g' = LoggingIn r rw pc'" "s' = (h', w')"
    using assms(3) by auto
  with login_step_fine assms(1,2) LoggingIn show ?thesis by blast
next
  case (Sweeping pc)
  then obtain pc' h' w' where "sweep_step (ev_order ev) (ev_clock ev 0) pc h w = Some (pc', h', w')" "g' = Sweeping pc'" "s' = (h', w')"
    using assms(3) by auto
  with sweep_step_fine assms(1,2) Sweeping show ?thesis by blast
next
  case (Checking r rw res)
  with assms(3) have "res = None" by (cases res) auto
  with Checking assms(3) obtain p rw' h' w' where run: "HealthHandler ev r rw h w = (p, rw', h', w')"
    and eq: "g' = Checking r rw (Some rw')" "s' = (h', w')"
    by (cases "HealthHandler ev r rw h w") auto
  from HealthHandler_fields [OF run] step_quiet [OF assms(1,2), of w' g'] eq Checking show ?thesis by auto
qed

subsection \<open>Every interleaving\<close>

interpretation gateway: side_by_side gateway_step starts "gateway_ok h0 b" "goroutine_ok h0 b" apart for h0 b
proof unfold_locales
  show "goroutine_ok h0 b i s g" if "starts g" for s g i
    using that by (cases g) (auto simp: goroutine_ok_def split: prod.split)
  show "apart g k" if "starts g" for g k
    using that by (cases g) (auto simp: apart_def)
  show "apart k g" if "apart g k" for g k
    using that by (auto simp: apart_def)
next
  fix s :: shared_state and i g ev g' s'
  assume ok: "gateway_ok h0 b s" and own: "goroutine_ok h0 b i s g" and step: "gateway_step i ev g s = Some (g', s')"
  obtain h w tr where s: "s = ((h, w), tr)" by (cases s) auto
  with step obtain h' w' where s': "s' = ((h', w'), (i, g, ev) # tr)" and run: "goroutine_step ev g (h, w) = Some (g', (h', w'))" by auto
  note fine = goroutine_step_fine [OF ok [unfolded s] own [unfolded s] run, folded s']
  then show "gateway_ok h0 b s'" by (simp add: step_fine_def)
  from fine show "goroutine_ok h0 b i s' g'"
    by (simp add: step_fine_def goroutine_ok_def guarantees_def s')
  fix j k
  assume k: "goroutine_ok h0 b j s k" and "apart g k"
  from fine have guar: "guarantees (holds g) (cached_maps h) (w_heap w) (holds g') (cached_maps h') (w_heap w')"
    by (simp add: step_fine_def s')
  have held: "holds k \<subseteq> {..<next_addr (w_heap w)} - cached_maps h" "holds g \<inter> holds k = {}"
    using k s \<open>apart g k\<close> by (simp_all add: goroutine_ok_def apart_def)
  have "knows h0 b ((i, g, ev) # tr) j (w_heap w') k"
    using k s held by (intro knows_stable [OF guar]) (auto simp: goroutine_ok_def)
  with guarantees_others [OF guar held] show "goroutine_ok h0 b j s' k \<and> apart g' k"
    by (simp add: goroutine_ok_def s' apart_def)
qed

end
