(* ===== verification/Go_Time.thy ===== *)
theory Go_Time
  imports Go_Strings
begin

text \<open>
  \<open>time.ParseDuration\<close> and \<open>Duration.String\<close>, as the configuration file and vault-env use them. Values
  are \<open>uint64\<close> with their wrap-around written out. The one floating-point step, the fraction of a
  unit in nanoseconds from the digits after the point, the unit and the scale, is an argument.
\<close>

datatype duration_error = InvalidDuration | MissingUnit | UnknownUnit string

fun duration_error_text :: "string \<Rightarrow> duration_error \<Rightarrow> string" where
  "duration_error_text orig InvalidDuration = ''time: invalid duration '' @ quoted orig"
| "duration_error_text orig MissingUnit = ''time: missing unit in duration '' @ quoted orig"
| "duration_error_text orig (UnknownUnit u) = ''time: unknown unit '' @ quoted u @ '' in duration '' @ quoted orig"

fun leadingInt :: "string \<Rightarrow> nat \<Rightarrow> (nat \<times> string) option" where
  "leadingInt [] x = Some (x, [])"
| "leadingInt (c # s) x =
     (if \<not> is_digit c then Some (x, c # s)
      else if x > 2 ^ 63 div 10 then None
      else
        let x = x * 10 + (code c - 48) in
        if x > 2 ^ 63 then None else leadingInt s x)"

fun leadingFraction :: "string \<Rightarrow> nat \<Rightarrow> nat \<Rightarrow> bool \<Rightarrow> nat \<times> nat \<times> string" where
  "leadingFraction [] x scale overflow = (x, scale, [])"
| "leadingFraction (c # s) x scale overflow =
     (if \<not> is_digit c then (x, scale, c # s)
      else if overflow then leadingFraction s x scale overflow
      else if x > (2 ^ 63 - 1) div 10 then leadingFraction s x scale True
      else
        let y = x * 10 + (code c - 48) in
        if y > 2 ^ 63 then leadingFraction s x scale True
        else leadingFraction s y (scale * 10) overflow)"

text \<open>The two spellings of a microsecond outside ASCII are the micro sign and the letter mu.\<close>

definition unitMap :: "string \<Rightarrow> nat option" where
  "unitMap u =
     (if u = ''ns'' then Some 1
      else if u = ''us'' \<or> u = [CHR 0xC2, CHR 0xB5, CHR ''s''] \<or> u = [CHR 0xCE, CHR 0xBC, CHR ''s''] then Some (10 ^ 3)
      else if u = ''ms'' then Some (10 ^ 6)
      else if u = ''s'' then Some (10 ^ 9)
      else if u = ''m'' then Some (60 * 10 ^ 9)
      else if u = ''h'' then Some (3600 * 10 ^ 9)
      else None)"

definition unit_byte :: "char \<Rightarrow> bool" where
  "unit_byte c \<longleftrightarrow> \<not> (c = CHR ''.'' \<or> is_digit c)"

text \<open>One round of the loop: a number and its unit, with the rest of the text.\<close>

definition duration_term :: "(nat \<Rightarrow> nat \<Rightarrow> nat \<Rightarrow> nat) \<Rightarrow> string \<Rightarrow> duration_error + (nat \<times> string)" where
  "duration_term fr s =
     (if s = [] \<or> \<not> (hd s = CHR ''.'' \<or> is_digit (hd s)) then Inl InvalidDuration
      else
      case leadingInt s 0 of
        None \<Rightarrow> Inl InvalidDuration
      | Some (v, s1) \<Rightarrow>
      let pre = length s \<noteq> length s1;
          dot = HasPrefix s1 ''.'';
          (f, scale, s2) = (if dot then leadingFraction (tl s1) 0 1 False else (0, 1, s1));
          post = dot \<and> length (tl s1) \<noteq> length s2
      in
      if \<not> pre \<and> \<not> post then Inl InvalidDuration
      else
      let u = takeWhile unit_byte s2; s3 = dropWhile unit_byte s2 in
      if u = [] then Inl MissingUnit
      else
      case unitMap u of
        None \<Rightarrow> Inl (UnknownUnit u)
      | Some unit \<Rightarrow>
      if v > 2 ^ 63 div unit then Inl InvalidDuration
      else
      let v = v * unit in
      if f > 0 then
        let v = (v + fr f unit scale) mod 2 ^ 64 in
        if v > 2 ^ 63 then Inl InvalidDuration else Inr (v, s3)
      else Inr (v, s3))"

lemma leadingInt_shorter: "leadingInt s x = Some (v, r) \<Longrightarrow> length r \<le> length s"
  by (induction s x rule: leadingInt.induct) (auto simp: Let_def split: if_splits)

lemma leadingFraction_shorter: "leadingFraction s x sc ov = (f, sc', r) \<Longrightarrow> length r \<le> length s"
  by (induction s arbitrary: x sc ov) (auto simp: Let_def intro: le_SucI split: if_splits)

lemma duration_term_shorter:
  assumes "duration_term fr s = Inr (v, r)"
  shows "length r < length s"
proof -
  obtain v0 s1 where int: "leadingInt s 0 = Some (v0, s1)"
    using assms by (auto simp: duration_term_def split: if_splits option.splits)
  obtain f scale s2 where frc: "(if HasPrefix s1 ''.'' then leadingFraction (tl s1) 0 1 False else (0, 1, s1)) = (f, scale, s2)"
    by (cases "if HasPrefix s1 ''.'' then leadingFraction (tl s1) 0 1 False else (0, 1, s1)") auto
  have short: "length s2 \<le> length s"
    using leadingInt_shorter [OF int] frc
    by (cases "HasPrefix s1 ''.''") (auto dest!: leadingFraction_shorter)
  have ne: "takeWhile unit_byte s2 \<noteq> []" and r: "r = dropWhile unit_byte s2"
    using assms frc by (auto simp: duration_term_def int Let_def split: if_splits option.splits)
  have "length s2 = length (takeWhile unit_byte s2) + length r"
    unfolding r by (metis length_append takeWhile_dropWhile_id)
  with ne have "length r < length s2" by simp
  with short show ?thesis by simp
qed

function duration_loop :: "(nat \<Rightarrow> nat \<Rightarrow> nat \<Rightarrow> nat) \<Rightarrow> string \<Rightarrow> nat \<Rightarrow> duration_error + nat" where
  "duration_loop fr s d =
     (if s = [] then Inr d
      else
      case duration_term fr s of
        Inl e \<Rightarrow> Inl e
      | Inr (v, s') \<Rightarrow>
      let d = (d + v) mod 2 ^ 64 in
      if d > 2 ^ 63 then Inl InvalidDuration else duration_loop fr s' d)"
  by pat_completeness auto
termination
  by (relation "measure (\<lambda>(fr, s, d). length s)") (auto dest: duration_term_shorter)

declare duration_loop.simps [simp del]

definition ParseDuration :: "(nat \<Rightarrow> nat \<Rightarrow> nat \<Rightarrow> nat) \<Rightarrow> string \<Rightarrow> duration_error + duration" where
  "ParseDuration fr s =
     (let neg = HasPrefix s ''-'';
          s = (if HasPrefix s ''-'' \<or> HasPrefix s ''+'' then tl s else s)
      in
      if s = ''0'' then Inr 0
      else if s = '''' then Inl InvalidDuration
      else
      case duration_loop fr s 0 of
        Inl e \<Rightarrow> Inl e
      | Inr d \<Rightarrow>
      if neg then Inr (- int d)
      else if d > 2 ^ 63 - 1 then Inl InvalidDuration
      else Inr (int d))"


subsection \<open>Properties\<close>

lemma is_digit_hextable: "n < 10 \<Longrightarrow> is_digit (hextable ! n) \<and> code (hextable ! n) - 48 = n"
proof -
  assume "n < 10"
  then have "n \<in> {0, 1, 2, 3, 4, 5, 6, 7, 8, 9}" by auto
  then show ?thesis by (auto simp: hextable_def is_digit_def code_def)
qed

lemma dec_value_append: "dec_value (a @ b) x = dec_value b (dec_value a x)"
  by (induction a arbitrary: x) auto

lemma dec_digits_value: "dec_value (dec_digits n) 0 = n"
proof (induction n rule: dec_digits.induct)
  case (1 n)
  show ?case
  proof (cases "n < 10")
    case True
    then show ?thesis using is_digit_hextable [of n] by (simp add: dec_digits.simps)
  next
    case False
    have "code (hextable ! (n mod 10)) - 48 = n mod 10" using is_digit_hextable [of "n mod 10"] by simp
    with False 1 show ?thesis by (simp add: dec_digits.simps [of n] dec_value_append)
  qed
qed

lemma dec_digits_digits: "list_all is_digit (dec_digits n)"
proof (induction n rule: dec_digits.induct)
  case (1 n)
  then show ?case using is_digit_hextable [of n] is_digit_hextable [of "n mod 10"]
    by (simp add: dec_digits.simps [of n])
qed

lemma dec_digits_nonempty: "dec_digits n \<noteq> []"
  by (simp add: dec_digits.simps)

lemma dec_value_mono: "x \<le> dec_value s x"
proof (induction s arbitrary: x)
  case (Cons c s)
  have "x \<le> x * 10 + (code c - 48)" by simp
  with Cons [of "x * 10 + (code c - 48)"] show ?case by simp
qed simp

lemma leadingInt_digits:
  "list_all is_digit ds \<Longrightarrow> (r = [] \<or> \<not> is_digit (hd r)) \<Longrightarrow> x \<le> 2 ^ 63 \<Longrightarrow>
   leadingInt (ds @ r) x = (if dec_value ds x \<le> 2 ^ 63 then Some (dec_value ds x, r) else None)"
proof (induction ds arbitrary: x)
  case Nil
  then show ?case by (cases r) auto
next
  case (Cons c ds)
  have mono: "x * 10 + (code c - 48) \<le> dec_value ds (x * 10 + (code c - 48))" by (rule dec_value_mono)
  show ?case
    using Cons mono by (cases "x * 10 + (code c - 48) \<le> 2 ^ 63") (auto simp: Let_def)
qed

lemma unitMap_bytes:
  assumes "unitMap u = Some n"
  shows "u \<noteq> []" and "takeWhile unit_byte u = u" and "dropWhile unit_byte u = []" and "0 < n" and "\<not> is_digit (hd u)"
    and "\<not> HasPrefix u ''.''"
proof -
  have "u \<in> {''ns'', ''us'', [CHR 0xC2, CHR 0xB5, CHR ''s''], [CHR 0xCE, CHR 0xBC, CHR ''s''], ''ms'', ''s'', ''m'', ''h''}"
    using assms by (auto simp: unitMap_def split: if_splits)
  then show "u \<noteq> []" "takeWhile unit_byte u = u" "dropWhile unit_byte u = []" "\<not> is_digit (hd u)" "\<not> HasPrefix u ''.''"
    by (auto simp: unit_byte_def is_digit_def code_def HasPrefix_def)
  show "0 < n" using assms by (auto simp: unitMap_def split: if_splits)
qed

lemma duration_term_plain:
  assumes "unitMap u = Some unit"
  shows "duration_term fr (dec_digits n @ u) = (if n * unit \<le> 2 ^ 63 then Inr (n * unit, []) else Inl InvalidDuration)"
proof -
  note u = unitMap_bytes [OF assms]
  have hd: "is_digit (hd (dec_digits n @ u))"
    using dec_digits_digits [of n] dec_digits_nonempty [of n] by (cases "dec_digits n") auto
  have int: "leadingInt (dec_digits n @ u) 0 = (if n \<le> 2 ^ 63 then Some (n, u) else None)"
    using leadingInt_digits [OF dec_digits_digits, of u 0 n] u(5) by (simp add: dec_digits_value)
  have big: "2 ^ 63 < n \<Longrightarrow> 2 ^ 63 < n * unit"
    using u(4) by (metis less_le_trans mult.right_neutral mult_le_mono2 Suc_leI One_nat_def)
  have "n > 2 ^ 63 div unit \<longleftrightarrow> n * unit > 2 ^ 63"
    using u(4) by (metis div_less_iff_less_mult not_le less_eq_div_iff_mult_less_eq)
  then show ?thesis
    using hd u(1,6) assms dec_digits_nonempty [of n] big
    by (cases "n \<le> 2 ^ 63") (simp_all add: duration_term_def int u(2,3) Let_def)
qed

text \<open>A decimal number and a unit parse to their product, when it fits 64 bits.\<close>

lemma ParseDuration_plain:
  assumes "unitMap u = Some unit"
  shows "ParseDuration fr (dec_digits n @ u) =
    (if n * unit < 2 ^ 63 then Inr (int n * int unit) else Inl InvalidDuration)"
proof -
  note u = unitMap_bytes [OF assms]
  have "hd (dec_digits n @ u) \<noteq> CHR ''-''" "hd (dec_digits n @ u) \<noteq> CHR ''+''"
    using dec_digits_digits [of n] dec_digits_nonempty [of n] by (cases "dec_digits n"; auto simp: is_digit_def code_def)+
  then have sign: "\<not> HasPrefix (dec_digits n @ u) ''-''" "\<not> HasPrefix (dec_digits n @ u) ''+''"
    by (auto simp: HasPrefix_iff)
  have zero: "dec_digits n @ u \<noteq> ''0''"
    using dec_digits_nonempty [of n] u(1) by (cases "dec_digits n") auto
  have "duration_loop fr (dec_digits n @ u) 0 = (if n * unit \<le> 2 ^ 63 then Inr (n * unit) else Inl InvalidDuration)"
    using dec_digits_nonempty [of n]
    by (simp add: duration_loop.simps [of fr "dec_digits n @ u"] duration_loop.simps [of fr "[]"] duration_term_plain [OF assms])
  with zero sign dec_digits_nonempty [of n] show ?thesis
    by (auto simp: ParseDuration_def Let_def)
qed

subsection \<open>Printing\<close>

text \<open>
  \<open>Duration.String\<close>. Its buffer is filled from the right; here the text so far is the argument.
\<close>

fun fmtFrac :: "nat \<Rightarrow> bool \<Rightarrow> nat \<Rightarrow> string \<Rightarrow> string \<times> nat" where
  "fmtFrac 0 prt v out = (if prt then CHR ''.'' # out else out, v)"
| "fmtFrac (Suc i) prt v out =
     (let digit = v mod 10; prt = (prt \<or> digit \<noteq> 0)
      in fmtFrac i prt (v div 10) (if prt then hextable ! digit # out else out))"

definition Duration_String :: "duration \<Rightarrow> string" where
  "Duration_String d =
     (let u = nat \<bar>d\<bar>;
          sign = (if d < 0 then ''-'' else '''')
      in
      if u < 10 ^ 9 then
        if u = 0 then ''0s''
        else
        let (prec, unit) = (if u < 10 ^ 3 then (0, ''ns'') else if u < 10 ^ 6 then (3, [CHR 0xC2, CHR 0xB5, CHR ''s'']) else (6, ''ms''));
            (out, v) = fmtFrac prec False u unit
        in sign @ dec_digits v @ out
      else
        let (out, v) = fmtFrac 9 False u ''s'';
            out = dec_digits (v mod 60) @ out;
            v = v div 60
        in
        if 0 < v then
          let out = dec_digits (v mod 60) @ ''m'' @ out;
              v = v div 60
          in if 0 < v then sign @ dec_digits v @ ''h'' @ out else sign @ out
        else sign @ out)"

text \<open>The digits of a fraction, without trailing zeros.\<close>

fun frac_digits :: "nat \<Rightarrow> bool \<Rightarrow> nat \<Rightarrow> string \<Rightarrow> string" where
  "frac_digits 0 prt v out = out"
| "frac_digits (Suc i) prt v out =
     (let digit = v mod 10; prt = (prt \<or> digit \<noteq> 0)
      in frac_digits i prt (v div 10) (if prt then hextable ! digit # out else out))"

lemma fmtFrac_parts:
  "fmtFrac prec prt v (out @ r) = ((if prt \<or> v mod 10 ^ prec \<noteq> 0 then CHR ''.'' # frac_digits prec prt v out @ r else out @ r), v div 10 ^ prec)"
proof (induction prec arbitrary: prt v out)
  case (Suc i)
  have mod: "v mod 10 ^ Suc i = v mod 10 + 10 * (v div 10 mod 10 ^ i)" by (simp add: mod_mult2_eq add.commute)
  have div: "v div 10 div 10 ^ i = v div 10 ^ Suc i" by (simp add: div_mult2_eq)
  show ?case
  proof (cases "prt \<or> v mod 10 \<noteq> 0")
    case True
    have "fmtFrac (Suc i) prt v (out @ r) = fmtFrac i True (v div 10) ((hextable ! (v mod 10) # out) @ r)"
      using True by (auto simp: Let_def)
    with True div mod show ?thesis by (simp only: Suc.IH) (auto simp: Let_def)
  next
    case False
    then have "fmtFrac (Suc i) prt v (out @ r) = fmtFrac i False (v div 10) (out @ r)" by (simp add: Let_def)
    with False div mod show ?thesis by (simp only: Suc.IH) (auto simp: Let_def)
  qed
qed simp

lemma dec_value_shift: "dec_value ds x = x * 10 ^ length ds + dec_value ds 0"
proof (induction ds arbitrary: x)
  case (Cons c ds)
  have "dec_value (c # ds) x = (x * 10 + (code c - 48)) * 10 ^ length ds + dec_value ds 0"
    using Cons [of "x * 10 + (code c - 48)"] by simp
  moreover have "dec_value (c # ds) 0 = (code c - 48) * 10 ^ length ds + dec_value ds 0"
    using Cons [of "code c - 48"] by simp
  ultimately show ?case by (simp add: algebra_simps)
qed simp

lemma frac_digits_value:
  assumes "list_all is_digit out" and "prt \<or> out = []"
  shows "list_all is_digit (frac_digits prec prt v out) \<and> length (frac_digits prec prt v out) \<le> prec + length out \<and>
    (prt \<longrightarrow> length (frac_digits prec prt v out) = prec + length out) \<and>
    dec_value (frac_digits prec prt v out) 0 * 10 ^ (prec + length out - length (frac_digits prec prt v out)) =
      (v mod 10 ^ prec) * 10 ^ length out + dec_value out 0"
  using assms
proof (induction prec arbitrary: prt v out)
  case (Suc i)
  have mod: "v mod 10 ^ Suc i = v mod 10 + 10 * (v div 10 mod 10 ^ i)" by (simp add: mod_mult2_eq add.commute)
  have dig: "is_digit (hextable ! (v mod 10))" "code (hextable ! (v mod 10)) - 48 = v mod 10"
    using is_digit_hextable [of "v mod 10"] by simp_all
  show ?case
  proof (cases "prt \<or> v mod 10 \<noteq> 0")
    case True
    let ?out = "hextable ! (v mod 10) # out"
    have eq: "frac_digits (Suc i) prt v out = frac_digits i True (v div 10) ?out" using True by (auto simp: Let_def)
    have "dec_value ?out 0 = v mod 10 * 10 ^ length out + dec_value out 0"
      using dig dec_value_shift [of out "v mod 10"] by simp
    with Suc.IH [of ?out True "v div 10"] Suc.prems dig mod show ?thesis
      unfolding eq by (auto simp: algebra_simps)
  next
    case False
    have eq: "frac_digits (Suc i) prt v out = frac_digits i False (v div 10) []" using False Suc.prems by (simp add: Let_def)
    let ?l = "length (frac_digits i False (v div 10) [])"
    have IH: "list_all is_digit (frac_digits i False (v div 10) [])" "?l \<le> i"
      "dec_value (frac_digits i False (v div 10) []) 0 * 10 ^ (i - ?l) = v div 10 mod 10 ^ i"
      using Suc.IH [of "[]" False "v div 10"] by auto
    have "Suc i - ?l = Suc (i - ?l)" using IH(2) by simp
    with IH False Suc.prems mod show ?thesis unfolding eq by (simp add: algebra_simps)
  qed
qed simp

subsection \<open>Reading back what is printed\<close>

text \<open>
  The floating-point step is exact where the printed digits need it: the fraction is one of a unit of
  at most a second, and the unit is a multiple of the scale, so that both the quotient and the
  product are whole numbers far below the precision of a double.
\<close>

definition exact_fraction :: "(nat \<Rightarrow> nat \<Rightarrow> nat \<Rightarrow> nat) \<Rightarrow> bool" where
  "exact_fraction fr \<longleftrightarrow>
     (\<forall>f unit scale. unit \<le> 10 ^ 9 \<longrightarrow> scale dvd unit \<longrightarrow> f < scale \<longrightarrow> fr f unit scale = f * (unit div scale))"

lemma leadingFraction_digits:
  "list_all is_digit ds \<Longrightarrow> (r = [] \<or> \<not> is_digit (hd r)) \<Longrightarrow> dec_value ds x < 10 ^ 18 \<Longrightarrow>
   leadingFraction (ds @ r) x scale False = (dec_value ds x, scale * 10 ^ length ds, r)"
proof (induction ds arbitrary: x scale)
  case Nil
  then show ?case by (cases r) auto
next
  case (Cons c ds)
  let ?y = "x * 10 + (code c - 48)"
  have "?y < 10 ^ 18" using dec_value_mono [of ?y ds] Cons.prems(3) by simp
  then have "\<not> (2 ^ 63 - 1) div 10 < x" "\<not> 2 ^ 63 < ?y" by simp_all
  then have "leadingFraction ((c # ds) @ r) x scale False = leadingFraction (ds @ r) ?y (scale * 10) False"
    using Cons.prems(1) by (simp del: not_less add: Let_def)
  also have "\<dots> = (dec_value ds ?y, scale * 10 * 10 ^ length ds, r)"
    using Cons.prems by (intro Cons.IH) simp_all
  finally show ?case by simp
qed

lemma unit_prefix:
  assumes "unitMap u = Some unit" and "rest = [] \<or> \<not> unit_byte (hd rest)"
  shows "takeWhile unit_byte (u @ rest) = u" and "dropWhile unit_byte (u @ rest) = rest" and "\<not> is_digit (hd (u @ rest))"
    and "\<not> HasPrefix (u @ rest) ''.''"
proof -
  note u = unitMap_bytes [OF assms(1)]
  have "list_all unit_byte u" using u(2) by (metis list_all_iff takeWhile_eq_all_conv)
  then have all: "\<And>c. c \<in> set u \<Longrightarrow> unit_byte c" by (simp add: list_all_iff)
  then show "takeWhile unit_byte (u @ rest) = u" and "dropWhile unit_byte (u @ rest) = rest"
    using assms(2) by (auto simp: takeWhile_append2 dropWhile_append2 takeWhile_eq_Nil_iff dropWhile_eq_self_iff)
  show "\<not> is_digit (hd (u @ rest))" "\<not> HasPrefix (u @ rest) ''.''"
    using u(1,5,6) by (cases u; auto simp: HasPrefix_def)+
qed

lemma leadingInt_number:
  assumes "i \<le> 2 ^ 63" and "r = [] \<or> \<not> is_digit (hd r)"
  shows "leadingInt (dec_digits i @ r) 0 = Some (i, r)"
  using leadingInt_digits [OF dec_digits_digits assms(2), of 0 i] assms(1) by (simp add: dec_digits_value)

lemma number_starts: "is_digit (hd (dec_digits i @ r))" "dec_digits i @ r \<noteq> []"
  using dec_digits_digits [of i] dec_digits_nonempty [of i] by (cases "dec_digits i"; simp)+

lemma duration_term_whole:
  assumes "unitMap u = Some unit" and "rest = [] \<or> \<not> unit_byte (hd rest)" and "i * unit \<le> 2 ^ 63"
  shows "duration_term fr (dec_digits i @ u @ rest) = Inr (i * unit, rest)"
proof -
  have pos: "0 < unit" using unitMap_bytes(4) [OF assms(1)] .
  have "i \<le> i * unit" using pos by simp
  then have small: "i \<le> 2 ^ 63" using assms(3) by (rule le_trans)
  have "i \<le> 2 ^ 63 div unit" using pos assms(3) by (simp add: less_eq_div_iff_mult_less_eq)
  then show ?thesis
    using number_starts [of i "u @ rest"] leadingInt_number [OF small, of "u @ rest"] unit_prefix [OF assms(1,2)]
      unitMap_bytes(1) [OF assms(1)] assms(1) dec_digits_nonempty [of i]
    by (simp add: duration_term_def Let_def not_less)
qed

definition frac_text :: "nat \<Rightarrow> nat \<Rightarrow> string" where
  "frac_text prec v = (if v mod 10 ^ prec \<noteq> 0 then CHR ''.'' # frac_digits prec False v [] else [])"

lemma fmtFrac_text: "fmtFrac prec False v r = (frac_text prec v @ r, v div 10 ^ prec)"
  using fmtFrac_parts [of prec False v "[]" r] by (simp add: frac_text_def)

lemma duration_term_printed:
  assumes "exact_fraction fr" and "unitMap u = Some (10 ^ prec)" and "prec \<le> 9"
    and "rest = [] \<or> \<not> unit_byte (hd rest)" and "i * 10 ^ prec + v mod 10 ^ prec \<le> 2 ^ 63"
  shows "duration_term fr (dec_digits i @ frac_text prec v @ u @ rest) = Inr (i * 10 ^ prec + v mod 10 ^ prec, rest)"
proof (cases "v mod 10 ^ prec = 0")
  case True
  with duration_term_whole [OF assms(2,4), of i fr] assms(5) show ?thesis by (simp add: frac_text_def)
next
  case False
  let ?ds = "frac_digits prec False v []"
  let ?f = "dec_value ?ds 0" and ?k = "prec - length ?ds"
  have ds: "list_all is_digit ?ds" "length ?ds \<le> prec" "?f * 10 ^ ?k = v mod 10 ^ prec"
    using frac_digits_value [of "[]" False prec v] by auto
  have split: "(10::nat) ^ prec = 10 ^ length ?ds * 10 ^ ?k"
    using ds(2) by (simp flip: power_add)
  have "?f * 10 ^ ?k < 10 ^ length ?ds * 10 ^ ?k" using ds(3) split by (metis mod_less_divisor zero_less_numeral zero_less_power)
  then have lt: "?f < 10 ^ length ?ds" by simp
  also have "(10::nat) ^ length ?ds \<le> 10 ^ 9" using ds(2) assms(3) by (intro power_increasing) auto
  finally have "?f < 10 ^ 18" by simp
  note unit = unit_prefix [OF assms(2,4)]
  have frc: "leadingFraction (?ds @ u @ rest) 0 1 False = (?f, 10 ^ length ?ds, u @ rest)"
    using leadingFraction_digits [OF ds(1), of "u @ rest" 0 1] unit(3) \<open>?f < 10 ^ 18\<close> by simp
  have pos: "0 < ?f" using False ds(3) by (cases "?f = 0") auto
  then have "?ds \<noteq> []" by auto
  have "(10::nat) ^ prec \<le> 10 ^ 9" using assms(3) by (intro power_increasing) auto
  moreover have "10 ^ length ?ds dvd (10::nat) ^ prec" using split by simp
  ultimately have exact: "fr ?f (10 ^ prec) (10 ^ length ?ds) = v mod 10 ^ prec"
    using assms(1) lt ds(3) split unfolding exact_fraction_def by simp
  have "i * 10 ^ prec \<le> 2 ^ 63" using assms(5) by simp
  then have "i \<le> 2 ^ 63 div 10 ^ prec" by (simp add: less_eq_div_iff_mult_less_eq)
  moreover have "i \<le> i * 10 ^ prec" by simp
  with \<open>i * 10 ^ prec \<le> 2 ^ 63\<close> have small: "i \<le> 2 ^ 63" by (rule le_trans [rotated])
  have int: "leadingInt (dec_digits i @ CHR ''.'' # ?ds @ u @ rest) 0 = Some (i, CHR ''.'' # ?ds @ u @ rest)"
    using leadingInt_number [OF small, of "CHR ''.'' # ?ds @ u @ rest"] by (simp add: is_digit_def code_def)
  ultimately show ?thesis
    using False number_starts [of i "CHR ''.'' # ?ds @ u @ rest"] unit assms(2,5) frc pos exact unitMap_bytes(1) [OF assms(2)] dec_digits_nonempty [of i]
    by (simp add: frac_text_def duration_term_def int Let_def HasPrefix_def not_less)
qed

lemma duration_loop_step:
  assumes "s \<noteq> []" and "duration_term fr s = Inr (v, rest)" and "d + v \<le> 2 ^ 63"
  shows "duration_loop fr s d = duration_loop fr rest (d + v)"
  using assms by (subst duration_loop.simps) simp

lemma duration_loop_end [simp]: "duration_loop fr [] d = Inr d"
  by (simp add: duration_loop.simps)

lemma printed_single:
  assumes "exact_fraction fr" and "unitMap u = Some (10 ^ prec)" and "prec \<le> 9" and "v \<le> 2 ^ 63"
  shows "duration_loop fr (dec_digits (v div 10 ^ prec) @ frac_text prec v @ u) 0 = Inr v"
proof -
  have "v div 10 ^ prec * 10 ^ prec + v mod 10 ^ prec = v" by (rule div_mult_mod_eq)
  with duration_term_printed [OF assms(1-3), of "[]" "v div 10 ^ prec" v] assms(4)
  have "duration_term fr (dec_digits (v div 10 ^ prec) @ frac_text prec v @ u) = Inr (v, [])" by simp
  from duration_loop_step [OF number_starts(2) this, of 0] assms(4) show ?thesis by simp
qed

lemma seconds_split:
  fixes u :: nat
  shows "u = u div 10 ^ 9 div 60 div 60 * (3600 * 10 ^ 9) + (u div 10 ^ 9 div 60 mod 60 * (60 * 10 ^ 9) + (u div 10 ^ 9 mod 60 * 10 ^ 9 + u mod 10 ^ 9))"
    and "u div 10 ^ 9 div 60 = 0 \<Longrightarrow> u div 10 ^ 9 mod 60 * 10 ^ 9 + u mod 10 ^ 9 = u"
proof -
  let ?q = "u div 10 ^ 9" and ?r = "u mod 10 ^ 9"
  have parts: "u = ?q * 10 ^ 9 + ?r" "?q = ?q div 60 * 60 + ?q mod 60" "?q div 60 = ?q div 60 div 60 * 60 + ?q div 60 mod 60"
    by (simp_all only: div_mult_mod_eq)
  have sum: "u = h * (3600 * 10 ^ 9) + (m * (60 * 10 ^ 9) + (s * 10 ^ 9 + r))"
    if "u = q * 10 ^ 9 + r" "q = p * 60 + s" "p = h * 60 + m" for q r p s h m :: nat
    using that by simp
  show "u = ?q div 60 div 60 * (3600 * 10 ^ 9) + (?q div 60 mod 60 * (60 * 10 ^ 9) + (?q mod 60 * 10 ^ 9 + ?r))"
    by (rule sum [OF parts])
  show "?q mod 60 * 10 ^ 9 + ?r = u" if "?q div 60 = 0"
  proof -
    have "?q mod 60 = ?q" using parts(2) unfolding that by simp
    with parts(1) show ?thesis by (simp only:)
  qed
qed

text \<open>From a second on: hours and minutes, where there are any, and seconds.\<close>

lemma printed_seconds:
  assumes "exact_fraction fr" and "u \<le> 2 ^ 63" and "t = dec_digits (u div 10 ^ 9 mod 60) @ frac_text 9 u @ ''s''"
  shows "duration_loop fr
    (if 0 < u div 10 ^ 9 div 60 then
       (if 0 < u div 10 ^ 9 div 60 div 60 then dec_digits (u div 10 ^ 9 div 60 div 60) @ ''h'' else []) @
       dec_digits (u div 10 ^ 9 div 60 mod 60) @ ''m'' @ t
     else t) 0 = Inr u"
proof -
  let ?s = "u div 10 ^ 9 mod 60 * 10 ^ 9 + u mod 10 ^ 9" and ?m = "u div 10 ^ 9 div 60 mod 60" and ?h = "u div 10 ^ 9 div 60 div 60"
  have units: "unitMap ''s'' = Some (10 ^ 9)" "unitMap ''m'' = Some (60 * 10 ^ 9)" "unitMap ''h'' = Some (3600 * 10 ^ 9)"
    by (simp_all add: unitMap_def)
  have next_number: "\<not> unit_byte (hd (dec_digits n @ r))" for n r using number_starts(1) [of n r] by (simp add: unit_byte_def)
  note sum = seconds_split(1) [of u]
  have bounds: "?h * (3600 * 10 ^ 9) \<le> 2 ^ 63" "?h * (3600 * 10 ^ 9) + ?m * (60 * 10 ^ 9) \<le> 2 ^ 63" "?m * (60 * 10 ^ 9) \<le> 2 ^ 63" "?s \<le> 2 ^ 63"
    using sum assms(2) by linarith+
  have secs: "duration_loop fr t d = Inr (d + ?s)" if "d + ?s \<le> 2 ^ 63" for d
  proof -
    have "duration_term fr t = Inr (?s, [])"
      using duration_term_printed [OF assms(1) units(1), of "[]" "u div 10 ^ 9 mod 60" u] bounds(4) by (simp add: assms(3))
    from duration_loop_step [OF _ this that] number_starts(2) show ?thesis by (simp add: assms(3))
  qed
  have mins: "duration_loop fr (dec_digits ?m @ ''m'' @ t) d = Inr (d + ?m * (60 * 10 ^ 9) + ?s)"
    if "d + ?m * (60 * 10 ^ 9) + ?s \<le> 2 ^ 63" for d
  proof -
    have "duration_term fr (dec_digits ?m @ ''m'' @ t) = Inr (?m * (60 * 10 ^ 9), t)"
      using duration_term_whole [OF units(2) disjI2 bounds(3)] next_number by (simp add: assms(3))
    from duration_loop_step [OF number_starts(2) this, of d] secs [of "d + ?m * (60 * 10 ^ 9)"] that show ?thesis by simp
  qed
  have hours: "duration_loop fr (dec_digits ?h @ ''h'' @ dec_digits ?m @ ''m'' @ t) 0 = Inr u"
  proof -
    have "duration_term fr (dec_digits ?h @ ''h'' @ dec_digits ?m @ ''m'' @ t) = Inr (?h * (3600 * 10 ^ 9), dec_digits ?m @ ''m'' @ t)"
      using duration_term_whole [OF units(3) disjI2 bounds(1)] next_number by simp
    from duration_loop_step [OF number_starts(2) this, of 0] mins [of "?h * (3600 * 10 ^ 9)"] bounds(1) sum assms(2)
    show ?thesis by (simp only: add.assoc add_0)
  qed
  show ?thesis
  proof (cases "0 < u div 10 ^ 9 div 60")
    case False
    then have "?s = u" using seconds_split(2) [of u] by blast
    with False secs [of 0] bounds(4) show ?thesis by (simp only: if_False add_0)
  next
    case min: True
    show ?thesis
    proof (cases "0 < ?h")
      case True
      with min hours show ?thesis by (simp only: if_True append_assoc)
    next
      case False
      then have "?h = 0" by (simp only: not_less le_zero_eq)
      then have "?m * (60 * 10 ^ 9) + ?s = u" using sum unfolding \<open>?h = 0\<close> by (simp only: mult_zero_left add_0)
      with False min mins [of 0] assms(2) show ?thesis by (simp only: if_True if_False append_Nil add_0)
    qed
  qed
qed

lemma string_body:
  assumes "exact_fraction fr" and "u \<le> 2 ^ 63"
  shows "duration_loop fr (Duration_String (int u)) 0 = Inr u"
    and "\<exists>i r. Duration_String (int u) = dec_digits i @ r \<and> r \<noteq> []"
proof -
  have units: "unitMap ''ns'' = Some (10 ^ 0)" "unitMap [CHR 0xC2, CHR 0xB5, CHR ''s''] = Some (10 ^ 3)" "unitMap ''ms'' = Some (10 ^ 6)"
    "unitMap ''s'' = Some (10 ^ 9)"
    by (simp_all add: unitMap_def)
  have zero: "''0s'' = dec_digits 0 @ ''s''" by code_simp
  have "duration_loop fr (Duration_String (int u)) 0 = Inr u \<and> (\<exists>i r. Duration_String (int u) = dec_digits i @ r \<and> r \<noteq> [])"
  proof (cases "u < 10 ^ 9")
    case True
    consider "u = 0" | "u \<noteq> 0" "u < 10 ^ 3" | "\<not> u < 10 ^ 3" "u < 10 ^ 6" | "\<not> u < 10 ^ 6" by linarith
    then show ?thesis
    proof cases
      case 1
      have "duration_loop fr ''0s'' 0 = Inr 0"
        using printed_single [OF assms(1) units(4), of 0] by (simp add: zero frac_text_def)
      moreover have "\<exists>i r. ''0s'' = dec_digits i @ r \<and> r \<noteq> []" by (rule exI [of _ 0], rule exI [of _ "''s''"]) (use zero in simp)
      ultimately show ?thesis using 1 by (simp add: Duration_String_def)
    next
      case 2
      then show ?thesis using printed_single [OF assms(1) units(1), of u] assms(2) True
        by (auto simp: Duration_String_def fmtFrac_text simp del: fmtFrac.simps)
    next
      case 3
      then show ?thesis using printed_single [OF assms(1) units(2), of u] assms(2) True
        by (auto simp: Duration_String_def fmtFrac_text simp del: fmtFrac.simps)
    next
      case 4
      then show ?thesis using printed_single [OF assms(1) units(3), of u] assms(2) True
        by (auto simp: Duration_String_def fmtFrac_text simp del: fmtFrac.simps)
    qed
  next
    case False
    let ?t = "dec_digits (u div 10 ^ 9 mod 60) @ frac_text 9 u @ ''s''"
    have printed: "Duration_String (int u) = (if 0 < u div 10 ^ 9 div 60 then
       (if 0 < u div 10 ^ 9 div 60 div 60 then dec_digits (u div 10 ^ 9 div 60 div 60) @ ''h'' else []) @
       dec_digits (u div 10 ^ 9 div 60 mod 60) @ ''m'' @ ?t
     else ?t)"
      unfolding Duration_String_def fmtFrac_text using False by (simp add: Let_def)
    have "\<exists>i r. Duration_String (int u) = dec_digits i @ r \<and> r \<noteq> []"
      unfolding printed by (cases "0 < u div 10 ^ 9 div 60"; cases "0 < u div 10 ^ 9 div 60 div 60"; simp; blast)
    with printed_seconds [OF assms refl] printed show ?thesis by (simp only:)
  qed
  then show "duration_loop fr (Duration_String (int u)) 0 = Inr u"
    and "\<exists>i r. Duration_String (int u) = dec_digits i @ r \<and> r \<noteq> []" by blast+
qed

text \<open>Printing and parsing are inverse on all 64-bit durations.\<close>

lemma ParseDuration_String:
  assumes "exact_fraction fr" and "- (2 ^ 63) \<le> d" and "d < 2 ^ 63"
  shows "ParseDuration fr (Duration_String d) = Inr d"
proof -
  define u where "u = nat \<bar>d\<bar>"
  have u: "u \<le> 2 ^ 63" and small: "0 \<le> d \<Longrightarrow> u \<le> 2 ^ 63 - 1" and d: "d = (if d < 0 then - int u else int u)"
    using assms(2,3) by (auto simp: u_def)
  note body = string_body(1) [OF assms(1) u]
  obtain i r where t: "Duration_String (int u) = dec_digits i @ r" "r \<noteq> []" using string_body(2) [OF assms(1) u] by blast
  have "hd (Duration_String (int u)) \<noteq> CHR ''-''" "hd (Duration_String (int u)) \<noteq> CHR ''+''" "Duration_String (int u) \<noteq> []"
    using number_starts [of i r] by (auto simp: t is_digit_def code_def)
  then have sign: "\<not> HasPrefix (Duration_String (int u)) ''-''" "\<not> HasPrefix (Duration_String (int u)) ''+''" "Duration_String (int u) \<noteq> []"
    by (auto simp: HasPrefix_iff)
  have zero: "Duration_String (int u) \<noteq> ''0''"
    using t dec_digits_nonempty [of i] by (cases "dec_digits i") auto
  show ?thesis
  proof (cases "d < 0")
    case True
    have "Duration_String d = CHR ''-'' # Duration_String (int u)"
      using True by (auto simp: Duration_String_def u_def Let_def split: prod.split)
    then show ?thesis
      using True d body zero sign(3) by (simp add: ParseDuration_def HasPrefix_def)
  next
    case False
    then have "Duration_String d = Duration_String (int u)" using d by simp
    with False d body zero sign small show ?thesis by (simp add: ParseDuration_def Let_def not_less)
  qed
qed

end
