(* ===== verification/Gateway_Config.thy ===== *)
theory Gateway_Config
  imports Complex_Main Go_Time Secret_Cache "HOL-Library.Word"
begin

text \<open>
  internal/config/config.go: the configuration schema, its defaults, the environment overrides
  and the validation. Decoding YAML is a parameter. A \<open>float64\<close> is a rational number; NaN and
  infinities do not occur in a configuration file's numbers here. Errors are their messages up
  to quoting. Validation visits the roles in the order of a \<open>range\<close> over the map, an argument.
\<close>

subsection \<open>The schema\<close>

text \<open>
  \<open>node\<close> is what decoding the YAML node into a string gives; the first argument is the
  floating-point step of parsing a duration.
\<close>

definition Duration_MarshalYAML :: "duration \<Rightarrow> string" where
  "Duration_MarshalYAML d = Duration_String d"

definition Duration_UnmarshalYAML :: "(nat \<Rightarrow> nat \<Rightarrow> nat \<Rightarrow> nat) \<Rightarrow> string + string \<Rightarrow> string + duration" where
  "Duration_UnmarshalYAML fr node =
     (case node of
        Inl err \<Rightarrow> Inl err
      | Inr s \<Rightarrow>
      case ParseDuration fr s of
        Inl err \<Rightarrow> Inl (''invalid duration '' @ quoted s @ '': '' @ duration_error_text s err)
      | Inr parsed \<Rightarrow> Inr parsed)"

record TLSConfig =
  tls_Enabled :: bool
  tls_CertFile :: string
  tls_KeyFile :: string
  tls_MinVersion :: string
  tls_CipherSuites :: "string list"

record ServerConfig =
  sv_Port :: int
  sv_Host :: string
  sv_TLS :: TLSConfig
  sv_ReadTimeout :: duration
  sv_WriteTimeout :: duration
  sv_IdleTimeout :: duration
  sv_MaxRequestBodySize :: int
  sv_ShutdownGracePeriod :: duration

record FileCacheConfig =
  fc_Enabled :: bool
  fc_TTL :: duration
  fc_MaxEntries :: int
  fc_NegativeTTL :: duration

definition ToCache :: "FileCacheConfig \<Rightarrow> CacheConfig" where
  "ToCache c = \<lparr>cc_Enabled = fc_Enabled c, cc_TTL = fc_TTL c, cc_NegativeTTL = fc_NegativeTTL c,
                cc_MaxEntries = fc_MaxEntries c\<rparr>"

record AWSConfig =
  fa_Region :: string
  fa_SecretPrefix :: string
  fa_EndpointURL :: string
  fa_MaxRetries :: int
  fa_Cache :: FileCacheConfig

record AzureConfig =
  fz_VaultURL :: string
  fz_NamingStrategy :: string
  fz_Cache :: FileCacheConfig

record VaultConfig =
  fv_Address :: string
  fv_AuthPath :: string
  fv_Role :: string
  fv_TLSSkipVerify :: bool
  fv_CACert :: string
  fv_Token :: string
  fv_Cache :: FileCacheConfig

record GCPConfig =
  fg_ProjectID :: string
  fg_SecretPrefix :: string
  fg_Cache :: FileCacheConfig

record RoleConfig =
  ro_AllowedNamespaces :: "string list"
  ro_AllowedServiceAccounts :: "string list"
  ro_AllowedPaths :: "string list"
  ro_TokenTTL :: duration

record AuthConfig =
  at_TokenTTL :: duration
  at_TokenCleanupInterval :: duration
  at_MaxTokensPerIdentity :: int
  at_Roles :: "string \<rightharpoonup> RoleConfig"

record LoggingConfig =
  lg_Level :: string
  lg_Format :: string

record MetricsConfig =
  mt_Enabled :: bool
  mt_Port :: int
  mt_Path :: string

record HealthCheckConfig =
  hc_BackendCheck :: bool
  hc_BackendCheckTimeout :: duration
  hc_BackendCheckInterval :: duration

record RateLimitConfig =
  rl_Enabled :: bool
  rl_RequestsPerSecond :: rat
  rl_Burst :: int

record CORSConfig =
  co_Enabled :: bool
  co_AllowedOrigins :: "string list"

record Config =
  cfg_Server :: ServerConfig
  cfg_Backend :: string
  cfg_AWS :: AWSConfig
  cfg_Azure :: AzureConfig
  cfg_Vault :: VaultConfig
  cfg_GCP :: GCPConfig
  cfg_Auth :: AuthConfig
  cfg_Logging :: LoggingConfig
  cfg_Metrics :: MetricsConfig
  cfg_HealthCheck :: HealthCheckConfig
  cfg_RateLimit :: RateLimitConfig
  cfg_CORS :: CORSConfig

definition BackendAWS :: string where "BackendAWS = ''aws''"
definition BackendAzure :: string where "BackendAzure = ''azure''"
definition BackendVault :: string where "BackendVault = ''vault''"
definition BackendGCP :: string where "BackendGCP = ''gcp''"

subsection \<open>Defaults\<close>

text \<open>\<open>if x == zero { x = d }\<close>\<close>

definition or_default :: "'a \<Rightarrow> 'a \<Rightarrow> 'a \<Rightarrow> 'a" where
  "or_default zero d x = (if x = zero then d else x)"

lemma or_default_idem [simp]: "or_default z d (or_default z d x) = or_default z d x"
  by (simp add: or_default_def)

definition applyDefaults :: "Config \<Rightarrow> Config" where
  "applyDefaults c =
     c\<lparr>cfg_Server := (cfg_Server c)
          \<lparr>sv_Port := or_default 0 8200 (sv_Port (cfg_Server c)),
           sv_Host := or_default '''' ''0.0.0.0'' (sv_Host (cfg_Server c)),
           sv_ReadTimeout := or_default 0 (30 * Second) (sv_ReadTimeout (cfg_Server c)),
           sv_WriteTimeout := or_default 0 (30 * Second) (sv_WriteTimeout (cfg_Server c)),
           sv_IdleTimeout := or_default 0 (120 * Second) (sv_IdleTimeout (cfg_Server c)),
           sv_MaxRequestBodySize := or_default 0 1048576 (sv_MaxRequestBodySize (cfg_Server c)),
           sv_ShutdownGracePeriod := or_default 0 (15 * Second) (sv_ShutdownGracePeriod (cfg_Server c)),
           sv_TLS := (sv_TLS (cfg_Server c))
             \<lparr>tls_MinVersion := or_default '''' ''1.2'' (tls_MinVersion (sv_TLS (cfg_Server c)))\<rparr>\<rparr>,
       cfg_Auth := (cfg_Auth c)
          \<lparr>at_TokenTTL := or_default 0 (3600 * Second) (at_TokenTTL (cfg_Auth c)),
           at_TokenCleanupInterval := or_default 0 (60 * Second) (at_TokenCleanupInterval (cfg_Auth c)),
           at_MaxTokensPerIdentity := or_default 0 100 (at_MaxTokensPerIdentity (cfg_Auth c))\<rparr>,
       cfg_Azure := (cfg_Azure c)\<lparr>fz_NamingStrategy := or_default '''' ''flat'' (fz_NamingStrategy (cfg_Azure c))\<rparr>,
       cfg_Vault := (cfg_Vault c)\<lparr>fv_AuthPath := or_default '''' ''kubernetes'' (fv_AuthPath (cfg_Vault c))\<rparr>,
       cfg_Logging := (cfg_Logging c)
          \<lparr>lg_Level := or_default '''' ''info'' (lg_Level (cfg_Logging c)),
           lg_Format := or_default '''' ''json'' (lg_Format (cfg_Logging c))\<rparr>,
       cfg_Metrics := (cfg_Metrics c)
          \<lparr>mt_Port := or_default 0 9090 (mt_Port (cfg_Metrics c)),
           mt_Path := or_default '''' ''/metrics'' (mt_Path (cfg_Metrics c))\<rparr>,
       cfg_HealthCheck := (cfg_HealthCheck c)
          \<lparr>hc_BackendCheckTimeout := or_default 0 (5 * Second) (hc_BackendCheckTimeout (cfg_HealthCheck c)),
           hc_BackendCheckInterval := or_default 0 (30 * Second) (hc_BackendCheckInterval (cfg_HealthCheck c))\<rparr>,
       cfg_RateLimit := (cfg_RateLimit c)
          \<lparr>rl_RequestsPerSecond := or_default 0 100 (rl_RequestsPerSecond (cfg_RateLimit c)),
           rl_Burst := or_default 0 200 (rl_Burst (cfg_RateLimit c))\<rparr>\<rparr>"

subsection \<open>Environment overrides\<close>

definition override :: "(string \<rightharpoonup> string) \<Rightarrow> string \<Rightarrow> string \<Rightarrow> string" where
  "override lookup name old = (case lookup name of Some v \<Rightarrow> v | None \<Rightarrow> old)"

definition override_int :: "(string \<rightharpoonup> string) \<Rightarrow> string \<Rightarrow> int \<Rightarrow> int" where
  "override_int lookup name old =
     (case lookup name of
        Some v \<Rightarrow> (case Atoi v of Some p \<Rightarrow> p | None \<Rightarrow> old)
      | None \<Rightarrow> old)"

definition applyEnvOverrides :: "(string \<rightharpoonup> string) \<Rightarrow> Config \<Rightarrow> Config" where
  "applyEnvOverrides lookup c =
     c\<lparr>cfg_Backend := override lookup ''VG_BACKEND'' (cfg_Backend c),
       cfg_Server := (cfg_Server c)
          \<lparr>sv_Host := override lookup ''VG_SERVER_HOST'' (sv_Host (cfg_Server c)),
           sv_Port := override_int lookup ''VG_SERVER_PORT'' (sv_Port (cfg_Server c)),
           sv_TLS := (sv_TLS (cfg_Server c))
             \<lparr>tls_CertFile := override lookup ''VG_TLS_CERT_FILE'' (tls_CertFile (sv_TLS (cfg_Server c))),
              tls_KeyFile := override lookup ''VG_TLS_KEY_FILE'' (tls_KeyFile (sv_TLS (cfg_Server c)))\<rparr>\<rparr>,
       cfg_Metrics := (cfg_Metrics c)\<lparr>mt_Port := override_int lookup ''VG_METRICS_PORT'' (mt_Port (cfg_Metrics c))\<rparr>,
       cfg_Logging := (cfg_Logging c)
          \<lparr>lg_Level := override lookup ''VG_LOG_LEVEL'' (lg_Level (cfg_Logging c)),
           lg_Format := override lookup ''VG_LOG_FORMAT'' (lg_Format (cfg_Logging c))\<rparr>,
       cfg_AWS := (cfg_AWS c)\<lparr>fa_Region := override lookup ''VG_AWS_REGION'' (fa_Region (cfg_AWS c))\<rparr>,
       cfg_Azure := (cfg_Azure c)\<lparr>fz_VaultURL := override lookup ''VG_AZURE_VAULTURL'' (fz_VaultURL (cfg_Azure c))\<rparr>,
       cfg_Vault := (cfg_Vault c)
          \<lparr>fv_Address := override lookup ''VG_VAULT_ADDRESS'' (fv_Address (cfg_Vault c)),
           fv_Token := override lookup ''VG_VAULT_TOKEN'' (fv_Token (cfg_Vault c))\<rparr>,
       cfg_GCP := (cfg_GCP c)\<lparr>fg_ProjectID := override lookup ''VG_GCP_PROJECTID'' (fg_ProjectID (cfg_GCP c))\<rparr>\<rparr>"

subsection \<open>Validation\<close>

text \<open>\<open>stat\<close> is the error of \<open>os.Stat\<close>, if any, by file name.\<close>

definition fileExists :: "(string \<Rightarrow> string option) \<Rightarrow> string \<Rightarrow> string \<Rightarrow> string option" where
  "fileExists stat path field =
     (if path = '''' then Some (field @ '' is required when TLS is enabled'')
      else case stat path of
        Some err \<Rightarrow> Some (field @ '': '' @ err)
      | None \<Rightarrow> None)"

definition parseTLSVersion :: "string \<Rightarrow> string + 16 word" where
  "parseTLSVersion v =
     (let s = TrimSpace v in
      if s = '''' \<or> s = ''1.2'' then Inr 0x0303
      else if s = ''1.3'' then Inr 0x0304
      else if s = ''1.0'' \<or> s = ''1.1'' then Inl (''TLS minVersion '' @ quoted v @ '' is not allowed; use 1.2 or 1.3'')
      else Inl (''invalid TLS minVersion '' @ quoted v))"

definition TLSMinVersion :: "Config \<Rightarrow> 16 word" where
  "TLSMinVersion c =
     (let ver = (case parseTLSVersion (tls_MinVersion (sv_TLS (cfg_Server c))) of Inr v \<Rightarrow> v | Inl _ \<Rightarrow> 0)
      in if ver = 0 then 0x0303 else ver)"

definition validateBackend :: "Config \<Rightarrow> string option" where
  "validateBackend c =
     (if cfg_Backend c = BackendAzure then
        if fz_VaultURL (cfg_Azure c) = '''' then Some ''azure.vaultURL is required when backend is azure''
        else if fz_NamingStrategy (cfg_Azure c) \<noteq> ''flat'' \<and> fz_NamingStrategy (cfg_Azure c) \<noteq> ''json''
        then Some ''azure.namingStrategy must be \"flat\" or \"json\"''
        else None
      else if cfg_Backend c = BackendVault then
        if fv_Address (cfg_Vault c) = '''' then Some ''vault.address is required when backend is vault''
        else if fv_Role (cfg_Vault c) = '''' \<and> fv_Token (cfg_Vault c) = ''''
        then Some ''vault.role (or vault.token) is required when backend is vault''
        else None
      else if cfg_Backend c = BackendGCP then
        if fg_ProjectID (cfg_GCP c) = '''' then Some ''gcp.projectID is required when backend is gcp'' else None
      else None)"

definition checked_durations :: "Config \<Rightarrow> (string \<times> duration) list" where
  "checked_durations c =
     [(''server.readTimeout'', sv_ReadTimeout (cfg_Server c)),
      (''server.writeTimeout'', sv_WriteTimeout (cfg_Server c)),
      (''server.idleTimeout'', sv_IdleTimeout (cfg_Server c)),
      (''server.shutdownGracePeriod'', sv_ShutdownGracePeriod (cfg_Server c)),
      (''auth.tokenTTL'', at_TokenTTL (cfg_Auth c)),
      (''auth.tokenCleanupInterval'', at_TokenCleanupInterval (cfg_Auth c))]"

fun check_durations :: "(string \<times> duration) list \<Rightarrow> string option" where
  "check_durations [] = None"
| "check_durations ((name, val) # ds) =
     (if val \<le> 0 then Some (name @ '' must be a positive duration'') else check_durations ds)"

fun check_roles :: "(string \<rightharpoonup> RoleConfig) \<Rightarrow> string list \<Rightarrow> string option" where
  "check_roles roles [] = None"
| "check_roles roles (name # names) =
     (case roles name of
        None \<Rightarrow> check_roles roles names
      | Some role \<Rightarrow>
          if ro_AllowedNamespaces role = [] then Some (''auth.roles.'' @ name @ '': at least one allowedNamespaces entry required'')
          else if ro_AllowedPaths role = [] then Some (''auth.roles.'' @ name @ '': at least one allowedPaths entry required'')
          else if ro_AllowedServiceAccounts role = []
          then Some (''auth.roles.'' @ name @ '': at least one allowedServiceAccounts entry required'')
          else check_roles roles names)"

definition check_tls :: "(string \<Rightarrow> string option) \<Rightarrow> TLSConfig \<Rightarrow> string option" where
  "check_tls stat t =
     (if tls_Enabled t then
        (case fileExists stat (tls_CertFile t) ''server.tls.certFile'' of
           Some err \<Rightarrow> Some err
         | None \<Rightarrow>
             (case fileExists stat (tls_KeyFile t) ''server.tls.keyFile'' of
                Some err \<Rightarrow> Some err
              | None \<Rightarrow> (case parseTLSVersion (tls_MinVersion t) of Inl err \<Rightarrow> Some err | Inr _ \<Rightarrow> None)))
      else None)"

definition config_Validate :: "(string \<Rightarrow> string option) \<Rightarrow> string list \<Rightarrow> Config \<Rightarrow> string option" where
  "config_Validate stat order c =
     (if cfg_Backend c \<notin> {BackendAWS, BackendAzure, BackendVault, BackendGCP} then
        if cfg_Backend c = '''' then Some ''backend must be set (one of aws, azure, vault, gcp)''
        else Some (''unsupported backend '' @ quoted (cfg_Backend c) @ '' (must be one of aws, azure, vault, gcp)'')
      else if sv_Port (cfg_Server c) < 1 \<or> sv_Port (cfg_Server c) > 65535 then Some (''server.port '' @ Itoa (sv_Port (cfg_Server c)) @ '' out of range 1-65535'')
      else if mt_Port (cfg_Metrics c) < 1 \<or> mt_Port (cfg_Metrics c) > 65535 then Some (''metrics.port '' @ Itoa (mt_Port (cfg_Metrics c)) @ '' out of range 1-65535'')
      else if sv_Port (cfg_Server c) = mt_Port (cfg_Metrics c) then Some (''server.port and metrics.port must differ (both '' @ Itoa (sv_Port (cfg_Server c)) @ '')'')
      else case check_tls stat (sv_TLS (cfg_Server c)) of
        Some err \<Rightarrow> Some err
      | None \<Rightarrow>
      case check_durations (checked_durations c) of
        Some err \<Rightarrow> Some err
      | None \<Rightarrow>
      if msize (at_Roles (cfg_Auth c)) = 0 then Some ''auth.roles must define at least one role''
      else case check_roles (at_Roles (cfg_Auth c)) order of
        Some err \<Rightarrow> Some err
      | None \<Rightarrow> validateBackend c)"

subsection \<open>Loading\<close>

definition parse ::
  "(string \<Rightarrow> string + Config) \<Rightarrow> (string \<rightharpoonup> string) \<Rightarrow> (string \<Rightarrow> string option) \<Rightarrow> string list \<Rightarrow> string \<Rightarrow> string + Config" where
  "parse Unmarshal LookupEnv stat order data =
     (case Unmarshal data of
        Inl err \<Rightarrow> Inl (''parse config: '' @ err)
      | Inr cfg \<Rightarrow>
          let cfg = applyEnvOverrides LookupEnv (applyDefaults cfg) in
          case config_Validate stat order cfg of
            Some err \<Rightarrow> Inl err
          | None \<Rightarrow> Inr cfg)"

definition Load ::
  "(string \<Rightarrow> string + string) \<Rightarrow> (string \<Rightarrow> string + Config) \<Rightarrow> (string \<rightharpoonup> string) \<Rightarrow> (string \<Rightarrow> string option) \<Rightarrow>
   string list \<Rightarrow> string \<Rightarrow> string + Config" where
  "Load ReadFile Unmarshal LookupEnv stat order path =
     (case ReadFile path of
        Inl err \<Rightarrow> Inl (''read config: '' @ err)
      | Inr data \<Rightarrow> parse Unmarshal LookupEnv stat order data)"


subsection \<open>What a loaded configuration guarantees\<close>

lemma check_durations_iff: "check_durations ds = None \<longleftrightarrow> list_all (\<lambda>d. 0 < snd d) ds"
  by (induction ds rule: check_durations.induct) auto

definition role_complete :: "RoleConfig \<Rightarrow> bool" where
  "role_complete r \<longleftrightarrow> ro_AllowedNamespaces r \<noteq> [] \<and> ro_AllowedPaths r \<noteq> [] \<and> ro_AllowedServiceAccounts r \<noteq> []"

lemma check_roles_iff:
  "check_roles roles names = None \<longleftrightarrow> (\<forall>name \<in> set names. pred_option role_complete (roles name))"
  by (induction names) (auto simp: role_complete_def split: option.split)

lemma check_roles_enumerated:
  "enumerates order roles \<Longrightarrow> check_roles roles order = None \<longleftrightarrow> (\<forall>name role. roles name = Some role \<longrightarrow> role_complete role)"
  unfolding check_roles_iff enumerates_def by (force simp: option.pred_set split: option.splits)

lemma parseTLSVersion_values: "parseTLSVersion v = Inr ver \<Longrightarrow> ver = 0x0303 \<or> ver = 0x0304"
  by (auto simp: parseTLSVersion_def Let_def split: if_splits)

lemma TLSMinVersion_secure: "TLSMinVersion c = 0x0303 \<or> TLSMinVersion c = 0x0304"
  using parseTLSVersion_values
  by (auto simp: TLSMinVersion_def Let_def split: sum.splits)

definition config_sound :: "Config \<Rightarrow> bool" where
  "config_sound c \<longleftrightarrow>
     cfg_Backend c \<in> {BackendAWS, BackendAzure, BackendVault, BackendGCP} \<and>
     1 \<le> sv_Port (cfg_Server c) \<and> sv_Port (cfg_Server c) \<le> 65535 \<and>
     1 \<le> mt_Port (cfg_Metrics c) \<and> mt_Port (cfg_Metrics c) \<le> 65535 \<and>
     sv_Port (cfg_Server c) \<noteq> mt_Port (cfg_Metrics c) \<and>
     0 < at_TokenTTL (cfg_Auth c) \<and> 0 < at_TokenCleanupInterval (cfg_Auth c) \<and>
     0 < sv_ReadTimeout (cfg_Server c) \<and> 0 < sv_WriteTimeout (cfg_Server c) \<and>
     0 < sv_IdleTimeout (cfg_Server c) \<and> 0 < sv_ShutdownGracePeriod (cfg_Server c) \<and>
     at_Roles (cfg_Auth c) \<noteq> Map.empty \<and>
     (\<forall>name role. at_Roles (cfg_Auth c) name = Some role \<longrightarrow> role_complete role) \<and>
     (cfg_Backend c = BackendAzure \<longrightarrow> fz_VaultURL (cfg_Azure c) \<noteq> '''' \<and> fz_NamingStrategy (cfg_Azure c) \<in> {''flat'', ''json''}) \<and>
     (cfg_Backend c = BackendVault \<longrightarrow> fv_Address (cfg_Vault c) \<noteq> '''' \<and>
        (fv_Role (cfg_Vault c) \<noteq> '''' \<or> fv_Token (cfg_Vault c) \<noteq> '''')) \<and>
     (cfg_Backend c = BackendGCP \<longrightarrow> fg_ProjectID (cfg_GCP c) \<noteq> '''')"

lemma validateBackend_iff:
  "validateBackend c = None \<longleftrightarrow>
     (cfg_Backend c = BackendAzure \<longrightarrow> fz_VaultURL (cfg_Azure c) \<noteq> '''' \<and> fz_NamingStrategy (cfg_Azure c) \<in> {''flat'', ''json''}) \<and>
     (cfg_Backend c = BackendVault \<longrightarrow> fv_Address (cfg_Vault c) \<noteq> '''' \<and>
        (fv_Role (cfg_Vault c) \<noteq> '''' \<or> fv_Token (cfg_Vault c) \<noteq> '''')) \<and>
     (cfg_Backend c = BackendGCP \<longrightarrow> fg_ProjectID (cfg_GCP c) \<noteq> '''')"
  by (auto simp: validateBackend_def BackendAWS_def BackendAzure_def BackendVault_def BackendGCP_def)

lemma config_Validate_parts:
  "config_Validate stat order c = None \<longleftrightarrow>
     cfg_Backend c \<in> {BackendAWS, BackendAzure, BackendVault, BackendGCP} \<and>
     \<not> (sv_Port (cfg_Server c) < 1 \<or> sv_Port (cfg_Server c) > 65535) \<and>
     \<not> (mt_Port (cfg_Metrics c) < 1 \<or> mt_Port (cfg_Metrics c) > 65535) \<and>
     sv_Port (cfg_Server c) \<noteq> mt_Port (cfg_Metrics c) \<and>
     check_tls stat (sv_TLS (cfg_Server c)) = None \<and> check_durations (checked_durations c) = None \<and>
     msize (at_Roles (cfg_Auth c)) \<noteq> 0 \<and> check_roles (at_Roles (cfg_Auth c)) order = None \<and> validateBackend c = None"
  by (simp add: config_Validate_def split: option.split)

lemma config_Validate_iff:
  assumes "enumerates order (at_Roles (cfg_Auth c))"
  shows "config_Validate stat order c = None \<longleftrightarrow> config_sound c \<and> check_tls stat (sv_TLS (cfg_Server c)) = None"
proof -
  have size: "msize (at_Roles (cfg_Auth c)) = 0 \<longleftrightarrow> at_Roles (cfg_Auth c) = Map.empty"
    using enumerates_finite [OF assms] by (rule msize_eq_0)
  have dur: "check_durations (checked_durations c) = None \<longleftrightarrow>
      0 < sv_ReadTimeout (cfg_Server c) \<and> 0 < sv_WriteTimeout (cfg_Server c) \<and> 0 < sv_IdleTimeout (cfg_Server c) \<and>
      0 < sv_ShutdownGracePeriod (cfg_Server c) \<and> 0 < at_TokenTTL (cfg_Auth c) \<and> 0 < at_TokenCleanupInterval (cfg_Auth c)"
    by (simp add: check_durations_iff checked_durations_def)
  show ?thesis
    unfolding config_Validate_parts config_sound_def validateBackend_iff check_roles_enumerated [OF assms] size dur
      de_Morgan_disj not_less
    by blast
qed


text \<open>
  Where a setting comes from: an environment variable wins over the file and the file over the
  default, a zero or empty setting in the file counts as absent, and a port in the environment
  that is not a decimal integer is ignored. Settings without a variable are the file's.
\<close>

lemma config_precedence:
  assumes "cfg = applyEnvOverrides env (applyDefaults file)"
  shows "sv_Port (cfg_Server cfg) =
      (case Option.bind (env ''VG_SERVER_PORT'') Atoi of
         Some p \<Rightarrow> p
       | None \<Rightarrow> if sv_Port (cfg_Server file) = 0 then 8200 else sv_Port (cfg_Server file)) \<and>
    lg_Level (cfg_Logging cfg) =
      (case env ''VG_LOG_LEVEL'' of
         Some v \<Rightarrow> v
       | None \<Rightarrow> if lg_Level (cfg_Logging file) = '''' then ''info'' else lg_Level (cfg_Logging file)) \<and>
    fv_Token (cfg_Vault cfg) = (case env ''VG_VAULT_TOKEN'' of Some v \<Rightarrow> v | None \<Rightarrow> fv_Token (cfg_Vault file)) \<and>
    at_TokenTTL (cfg_Auth cfg) = (if at_TokenTTL (cfg_Auth file) = 0 then 3600 * Second else at_TokenTTL (cfg_Auth file)) \<and>
    at_Roles (cfg_Auth cfg) = at_Roles (cfg_Auth file) \<and> cfg_CORS cfg = cfg_CORS file \<and>
    applyDefaults (applyDefaults file) = applyDefaults file"
proof -
  have "applyDefaults (applyDefaults file) = applyDefaults file"
    by (simp add: applyDefaults_def)
  then show ?thesis
    by (simp add: assms applyEnvOverrides_def applyDefaults_def override_def override_int_def or_default_def split: option.split)
qed

definition demo_file_cache :: FileCacheConfig where
  "demo_file_cache = \<lparr>fc_Enabled = True, fc_TTL = 60 * Second, fc_MaxEntries = 10, fc_NegativeTTL = 0\<rparr>"

definition demo_file :: Config where
  "demo_file =
     \<lparr>cfg_Server = \<lparr>sv_Port = 0, sv_Host = '''', sv_TLS = \<lparr>tls_Enabled = False, tls_CertFile = '''', tls_KeyFile = '''',
         tls_MinVersion = '''', tls_CipherSuites = []\<rparr>, sv_ReadTimeout = 0, sv_WriteTimeout = 0, sv_IdleTimeout = 0,
         sv_MaxRequestBodySize = 0, sv_ShutdownGracePeriod = 0\<rparr>,
      cfg_Backend = ''aws'',
      cfg_AWS = \<lparr>fa_Region = ''eu-west-1'', fa_SecretPrefix = ''prod/'', fa_EndpointURL = '''', fa_MaxRetries = 3, fa_Cache = demo_file_cache\<rparr>,
      cfg_Azure = \<lparr>fz_VaultURL = '''', fz_NamingStrategy = '''', fz_Cache = demo_file_cache\<rparr>,
      cfg_Vault = \<lparr>fv_Address = '''', fv_AuthPath = '''', fv_Role = '''', fv_TLSSkipVerify = False, fv_CACert = '''', fv_Token = '''', fv_Cache = demo_file_cache\<rparr>,
      cfg_GCP = \<lparr>fg_ProjectID = '''', fg_SecretPrefix = '''', fg_Cache = demo_file_cache\<rparr>,
      cfg_Auth = \<lparr>at_TokenTTL = 0, at_TokenCleanupInterval = 0, at_MaxTokensPerIdentity = 0,
         at_Roles = [''app'' \<mapsto> \<lparr>ro_AllowedNamespaces = [''opus''], ro_AllowedServiceAccounts = [''*''], ro_AllowedPaths = [''**''], ro_TokenTTL = 0\<rparr>]\<rparr>,
      cfg_Logging = \<lparr>lg_Level = '''', lg_Format = ''''\<rparr>,
      cfg_Metrics = \<lparr>mt_Enabled = True, mt_Port = 0, mt_Path = ''''\<rparr>,
      cfg_HealthCheck = \<lparr>hc_BackendCheck = True, hc_BackendCheckTimeout = 0, hc_BackendCheckInterval = 0\<rparr>,
      cfg_RateLimit = \<lparr>rl_Enabled = False, rl_RequestsPerSecond = 0, rl_Burst = 0\<rparr>,
      cfg_CORS = \<lparr>co_Enabled = False, co_AllowedOrigins = []\<rparr>\<rparr>"

lemma demo_file_sound: "config_sound (applyEnvOverrides Map.empty (applyDefaults demo_file))"
  by (simp add: config_sound_def applyEnvOverrides_def applyDefaults_def demo_file_def override_def override_int_def
      or_default_def BackendAWS_def BackendAzure_def BackendVault_def BackendGCP_def role_complete_def fun_eq_iff)


lemma config_precedence_example:
  "sv_Port (cfg_Server (applyEnvOverrides [''VG_SERVER_PORT'' \<mapsto> ''8443''] (applyDefaults demo_file))) = 8443"
proof -
  have "Atoi ''8443'' = Some 8443" by code_simp
  with config_precedence [OF refl, of "[''VG_SERVER_PORT'' \<mapsto> ''8443'']" demo_file] show ?thesis by simp
qed

text \<open>
  C27. Durations in the form operators write them mean what they say: a decimal number directly
  followed by one of the eight unit spellings decodes to exactly the product, and is refused
  exactly when the product does not fit a signed 64-bit number of nanoseconds.
\<close>

theorem config_durations:
  assumes "unitMap u = Some unit"
  shows "(n * unit < 2 ^ 63 \<longrightarrow> Duration_UnmarshalYAML fr (Inr (dec_digits n @ u)) = Inr (int n * int unit)) \<and>
    (2 ^ 63 \<le> n * unit \<longrightarrow> (\<exists>err. Duration_UnmarshalYAML fr (Inr (dec_digits n @ u)) = Inl err))"
  using ParseDuration_plain [OF assms, of fr n] by (auto simp: Duration_UnmarshalYAML_def)

theorem config_durations_witness:
  "Duration_UnmarshalYAML (\<lambda>_ _ _. 0) (Inr ''300s'') = Inr (300 * Second)"
proof -
  have "unitMap ''s'' = Some (10 ^ 9)" by (simp add: unitMap_def)
  moreover have "dec_digits 300 = ''300''" by code_simp
  ultimately show ?thesis using config_durations [of "''s''" "10 ^ 9" 300 "\<lambda>_ _ _. 0"] by simp
qed

text \<open>
  C28. Durations survive a round trip through the configuration format: for every 64-bit duration, the
  text that \<open>MarshalYAML\<close> gives is read back by \<open>UnmarshalYAML\<close> as the same duration, whether it is
  negative, has hours or is a fraction of a microsecond.
\<close>

theorem config_durations_roundtrip:
  assumes "exact_fraction fr" and "- (2 ^ 63) \<le> d" and "d < 2 ^ 63"
  shows "Duration_UnmarshalYAML fr (Inr (Duration_MarshalYAML d)) = Inr d"
  using ParseDuration_String [OF assms] by (simp add: Duration_UnmarshalYAML_def Duration_MarshalYAML_def)

theorem config_durations_roundtrip_witness:
  "Duration_MarshalYAML (90 * Second + 500 * Millisecond) = ''1m30.5s'' \<and>
   Duration_UnmarshalYAML (\<lambda>f unit scale. f * unit div scale) (Inr ''1m30.5s'') = Inr (90 * Second + 500 * Millisecond)"
proof -
  have exact: "exact_fraction (\<lambda>f unit scale. f * unit div scale)"
    by (simp add: exact_fraction_def div_mult_swap)
  have step: "fmtFrac (numeral k) prt v out =
      (let digit = v mod 10; prt = (prt \<or> digit \<noteq> 0)
       in fmtFrac (pred_numeral k) prt (v div 10) (if prt then hextable ! digit # out else out))" for k prt v out
    by (simp only: numeral_eq_Suc fmtFrac.simps)
  have "dec_digits 1 = ''1''" "dec_digits 30 = ''30''" by code_simp+
  then have printed: "Duration_MarshalYAML (90 * Second + 500 * Millisecond) = ''1m30.5s''"
    by (simp add: Duration_MarshalYAML_def Duration_String_def step hextable_def)
  have "- (2 ^ 63) \<le> 90 * Second + 500 * Millisecond" "90 * Second + 500 * Millisecond < 2 ^ 63"
    by simp_all
  from config_durations_roundtrip [OF exact this] printed show ?thesis by simp
qed

end
