(* ===== verification/Middleware.thy ===== *)
theory Middleware
  imports Gateway_Run Gateway_Config
begin

text \<open>
  internal/server/middleware.go. An \<open>http.Handler\<close> is a function of the request, the response
  writer and the server's state that also says whether it panicked; a panic unwinds through the
  wrappers up to \<open>recover\<close>. The token bucket of golang.org/x/time/rate is a parameter: how a
  limiter is made from rate and burst and what \<open>Allow\<close> answers at a time. Clock readings and
  random bytes of one request are arguments.
\<close>

subsection \<open>Request ids\<close>

text \<open>\<open>rnd\<close> is what \<open>rand.Read\<close> put into the 16-byte array, \<open>None\<close> its error.\<close>

definition newUUIDv4 :: "byte list option \<Rightarrow> string" where
  "newUUIDv4 rnd =
     (case rnd of
        None \<Rightarrow> ''00000000-0000-4000-8000-000000000000''
      | Some b \<Rightarrow>
          let b = b[6 := or (and (b ! 6) 0x0f) 0x40];
              b = b[8 := or (and (b ! 8) 0x3f) 0x80]
          in EncodeToString (take 4 b) @ ''-'' @ EncodeToString (take 2 (drop 4 b)) @ ''-'' @
             EncodeToString (take 2 (drop 6 b)) @ ''-'' @ EncodeToString (take 2 (drop 8 b)) @ ''-'' @
             EncodeToString (take 6 (drop 10 b)))"

subsection \<open>Rate limiters by address\<close>

record 'l ipLimiter =
  il_limiter :: 'l
  il_lastUse :: time

record 'l ipLimiterSet =
  ls_limit :: rat
  ls_burst :: int
  ls_items :: "string \<rightharpoonup> 'l ipLimiter"

definition newIPLimiterSet :: "rat \<Rightarrow> int \<Rightarrow> 'l ipLimiterSet" where
  "newIPLimiterSet limit burst =
     (let burst = (if burst \<le> 0 then 1 else burst)
      in \<lparr>ls_limit = limit, ls_burst = burst, ls_items = Map.empty\<rparr>)"

record 'l bucket =
  bk_NewLimiter :: "rat \<Rightarrow> int \<Rightarrow> 'l"
  bk_Allow :: "time \<Rightarrow> 'l \<Rightarrow> bool \<times> 'l"

text \<open>
  The limiter is a pointer, so what \<open>Allow\<close> does to it after the lock is released shows in the
  set as long as the entry is still there; here nothing runs in between.
\<close>

definition allow :: "'l bucket \<Rightarrow> time \<Rightarrow> time \<Rightarrow> string \<Rightarrow> 'l ipLimiterSet \<Rightarrow> bool \<times> 'l ipLimiterSet" where
  "allow bk now1 now2 ip s =
     (let l = (case ls_items s ip of
                 Some l \<Rightarrow> l
               | None \<Rightarrow> \<lparr>il_limiter = bk_NewLimiter bk (ls_limit s) (ls_burst s), il_lastUse = 0\<rparr>);
          l = l\<lparr>il_lastUse := now1\<rparr>;
          (ok, lim) = bk_Allow bk now2 (il_limiter l)
      in (ok, s\<lparr>ls_items := (ls_items s)(ip \<mapsto> l\<lparr>il_limiter := lim\<rparr>)\<rparr>))"

fun limiter_sweep :: "time \<Rightarrow> string list \<Rightarrow> nat \<times> 'l ipLimiterSet \<Rightarrow> nat \<times> 'l ipLimiterSet" where
  "limiter_sweep cutoff [] st = st"
| "limiter_sweep cutoff (ip # ips) (removed, s) =
     (case ls_items s ip of
        Some l \<Rightarrow>
          if il_lastUse l < cutoff
          then limiter_sweep cutoff ips (removed + 1, s\<lparr>ls_items := (ls_items s)(ip := None)\<rparr>)
          else limiter_sweep cutoff ips (removed, s)
      | None \<Rightarrow> limiter_sweep cutoff ips (removed, s))"

definition limiters_cleanup :: "string list \<Rightarrow> time \<Rightarrow> duration \<Rightarrow> 'l ipLimiterSet \<Rightarrow> nat \<times> 'l ipLimiterSet" where
  "limiters_cleanup order now maxIdle s = limiter_sweep (now - maxIdle) order (0, s)"

subsection \<open>Handlers and their state\<close>

record 'l server_state =
  g_handlers :: Handlers
  g_world :: world
  g_limiters :: "'l ipLimiterSet"

type_synonym 'l http_result = "string option \<times> ResponseWriter \<times> 'l server_state"

type_synonym 'l http_handler = "Request \<Rightarrow> ResponseWriter \<Rightarrow> 'l server_state \<Rightarrow> 'l http_result"

record 'l Middleware =
  mw_metrics :: bool
  mw_maxBodyBytes :: int
  mw_tlsEnabled :: bool
  mw_rateLimit :: RateLimitConfig
  mw_cors :: CORSConfig
  mw_bucket :: "'l bucket"

definition NewMiddleware ::
  "'l bucket \<Rightarrow> bool \<Rightarrow> int \<Rightarrow> bool \<Rightarrow> RateLimitConfig \<Rightarrow> CORSConfig \<Rightarrow> 'l Middleware \<times> 'l ipLimiterSet" where
  "NewMiddleware bk m maxBody tlsEnabled rl cors =
     (\<lparr>mw_metrics = m, mw_maxBodyBytes = maxBody, mw_tlsEnabled = tlsEnabled, mw_rateLimit = rl, mw_cors = cors,
       mw_bucket = bk\<rparr>,
      newIPLimiterSet (rl_RequestsPerSecond rl) (rl_Burst rl))"

text \<open>What the middleware reads from outside during one request.\<close>

record mw_env =
  me_uuid :: "byte list option"
  me_start :: time
  me_end :: time
  me_use :: time
  me_allow :: time
  me_stack :: string

definition upd_world :: "(world \<Rightarrow> world) \<Rightarrow> 'l server_state \<Rightarrow> 'l server_state" where
  "upd_world f g = g\<lparr>g_world := f (g_world g)\<rparr>"

definition sourceIP :: "Request \<Rightarrow> string" where
  "sourceIP r =
     (let xff = req_Header r ''X-Forwarded-For'' in
      if xff \<noteq> '''' then
        (case IndexByte xff CHR '','' of
           Some idx \<Rightarrow> TrimSpace (take idx xff)
         | None \<Rightarrow> TrimSpace xff)
      else
        (case SplitHostPort (req_RemoteAddr r) of
           None \<Rightarrow> req_RemoteAddr r
         | Some (host, _) \<Rightarrow> host))"

definition writeJSONBody :: "body \<Rightarrow> ResponseWriter \<Rightarrow> ResponseWriter" where
  "writeJSONBody v w = Write v w"

definition encodeError :: "string \<Rightarrow> ResponseWriter \<Rightarrow> ResponseWriter" where
  "encodeError msg w = writeJSONBody (BError \<lparr>er_Errors = [msg]\<rparr>) w"

fun originAllowed :: "string \<Rightarrow> string list \<Rightarrow> bool" where
  "originAllowed origin [] = False"
| "originAllowed origin (a # origins) = (if a = origin then True else originAllowed origin origins)"

subsection \<open>The status recorder\<close>

record statusRecorder =
  sr_writer :: ResponseWriter
  sr_status :: nat
  sr_wrote :: bool

definition recorder_WriteHeader :: "nat \<Rightarrow> statusRecorder \<Rightarrow> statusRecorder" where
  "recorder_WriteHeader st s =
     (let s = (if \<not> sr_wrote s then s\<lparr>sr_status := st, sr_wrote := True\<rparr> else s)
      in s\<lparr>sr_writer := WriteHeader st (sr_writer s)\<rparr>)"

definition recorder_Write :: "body \<Rightarrow> statusRecorder \<Rightarrow> statusRecorder" where
  "recorder_Write b s =
     (let s = (if \<not> sr_wrote s then s\<lparr>sr_status := 200, sr_wrote := True\<rparr> else s)
      in s\<lparr>sr_writer := Write b (sr_writer s)\<rparr>)"

text \<open>Flushing the writer of net/http sends the header, with status 200 when none was set. The flag says whether the writer below supports it.\<close>

definition http_Flush :: "ResponseWriter \<Rightarrow> ResponseWriter" where
  "http_Flush w = (case rw_sent w of None \<Rightarrow> WriteHeader 200 w | Some _ \<Rightarrow> w)"

definition recorder_Flush :: "bool \<Rightarrow> statusRecorder \<Rightarrow> statusRecorder" where
  "recorder_Flush flusher s = (if flusher then s\<lparr>sr_writer := http_Flush (sr_writer s)\<rparr> else s)"

text \<open>What the recorder holds after a handler has written to it, by what the client gets.\<close>

definition recorded_status :: "ResponseWriter \<Rightarrow> nat" where
  "recorded_status w = (case rw_sent w of Some (st, _) \<Rightarrow> st | None \<Rightarrow> 200)"

subsection \<open>The middleware\<close>

definition mw_recover :: "mw_env \<Rightarrow> 'l http_handler \<Rightarrow> 'l http_handler" where
  "mw_recover me next_h r w g =
     (case next_h r w g of
        (None, w, g) \<Rightarrow> (None, w, g)
      | (Some rec, w, g) \<Rightarrow>
          let g = upd_world (slog LevelError ''panic recovered''
                    [(''error'', rec), (''path'', req_Path r), (''request_id'', RequestID r), (''stack'', me_stack me)]) g;
              w = header_Set ''Content-Type'' ''application/json'' w;
              w = WriteHeader 500 w
          in (None, encodeError ''internal server error'' w, g))"

definition mw_requestID :: "mw_env \<Rightarrow> 'l http_handler \<Rightarrow> 'l http_handler" where
  "mw_requestID me next_h r w g =
     (let rid = req_Header r ''X-Request-Id'';
          rid = (if rid = '''' then newUUIDv4 (me_uuid me) else rid);
          w = header_Set ''X-Request-Id'' rid w
      in next_h (WithRequestID rid r) w g)"

definition mw_logging :: "mw_env \<Rightarrow> 'l http_handler \<Rightarrow> 'l http_handler" where
  "mw_logging me next_h r w g =
     (case next_h r w g of
        (Some p, w, g) \<Rightarrow> (Some p, w, g)
      | (None, w, g) \<Rightarrow>
          (None, w,
           upd_world (slog LevelInfo ''request''
             [(''method'', req_Method r), (''path'', req_Path r), (''status'', Itoa (int (recorded_status w))),
              (''duration_ms'', Itoa ((me_end me - me_start me) div Millisecond)),
              (''request_id'', RequestID r), (''src_ip'', sourceIP r)]) g))"

definition rateLimitMiddleware :: "'l Middleware \<Rightarrow> mw_env \<Rightarrow> 'l http_handler \<Rightarrow> 'l http_handler" where
  "rateLimitMiddleware m me next_h r w g =
     (if \<not> rl_Enabled (mw_rateLimit m) then next_h r w g
      else
        let ip = sourceIP r;
            (ok, lims) = allow (mw_bucket m) (me_use me) (me_allow me) ip (g_limiters g);
            g = g\<lparr>g_limiters := lims\<rparr>
        in
        if \<not> ok then
          let g = upd_world (upd_metrics (mw_metrics m) (\<lambda>ms. ms\<lparr>m_RateLimitExceeded := m_RateLimitExceeded ms + 1\<rparr>)) g;
              w = header_Set ''Content-Type'' ''application/json'' w;
              w = WriteHeader 429 w
          in (None, encodeError ''rate limit exceeded'' w, g)
        else next_h r w g)"

text \<open>\<open>http.MaxBytesReader\<close>: reading fails when the body is longer than the limit.\<close>

definition MaxBytesReader :: "int \<Rightarrow> string + string \<Rightarrow> string + string" where
  "MaxBytesReader n body =
     (case body of
        Inl err \<Rightarrow> Inl err
      | Inr text \<Rightarrow> if int (length text) > n then Inl ''http: request body too large'' else Inr text)"

definition maxBody :: "'l Middleware \<Rightarrow> 'l http_handler \<Rightarrow> 'l http_handler" where
  "maxBody m next_h r w g =
     (let r = (if 0 < mw_maxBodyBytes m then r\<lparr>req_Body := MaxBytesReader (mw_maxBodyBytes m) (req_Body r)\<rparr> else r)
      in next_h r w g)"

definition corsMiddleware :: "'l Middleware \<Rightarrow> 'l http_handler \<Rightarrow> 'l http_handler" where
  "corsMiddleware m next_h r w g =
     (if co_Enabled (mw_cors m) then
        let origin = req_Header r ''Origin'';
            w = (if origin \<noteq> '''' \<and> originAllowed origin (co_AllowedOrigins (mw_cors m)) then
                   header_Set ''Access-Control-Allow-Headers'' ''X-Vault-Token, Content-Type''
                     (header_Set ''Access-Control-Allow-Methods'' ''GET, POST''
                        (header_Set ''Vary'' ''Origin''
                           (header_Set ''Access-Control-Allow-Origin'' origin w)))
                 else w)
        in if req_Method r = ''OPTIONS'' then (None, WriteHeader 204 w, g) else next_h r w g
      else next_h r w g)"

definition securityHeaders :: "'l Middleware \<Rightarrow> 'l http_handler \<Rightarrow> 'l http_handler" where
  "securityHeaders m next_h r w g =
     (let w = header_Set ''X-Content-Type-Options'' ''nosniff'' w;
          w = header_Set ''X-Frame-Options'' ''DENY'' w;
          w = header_Set ''Cache-Control'' ''no-store'' w;
          w = header_Set ''Content-Security-Policy'' (''default-src '' @ [CHR 0x27] @ ''none'' @ [CHR 0x27]) w;
          w = (if mw_tlsEnabled m
               then header_Set ''Strict-Transport-Security'' ''max-age=31536000; includeSubDomains'' w else w)
      in next_h r w g)"

definition Chain :: "'l Middleware \<Rightarrow> mw_env \<Rightarrow> 'l http_handler \<Rightarrow> 'l http_handler" where
  "Chain m me next_h =
     (let h = next_h;
          h = securityHeaders m h;
          h = corsMiddleware m h;
          h = maxBody m h;
          h = rateLimitMiddleware m me h;
          h = mw_logging me h;
          h = mw_requestID me h;
          h = mw_recover me h
      in h)"

end
