(* ===== verification/Routes.thy ===== *)
theory Routes
  imports Middleware
begin

text \<open>
  internal/server/routes.go over a model of the parts of \<open>http.ServeMux\<close> that its five patterns
  use: the escaped path is cleaned; a request for the secret subtree without its final slash is
  redirected to it, a request for any other unclean path to the cleaned one; a pattern with the
  method GET also serves HEAD; the pattern for the root catches everything else. The value of the
  trailing wildcard is the unescaped rest of the path. A CONNECT request in origin form is not
  canonicalized and meets only the root pattern.
\<close>

subsection \<open>Paths\<close>

fun clean_segments :: "string list \<Rightarrow> string list \<Rightarrow> string list" where
  "clean_segments [] acc = rev acc"
| "clean_segments (s # ss) acc =
     (if s = '''' \<or> s = ''.'' then clean_segments ss acc
      else if s = ''..'' then clean_segments ss (tl acc)
      else clean_segments ss (s # acc))"

definition cleanPath :: "string \<Rightarrow> string" where
  "cleanPath p =
     (if p = '''' then ''/''
      else
        let p = (if hd p \<noteq> CHR ''/'' then CHR ''/'' # p else p);
            np = CHR ''/'' # Join (clean_segments (Split p CHR ''/'') []) ''/''
        in if last p = CHR ''/'' \<and> np \<noteq> ''/'' then np @ ''/'' else np)"

text \<open>\<open>url.PathUnescape\<close>; the mux keeps a segment that does not unescape.\<close>

fun unescape :: "string \<Rightarrow> string option" where
  "unescape [] = Some []"
| "unescape (c # s) =
     (if c = CHR ''%'' then
        (case s of
           h # l # t \<Rightarrow>
             (case (hex_value h, hex_value l) of
                (Some a, Some b) \<Rightarrow> map_option (\<lambda>u. char_of (16 * a + b) # u) (unescape t)
              | _ \<Rightarrow> None)
         | _ \<Rightarrow> None)
      else map_option (\<lambda>u. c # u) (unescape s))"

definition pathUnescape :: "string \<Rightarrow> string" where
  "pathUnescape s = (case unescape s of Some u \<Rightarrow> u | None \<Rightarrow> s)"

text \<open>The path of a URL as \<open>URL.String\<close> prints it.\<close>

definition upperhex :: string where
  "upperhex = ''0123456789ABCDEF''"

definition shouldEscape :: "char \<Rightarrow> bool" where
  "shouldEscape c \<longleftrightarrow>
     \<not> (0x30 \<le> code c \<and> code c \<le> 0x39 \<or> 0x41 \<le> code c \<and> code c \<le> 0x5A \<or> 0x61 \<le> code c \<and> code c \<le> 0x7A \<or>
        c \<in> set ''-_.~$&+,/:;=@'')"

definition escape_path :: "string \<Rightarrow> string" where
  "escape_path p =
     concat (map (\<lambda>c. if shouldEscape c then [CHR ''%'', upperhex ! (code c div 16), upperhex ! (code c mod 16)] else [c]) p)"

definition url_String :: "string \<Rightarrow> string \<Rightarrow> string" where
  "url_String path query = escape_path path @ (if query = '''' then '''' else CHR ''?'' # query)"

subsection \<open>The routing decision\<close>

text \<open>A redirection carries the path of the target before escaping.\<close>

datatype route =
    ToHealth
  | ToSealStatus
  | ToLogin
  | ToSecret string
  | ToNotFound
  | ToRedirect string

definition getLike :: "string \<Rightarrow> bool" where
  "getLike mth \<longleftrightarrow> mth = ''GET'' \<or> mth = ''HEAD''"

definition route :: "string \<Rightarrow> string \<Rightarrow> route" where
  "route mth raw =
     (if mth = ''CONNECT'' then ToNotFound
      else
      let path = cleanPath raw; segs = Split path CHR ''/'' in
      if getLike mth \<and> map pathUnescape segs = ['''', ''v1'', ''secret'', ''data'']
      then ToRedirect (cleanPath (pathUnescape raw) @ ''/'')
      else if path \<noteq> raw then ToRedirect path
      else if getLike mth \<and> map pathUnescape segs = ['''', ''v1'', ''sys'', ''health''] then ToHealth
      else if getLike mth \<and> map pathUnescape segs = ['''', ''v1'', ''sys'', ''seal-status''] then ToSealStatus
      else if mth = ''POST'' \<and> map pathUnescape segs = ['''', ''v1'', ''auth'', ''kubernetes'', ''login''] then ToLogin
      else if getLike mth \<and> 4 < length segs \<and> map pathUnescape (take 4 segs) = ['''', ''v1'', ''secret'', ''data'']
      then ToSecret (pathUnescape (Join (drop 4 segs) ''/''))
      else ToNotFound)"

definition notFoundHandler :: "Request \<Rightarrow> ResponseWriter \<Rightarrow> ResponseWriter" where
  "notFoundHandler r w =
     (let w = header_Set ''Content-Type'' ''application/json'' w;
          w = WriteHeader 404 w
      in writeJSONBody (BError \<lparr>er_Errors = [''not found'']\<rparr>) w)"

text \<open>
  \<open>http.Redirect\<close>, with the status the mux uses since Go 1.26 (the version go.mod asks for). It
  cleans the target once more, which changes nothing here, and writes a page for GET only.
\<close>

definition mux_redirect_status :: nat where
  "mux_redirect_status = 307"

definition hexEscapeNonASCII :: "string \<Rightarrow> string" where
  "hexEscapeNonASCII s =
     concat (map (\<lambda>c. if 128 \<le> code c then [CHR ''%'', hextable ! (code c div 16), hextable ! (code c mod 16)] else [c]) s)"

definition redirect_response :: "Request \<Rightarrow> string \<Rightarrow> ResponseWriter \<Rightarrow> ResponseWriter" where
  "redirect_response r loc w =
     (let hadCT = rw_header w ''Content-Type'' \<noteq> None;
          w = header_Set ''Location'' (hexEscapeNonASCII loc) w;
          w = (if \<not> hadCT \<and> getLike (req_Method r) then header_Set ''Content-Type'' ''text/html; charset=utf-8'' w else w);
          w = WriteHeader mux_redirect_status w
      in if \<not> hadCT \<and> req_Method r = ''GET'' then Write (BRedirect loc) w else w)"

definition lift_handler :: "(Request \<Rightarrow> ResponseWriter \<Rightarrow> Handlers \<Rightarrow> world \<Rightarrow> result) \<Rightarrow> 'l http_handler" where
  "lift_handler f r w g =
     (case f r w (g_handlers g) (g_world g) of
        (p, w, h, wd) \<Rightarrow> (p, w, g\<lparr>g_handlers := h, g_world := wd\<rparr>))"

definition NewRouter :: "env \<Rightarrow> 'l http_handler" where
  "NewRouter ev r w g =
     (case route (req_Method r) (req_EscapedPath r) of
        ToHealth \<Rightarrow> lift_handler (HealthHandler ev) r w g
      | ToSealStatus \<Rightarrow> lift_handler (SealStatusHandler ev) r w g
      | ToLogin \<Rightarrow> lift_handler (K8sLoginHandler ev) r w g
      | ToSecret p \<Rightarrow> lift_handler (SecretReadHandler ev) (r\<lparr>req_PathValue := p\<rparr>) w g
      | ToNotFound \<Rightarrow> (None, notFoundHandler r w, g)
      | ToRedirect p \<Rightarrow> (None, redirect_response r (url_String p (req_RawQuery r)) w, g))"

text \<open>The API server: the router behind the middleware.\<close>

definition serve :: "'l Middleware \<Rightarrow> mw_env \<Rightarrow> env \<Rightarrow> 'l http_handler" where
  "serve m me ev = Chain m me (NewRouter ev)"

end
