(* ===== verification/Gateway_Server.thy ===== *)
theory Gateway_Server
  imports Routes
begin

text \<open>
  internal/server/server.go: the two HTTP servers, TLS, the side server with its probes, the
  cleanup of idle rate limiters, and start and shutdown. The list of cipher suites of crypto/tls,
  the Prometheus handler and what listening and draining come to are arguments.
\<close>

subsection \<open>TLS\<close>

record tls_Config =
  tc_MinVersion :: "16 word"
  tc_CipherSuites :: "16 word list"

fun suite_table :: "(string \<times> 16 word) list \<Rightarrow> (string \<rightharpoonup> 16 word) \<Rightarrow> string \<rightharpoonup> 16 word" where
  "suite_table [] byName = byName"
| "suite_table ((name, suite) # suites) byName = suite_table suites (byName(name \<mapsto> suite))"

fun suites_loop :: "(string \<rightharpoonup> 16 word) \<Rightarrow> string list \<Rightarrow> 16 word list \<Rightarrow> 16 word list" where
  "suites_loop byName [] out = out"
| "suites_loop byName (n # names) out =
     (case byName n of
        Some suite \<Rightarrow> suites_loop byName names (out @ [suite])
      | None \<Rightarrow> suites_loop byName names out)"

definition mapCipherSuites :: "(string \<times> 16 word) list \<Rightarrow> string list \<Rightarrow> 16 word list" where
  "mapCipherSuites CipherSuites names =
     (if names = [] then [] else suites_loop (suite_table CipherSuites Map.empty) names [])"

text \<open>An empty list of suites stands for the defaults of crypto/tls.\<close>

definition buildTLSConfig :: "(string \<times> 16 word) list \<Rightarrow> Config \<Rightarrow> tls_Config" where
  "buildTLSConfig CipherSuites cfg =
     (let tc = \<lparr>tc_MinVersion = TLSMinVersion cfg, tc_CipherSuites = []\<rparr>;
          suites = mapCipherSuites CipherSuites (tls_CipherSuites (sv_TLS (cfg_Server cfg)))
      in if suites \<noteq> [] then tc\<lparr>tc_CipherSuites := suites\<rparr> else tc)"

subsection \<open>The servers\<close>

record http_server =
  hs_Addr :: string
  hs_ReadTimeout :: duration
  hs_WriteTimeout :: duration
  hs_IdleTimeout :: duration
  hs_ReadHeaderTimeout :: duration
  hs_TLSConfig :: "tls_Config option"

text \<open>A timeout of 0 is no timeout. The handlers are \<open>serve\<close> and \<open>metricsMux\<close>.\<close>

record Server =
  srv_cfg :: Config
  srv_api :: http_server
  srv_metricsSrv :: http_server

definition server_New :: "(string \<times> 16 word) list \<Rightarrow> Config \<Rightarrow> Server" where
  "server_New CipherSuites cfg =
     (let sv = cfg_Server cfg;
          apiSrv = \<lparr>hs_Addr = JoinHostPort (sv_Host sv) (Itoa (sv_Port sv)), hs_ReadTimeout = sv_ReadTimeout sv,
                    hs_WriteTimeout = sv_WriteTimeout sv, hs_IdleTimeout = sv_IdleTimeout sv,
                    hs_ReadHeaderTimeout = 10 * Second, hs_TLSConfig = None\<rparr>;
          apiSrv = (if tls_Enabled (sv_TLS sv) then apiSrv\<lparr>hs_TLSConfig := Some (buildTLSConfig CipherSuites cfg)\<rparr> else apiSrv);
          metricsSrv = \<lparr>hs_Addr = JoinHostPort (sv_Host sv) (Itoa (mt_Port (cfg_Metrics cfg))), hs_ReadTimeout = 0,
                        hs_WriteTimeout = 0, hs_IdleTimeout = 0, hs_ReadHeaderTimeout = 10 * Second, hs_TLSConfig = None\<rparr>
      in \<lparr>srv_cfg = cfg, srv_api = apiSrv, srv_metricsSrv = metricsSrv\<rparr>)"

subsection \<open>The side server\<close>

definition healthz :: "ResponseWriter \<Rightarrow> ResponseWriter" where
  "healthz w = Write (BText (''ok'' @ [CHR 0x0A])) (WriteHeader 200 w)"

definition readyz :: "remotes \<Rightarrow> backend option \<Rightarrow> ResponseWriter \<Rightarrow> world \<Rightarrow> ResponseWriter \<times> world" where
  "readyz rs be w wd =
     (let ready = (\<lambda>wd. (Write (BText (''ready'' @ [CHR 0x0A])) (WriteHeader 200 w), wd)) in
      case be of
        None \<Rightarrow> ready wd
      | Some b \<Rightarrow>
          (case backend_HealthCheck rs b wd of
             (Some err, wd) \<Rightarrow>
               (Write (BText (''not ready'' @ [CHR 0x0A])) (WriteHeader 503 w),
                slog LevelWarn ''readiness check failed'' [(''error'', error_text err)] wd)
           | (None, wd) \<Rightarrow> ready wd))"

text \<open>
  The mux of the side server. Its patterns have no method; a metrics path is a plain path here, one
  that begins with a slash and has no wildcards. A path that ends with a slash matches its subtree.
\<close>

definition pattern_segments :: "string \<Rightarrow> string list" where
  "pattern_segments q = map pathUnescape (tl (Split q CHR ''/''))"

definition pattern_matches :: "string \<Rightarrow> string \<Rightarrow> bool" where
  "pattern_matches q path =
     (let ps = pattern_segments q; segs = pattern_segments path in
      if last q = CHR ''/'' then length ps \<le> length segs \<and> take (length ps - 1) segs = butlast ps else segs = ps)"

definition exact_subtree :: "string \<Rightarrow> string \<Rightarrow> bool" where
  "exact_subtree q path \<longleftrightarrow> last q = CHR ''/'' \<and> pattern_matches q path \<and> length (pattern_segments q) = length (pattern_segments path)"

datatype side_route = SMetrics | SHealthz | SReadyz | SNotFound | SRedirect string

definition side_route :: "bool \<Rightarrow> string \<Rightarrow> string \<Rightarrow> string \<Rightarrow> side_route" where
  "side_route metrics mp mth raw =
     (let path = (if mth = ''CONNECT'' then raw else cleanPath raw) in
      if pattern_matches ''/healthz'' path then if path \<noteq> raw then SRedirect path else SHealthz
      else if pattern_matches ''/readyz'' path then if path \<noteq> raw then SRedirect path else SReadyz
      else if metrics \<and> last path \<noteq> CHR ''/'' \<and> exact_subtree mp (path @ ''/'')
      then SRedirect (cleanPath (pathUnescape raw) @ ''/'')
      else if path \<noteq> raw then SRedirect path
      else if metrics \<and> pattern_matches mp path then SMetrics
      else SNotFound)"

definition http_NotFound :: "ResponseWriter \<Rightarrow> ResponseWriter" where
  "http_NotFound w =
     (let w = header_Set ''Content-Type'' ''text/plain; charset=utf-8'' w;
          w = header_Set ''X-Content-Type-Options'' ''nosniff'' w
      in Write (BText (''404 page not found'' @ [CHR 0x0A])) (WriteHeader 404 w))"

text \<open>
  Registering the patterns panics when the metrics path has no slash at all or names one of the
  probes; \<open>None\<close> is the panic.
\<close>

definition side_conflict :: "Config \<Rightarrow> bool \<Rightarrow> bool" where
  "side_conflict cfg m \<longleftrightarrow>
     mt_Enabled (cfg_Metrics cfg) \<and> m \<and>
     (CHR ''/'' \<notin> set (mt_Path (cfg_Metrics cfg)) \<or>
      pattern_segments (mt_Path (cfg_Metrics cfg)) \<in> {[''healthz''], [''readyz'']})"

definition metricsMux ::
  "Config \<Rightarrow> bool \<Rightarrow> (Request \<Rightarrow> ResponseWriter \<Rightarrow> world \<Rightarrow> ResponseWriter) \<Rightarrow> remotes \<Rightarrow> backend option \<Rightarrow>
   (Request \<Rightarrow> ResponseWriter \<Rightarrow> world \<Rightarrow> ResponseWriter \<times> world) option" where
  "metricsMux cfg m promhttp rs be =
     (let mp = mt_Path (cfg_Metrics cfg); metrics = mt_Enabled (cfg_Metrics cfg) \<and> m in
      if side_conflict cfg m then None
      else Some (\<lambda>r w wd.
        case side_route metrics mp (req_Method r) (req_EscapedPath r) of
          SMetrics \<Rightarrow> (promhttp r w wd, wd)
        | SHealthz \<Rightarrow> (healthz w, wd)
        | SReadyz \<Rightarrow> readyz rs be w wd
        | SNotFound \<Rightarrow> (http_NotFound w, wd)
        | SRedirect p \<Rightarrow> (redirect_response r (url_String p (req_RawQuery r)) w, wd)))"

subsection \<open>Cleanup of idle limiters\<close>

datatype limiter_event = LimiterTick "string list" time | LimiterStop

fun startLimiterCleanup :: "limiter_event list \<Rightarrow> 'l ipLimiterSet \<Rightarrow> bool \<times> 'l ipLimiterSet" where
  "startLimiterCleanup [] s = (True, s)"
| "startLimiterCleanup (LimiterTick order now # evs) s =
     startLimiterCleanup evs (snd (limiters_cleanup order now (10 * 60 * Second) s))"
| "startLimiterCleanup (LimiterStop # evs) s = (False, s)"

subsection \<open>Start and shutdown\<close>

text \<open>How serving ends: by a shutdown or with an error. The error goes to the channel.\<close>

datatype listen_result = ErrServerClosed | ListenError string

definition listen_report :: "string \<Rightarrow> listen_result \<Rightarrow> string option" where
  "listen_report name res = (case res of ErrServerClosed \<Rightarrow> None | ListenError err \<Rightarrow> Some (name @ '': '' @ err))"

fun backend_Close :: "string option \<Rightarrow> backend \<Rightarrow> backend_error option \<times> backend" where
  "backend_Close gcp_err (AWS b) = (aws_Close b, AWS b)"
| "backend_Close gcp_err (Azure b) = (azure_Close b, Azure b)"
| "backend_Close gcp_err (Vault b) = (case vault_Close b of (err, b) \<Rightarrow> (err, Vault b))"
| "backend_Close gcp_err (GCP b) = (gcp_Close gcp_err b, GCP b)"

text \<open>\<open>errors.Join\<close>: the texts of the errors that are there, one per line.\<close>

definition errors_Join :: "string option list \<Rightarrow> string option" where
  "errors_Join errs =
     (let texts = concat (map (\<lambda>e. case e of None \<Rightarrow> [] | Some t \<Rightarrow> [t]) errs)
      in if texts = [] then None else Some (Join texts [CHR 0x0A]))"

record drain =
  dr_api :: "string option"
  dr_metrics :: "string option"
  dr_gcp_close :: "string option"

definition shutdown :: "Server \<Rightarrow> drain \<Rightarrow> backend option \<Rightarrow> world \<Rightarrow> string option \<times> backend option \<times> world" where
  "shutdown srv dr be wd =
     (let grace = sv_ShutdownGracePeriod (cfg_Server (srv_cfg srv));
          wd = slog LevelInfo ''shutting down'' [(''grace_period'', Duration_String grace)] wd;
          apiErr = dr_api dr;
          metricsErr = dr_metrics dr;
          (be, wd) =
            (case be of
               None \<Rightarrow> (None, wd)
             | Some b \<Rightarrow>
                 (case backend_Close (dr_gcp_close dr) b of
                    (Some err, b) \<Rightarrow> (Some b, slog LevelWarn ''backend close error'' [(''error'', error_text err)] wd)
                  | (None, b) \<Rightarrow> (Some b, wd)))
      in (errors_Join [apiErr, metricsErr], be, wd))"

text \<open>
  The two goroutines log when they begin to listen, here in one of the possible orders. What
  ends the wait in \<open>Start\<close> is the context or the first error in the channel; \<open>serving\<close> is what the
  requests and cleanups until then make of the backend and the rest of the state.
\<close>

definition listening :: "Server \<Rightarrow> world \<Rightarrow> world" where
  "listening srv wd =
     (let wd = slog LevelInfo ''metrics/health server listening'' [(''addr'', hs_Addr (srv_metricsSrv srv))] wd
      in if tls_Enabled (sv_TLS (cfg_Server (srv_cfg srv)))
         then slog LevelInfo ''API server listening (TLS)'' [(''addr'', hs_Addr (srv_api srv))] wd
         else slog LevelWarn ''API server listening WITHOUT TLS (development only)'' [(''addr'', hs_Addr (srv_api srv))] wd)"

datatype start_event = ContextDone | ErrorReported string

definition server_Start ::
  "Server \<Rightarrow> (world \<Rightarrow> backend option \<times> world) \<Rightarrow> start_event \<Rightarrow> drain \<Rightarrow> world \<Rightarrow> string option \<times> backend option \<times> world" where
  "server_Start srv serving ev dr wd =
     (let (be, wd) = serving (listening srv wd) in
      case ev of
        ContextDone \<Rightarrow> shutdown srv dr be wd
      | ErrorReported err \<Rightarrow> (case shutdown srv dr be wd of (_, be, wd) \<Rightarrow> (Some err, be, wd)))"

end
