(* ===== verification/Gateway_Main.thy ===== *)
theory Gateway_Main
  imports Gateway_Server
begin

text \<open>
  cmd/vault-gateway/main.go: from the configuration to a running gateway. The constructors of the
  cloud SDKs, the Kubernetes client, the file system, the flags and the random source are arguments.
  What \<open>run\<close> hands to \<open>Start\<close> is kept as one record.
\<close>

subsection \<open>Building the parts\<close>

record ('c, 'k, 'z, 'g) sdk =
  sdk_LoadDefaultConfig :: "aws_option list \<Rightarrow> string + 'c"
  sdk_NewFromConfig :: "'c \<Rightarrow> string option \<Rightarrow> 'k"
  sdk_azure_cred :: "string + 'z"
  sdk_azure_client :: "string \<Rightarrow> 'z \<Rightarrow> string + 'k"
  sdk_vault :: vault_env
  sdk_gcp :: "string + 'g"

definition buildBackend :: "('c, 'k, 'z, 'g) sdk \<Rightarrow> Config \<Rightarrow> bool \<Rightarrow> world \<Rightarrow> (string + backend) \<times> world" where
  "buildBackend sdk cfg m w =
     (if cfg_Backend cfg = BackendAWS then
        (let a = cfg_AWS cfg in
         case aws_New (sdk_LoadDefaultConfig sdk) (sdk_NewFromConfig sdk)
                \<lparr>ac_Region = fa_Region a, ac_SecretPrefix = fa_SecretPrefix a, ac_EndpointURL = fa_EndpointURL a,
                 ac_MaxRetries = fa_MaxRetries a, ac_Cache = ToCache (fa_Cache a)\<rparr> m w of
           (Inl err, w) \<Rightarrow> (Inl err, w)
         | (Inr (_, b), w) \<Rightarrow> (Inr (AWS b), w))
      else if cfg_Backend cfg = BackendAzure then
        (let z = cfg_Azure cfg in
         case azure_New (sdk_azure_cred sdk) (sdk_azure_client sdk)
                \<lparr>zc_VaultURL = fz_VaultURL z, zc_NamingStrategy = fz_NamingStrategy z, zc_Cache = ToCache (fz_Cache z)\<rparr> m of
           Inl err \<Rightarrow> (Inl err, w)
         | Inr (_, b) \<Rightarrow> (Inr (Azure b), w))
      else if cfg_Backend cfg = BackendVault then
        (let v = cfg_Vault cfg in
         case vault_New (sdk_vault sdk)
                \<lparr>vc_Address = fv_Address v, vc_AuthPath = fv_AuthPath v, vc_Role = fv_Role v, vc_TLSSkipVerify = fv_TLSSkipVerify v,
                 vc_CACert = fv_CACert v, vc_Token = fv_Token v, vc_Cache = ToCache (fv_Cache v)\<rparr> m w of
           (Inl err, w) \<Rightarrow> (Inl err, w)
         | (Inr b, w) \<Rightarrow> (Inr (Vault b), w))
      else if cfg_Backend cfg = BackendGCP then
        (let g = cfg_GCP cfg in
         case gcp_New (sdk_gcp sdk)
                \<lparr>gc_ProjectID = fg_ProjectID g, gc_SecretPrefix = fg_SecretPrefix g, gc_Cache = ToCache (fg_Cache g)\<rparr> m w of
           (Inl err, w) \<Rightarrow> (Inl err, w)
         | (Inr (_, b), w) \<Rightarrow> (Inr (GCP b), w))
      else (Inl (''unsupported backend '' @ quoted (cfg_Backend cfg)), w))"

text \<open>The loops over the roles build maps entry by entry; the order does not show.\<close>

definition buildRoles :: "Config \<Rightarrow> string \<rightharpoonup> Role" where
  "buildRoles cfg name =
     map_option (\<lambda>r. \<lparr>AllowedNamespaces = ro_AllowedNamespaces r, AllowedServiceAccounts = ro_AllowedServiceAccounts r,
                      AllowedPaths = ro_AllowedPaths r\<rparr>) (at_Roles (cfg_Auth cfg) name)"

definition roleTTLs :: "Config \<Rightarrow> string \<rightharpoonup> duration" where
  "roleTTLs cfg name =
     (case at_Roles (cfg_Auth cfg) name of
        Some r \<Rightarrow> if 0 < ro_TokenTTL r then Some (ro_TokenTTL r) else None
      | None \<Rightarrow> None)"

definition newLogger :: "LoggingConfig \<Rightarrow> level \<times> bool" where
  "newLogger lc =
     (let lv = (if lg_Level lc = ''debug'' then LevelDebug else if lg_Level lc = ''warn'' then LevelWarn
                else if lg_Level lc = ''error'' then LevelError else LevelInfo)
      in if lg_Format lc = ''text'' then (lv, True) else (lv, False))"

definition generateClusterID :: "byte list option \<Rightarrow> string" where
  "generateClusterID rnd = (case rnd of None \<Rightarrow> ''vault-gateway-cluster'' | Some b \<Rightarrow> EncodeToString b)"

definition logStartupBanner :: "build_info \<Rightarrow> Config \<Rightarrow> world \<Rightarrow> world" where
  "logStartupBanner bi cfg =
     slog LevelInfo ''vault-gateway starting''
       [(''version'', bi_Version bi), (''commit'', bi_GitCommit bi), (''backend'', cfg_Backend cfg),
        (''api_addr'', sv_Host (cfg_Server cfg) @ '':'' @ Itoa (sv_Port (cfg_Server cfg))),
        (''metrics_addr'', sv_Host (cfg_Server cfg) @ '':'' @ Itoa (mt_Port (cfg_Metrics cfg))),
        (''tls'', bool_str (tls_Enabled (sv_TLS (cfg_Server cfg))))]"

subsection \<open>The run\<close>

record ('c, 'k, 'z, 'g, 'l, 'r) main_env =
  mn_configPath :: string
  mn_kubeconfig :: string
  mn_showVersion :: bool
  mn_build :: build_info
  mn_ReadFile :: "string \<Rightarrow> string + string"
  mn_Unmarshal :: "string \<Rightarrow> string + Config"
  mn_LookupEnv :: "string \<rightharpoonup> string"
  mn_stat :: "string \<Rightarrow> string option"
  mn_role_order :: "string list"
  mn_sdk :: "('c, 'k, 'z, 'g) sdk"
  mn_inCluster :: "string + 'r"
  mn_deferred :: "string option \<Rightarrow> string + 'r"
  mn_newForConfig :: "'r \<Rightarrow> string + tokenReviewer"
  mn_rnd :: "byte list option"
  mn_bucket :: "'l bucket"
  mn_CipherSuites :: "(string \<times> 16 word) list"

text \<open>What is running after \<open>run\<close> has built everything.\<close>

record 'l gateway =
  gt_cfg :: Config
  gt_logger :: "level \<times> bool"
  gt_handlers :: Handlers
  gt_middleware :: "'l Middleware"
  gt_limiters :: "'l ipLimiterSet"
  gt_server :: Server
  gt_cleanup_interval :: duration

datatype 'l startup = Refused string | PrintedVersion string | Panicked | Running "'l gateway" world

definition gateway_run :: "('c, 'k, 'z, 'g, 'l, 'r) main_env \<Rightarrow> mheap \<Rightarrow> 'l startup" where
  "gateway_run mn hp =
     (if mn_showVersion mn then PrintedVersion (version_String (mn_build mn))
      else if mn_configPath mn = '''' then Refused ''no config provided: set --config or VAULT_GATEWAY_CONFIG''
      else
      case Load (mn_ReadFile mn) (mn_Unmarshal mn) (mn_LookupEnv mn) (mn_stat mn) (mn_role_order mn) (mn_configPath mn) of
        Inl err \<Rightarrow> Refused (''load config: '' @ err)
      | Inr cfg \<Rightarrow>
      let w = \<lparr>w_heap = hp, w_metrics = SetInfo (bi_Version (mn_build mn)) (cfg_Backend cfg) (bi_GoVersion (mn_build mn)) metrics_New,
               w_log = []\<rparr> in
      case buildBackend (mn_sdk mn) cfg True w of
        (Inl err, w) \<Rightarrow> Refused (''init backend '' @ quoted (cfg_Backend cfg) @ '': '' @ err)
      | (Inr be, w) \<Rightarrow>
      case NewK8sTokenValidator (mn_inCluster mn) (mn_deferred mn) (mn_newForConfig mn) (mn_kubeconfig mn) []
             (hc_BackendCheckTimeout (cfg_HealthCheck cfg)) of
        Inl err \<Rightarrow> Refused (''init kubernetes token validator: '' @ err)
      | Inr validator \<Rightarrow>
      let handlers = NewHandlers
            \<lparr>h_backend = Some be, h_validator = validator, h_tokens = NewTokenStore (at_MaxTokensPerIdentity (cfg_Auth cfg)),
             h_rbac = NewRBAC (buildRoles cfg), h_metrics = True, h_defaultTokenTTL = at_TokenTTL (cfg_Auth cfg),
             h_roleTokenTTL = roleTTLs cfg, h_backendHealthCheck = hc_BackendCheck (cfg_HealthCheck cfg),
             h_backendCheckTimeout = hc_BackendCheckTimeout (cfg_HealthCheck cfg), h_clusterID = generateClusterID (mn_rnd mn),
             h_build = mn_build mn\<rparr>;
          (mw, limiters) = NewMiddleware (mn_bucket mn) True (sv_MaxRequestBodySize (cfg_Server cfg))
            (tls_Enabled (sv_TLS (cfg_Server cfg))) (cfg_RateLimit cfg) (cfg_CORS cfg)
      in
      if side_conflict cfg True then Panicked
      else Running
           \<lparr>gt_cfg = cfg, gt_logger = newLogger (cfg_Logging cfg), gt_handlers = handlers, gt_middleware = mw, gt_limiters = limiters,
            gt_server = server_New (mn_CipherSuites mn) cfg,
            gt_cleanup_interval = cleanup_interval (at_TokenCleanupInterval (cfg_Auth cfg))\<rparr>
           (logStartupBanner (mn_build mn) cfg w))"


subsection \<open>What a started gateway is\<close>

lemma aws_fresh: "aws_New L N c m w = (Inr (k, b), w') \<Longrightarrow> aws_ok b h \<and> w_heap w' = w_heap w"
  by (auto simp: aws_New_def aws_ok_def new_cache_ok slog_def Let_def split: sum.splits)

lemma azure_fresh: "azure_New cred cl c m = Inr (k, b) \<Longrightarrow> azure_ok b h"
  by (auto simp: azure_New_def azure_newWithClient_def azure_ok_def new_cache_ok Let_def split: if_splits sum.splits)

lemma gcp_fresh: "gcp_New cl c m w = (Inr (k, b), w') \<Longrightarrow> gcp_ok b h \<and> w_heap w' = w_heap w"
  by (auto simp: gcp_New_def gcp_ok_def new_cache_ok slog_def Let_def split: if_splits sum.splits)

lemma vault_login_cache: "vault_login env c b = Inr (auth, b') \<Longrightarrow> vb_cache b' = vb_cache b"
  by (auto simp: vault_login_def Let_def split: if_splits sum.splits option.splits)

lemma vault_fresh:
  assumes "vault_New env c m w = (Inr b, w')"
  shows "vault_ok b h \<and> w_heap w' = w_heap w"
proof -
  have "vb_cache b = cache_New (vc_Cache c) \<and> w_heap w' = w_heap w"
    using assms
    by (auto simp: vault_New_def slog_def Let_def dest!: vault_login_cache split: if_splits sum.splits option.splits prod.splits)
  then show ?thesis by (simp add: vault_ok_def new_cache_ok)
qed

lemma backend_fresh:
  assumes "buildBackend sdk cfg m w = (Inr b, w')"
  shows "backend_ok b (w_heap w')" and "w_heap w' = w_heap w"
proof -
  have "backend_ok b (w_heap w') \<and> w_heap w' = w_heap w"
    using assms
    by (auto simp: buildBackend_def Let_def dest: aws_fresh azure_fresh vault_fresh gcp_fresh split: if_splits sum.splits prod.splits)
  then show "backend_ok b (w_heap w')" and "w_heap w' = w_heap w" by auto
qed


lemma Itoa_inj:
  assumes "0 \<le> a" and "0 \<le> b"
  shows "Itoa a = Itoa b \<longleftrightarrow> a = b"
proof
  assume "Itoa a = Itoa b"
  with assms have "dec_digits (nat a) = dec_digits (nat b)" by (simp add: Itoa_def)
  then have "nat a = nat b" by (metis dec_digits_value)
  with assms show "a = b" by simp
qed simp

lemma JoinHostPort_inj: "JoinHostPort host a = JoinHostPort host b \<longleftrightarrow> a = b"
  by (simp add: JoinHostPort_def)

lemma Load_sound:
  assumes "Load ReadFile Unmarshal LookupEnv stat order path = Inr cfg" and "enumerates order (at_Roles (cfg_Auth cfg))"
  shows "config_sound cfg"
proof -
  have "config_Validate stat order cfg = None"
    using assms(1) by (auto simp: Load_def parse_def Let_def split: sum.splits option.splits)
  with config_Validate_iff [OF assms(2)] show ?thesis by blast
qed

text \<open>What \<open>run\<close> has built when it starts serving.\<close>

lemma gateway_run_Running:
  assumes "gateway_run mn hp = Running gt w"
  shows "\<exists>cfg. Load (mn_ReadFile mn) (mn_Unmarshal mn) (mn_LookupEnv mn) (mn_stat mn) (mn_role_order mn) (mn_configPath mn) = Inr cfg \<and>
    gt_cfg gt = cfg \<and> gt_server gt = server_New (mn_CipherSuites mn) cfg \<and>
    gt_cleanup_interval gt = cleanup_interval (at_TokenCleanupInterval (cfg_Auth cfg)) \<and>
    h_tokens (gt_handlers gt) = NewTokenStore (at_MaxTokensPerIdentity (cfg_Auth cfg)) \<and>
    h_rbac (gt_handlers gt) = NewRBAC (buildRoles cfg) \<and> h_defaultTokenTTL (gt_handlers gt) = at_TokenTTL (cfg_Auth cfg) \<and>
    h_roleTokenTTL (gt_handlers gt) = roleTTLs cfg \<and>
    (\<exists>be. h_backend (gt_handlers gt) = Some be \<and> backend_ok be (w_heap w)) \<and>
    mw_tlsEnabled (gt_middleware gt) = tls_Enabled (sv_TLS (cfg_Server cfg)) \<and> mw_rateLimit (gt_middleware gt) = cfg_RateLimit cfg"
proof -
  obtain cfg where load: "Load (mn_ReadFile mn) (mn_Unmarshal mn) (mn_LookupEnv mn) (mn_stat mn) (mn_role_order mn) (mn_configPath mn) = Inr cfg"
    and flags: "\<not> mn_showVersion mn" "mn_configPath mn \<noteq> ''''"
    using assms by (auto simp: gateway_run_def split: if_splits sum.splits)
  let ?w = "\<lparr>w_heap = hp, w_metrics = SetInfo (bi_Version (mn_build mn)) (cfg_Backend cfg) (bi_GoVersion (mn_build mn)) metrics_New, w_log = []\<rparr>"
  obtain be w1 where be: "buildBackend (mn_sdk mn) cfg True ?w = (Inr be, w1)"
    using assms load flags by (auto simp: gateway_run_def Let_def split: sum.splits prod.splits)
  then have "backend_ok be (w_heap w1)" by (rule backend_fresh)
  moreover have "w_heap (logStartupBanner bi cfg w1) = w_heap w1" for bi by (simp add: logStartupBanner_def slog_def)
  ultimately show ?thesis
    using assms load flags be
    by (auto simp: gateway_run_def NewHandlers_def NewMiddleware_def Let_def split: sum.splits if_splits)
qed

lemma ttl_positive:
  assumes "h_roleTokenTTL h = roleTTLs cfg" and "0 < h_defaultTokenTTL h"
  shows "0 < ttlForRole h role"
  using assms by (auto simp: ttlForRole_def roleTTLs_def split: option.splits if_splits)

lemma started_handlers_ok:
  assumes "gateway_run mn hp = Running gt w"
  shows "handlers_ok (gt_handlers gt) (w_heap w)"
  using gateway_run_Running [OF assms] by (auto simp: handlers_ok_def intro: inv_intros)

text \<open>
  C29. A gateway that starts is sound. The configuration it runs with satisfies all checks; its
  token store is empty and its backend has a fresh cache, so the invariants of both hold; the
  roles of the access control are exactly the roles of the configuration; every role has a positive
  token lifetime; the two servers listen on different addresses, the API server with positive
  timeouts and, when TLS is on, with a minimum version of 1.2 or 1.3.
\<close>

theorem started_gateway_is_sound:
  assumes "gateway_run mn hp = Running gt w" and "enumerates (mn_role_order mn) (at_Roles (cfg_Auth (gt_cfg gt)))"
  shows "config_sound (gt_cfg gt) \<and> handlers_ok (gt_handlers gt) (w_heap w) \<and>
    byToken (h_tokens (gt_handlers gt)) = Map.empty \<and>
    dom (roles (h_rbac (gt_handlers gt))) = dom (at_Roles (cfg_Auth (gt_cfg gt))) \<and>
    (\<forall>name r. at_Roles (cfg_Auth (gt_cfg gt)) name = Some r \<longrightarrow>
       roles (h_rbac (gt_handlers gt)) name = Some \<lparr>AllowedNamespaces = ro_AllowedNamespaces r,
         AllowedServiceAccounts = ro_AllowedServiceAccounts r, AllowedPaths = ro_AllowedPaths r\<rparr>) \<and>
    (\<forall>role. 0 < ttlForRole (gt_handlers gt) role) \<and> 0 < gt_cleanup_interval gt \<and>
    hs_Addr (srv_api (gt_server gt)) \<noteq> hs_Addr (srv_metricsSrv (gt_server gt)) \<and>
    0 < hs_ReadTimeout (srv_api (gt_server gt)) \<and> 0 < hs_WriteTimeout (srv_api (gt_server gt)) \<and>
    (tls_Enabled (sv_TLS (cfg_Server (gt_cfg gt))) \<longrightarrow>
       (\<exists>tc. hs_TLSConfig (srv_api (gt_server gt)) = Some tc \<and> tc_MinVersion tc \<in> {0x0303, 0x0304}))"
proof -
  let ?cfg = "gt_cfg gt" and ?h = "gt_handlers gt"
  note run = gateway_run_Running [OF assms(1)]
  then have load: "Load (mn_ReadFile mn) (mn_Unmarshal mn) (mn_LookupEnv mn) (mn_stat mn) (mn_role_order mn) (mn_configPath mn) = Inr ?cfg"
    by auto
  note sound = Load_sound [OF load assms(2)]
  have srv: "gt_server gt = server_New (mn_CipherSuites mn) ?cfg" using run by auto
  have addr: "hs_Addr (srv_api (gt_server gt)) \<noteq> hs_Addr (srv_metricsSrv (gt_server gt))"
    using sound by (simp add: srv server_New_def JoinHostPort_inj Itoa_inj config_sound_def Let_def)
  have times: "0 < hs_ReadTimeout (srv_api (gt_server gt))" "0 < hs_WriteTimeout (srv_api (gt_server gt))"
    using sound by (simp_all add: srv server_New_def config_sound_def Let_def)
  have tls: "\<exists>tc. hs_TLSConfig (srv_api (gt_server gt)) = Some tc \<and> tc_MinVersion tc \<in> {0x0303, 0x0304}"
    if "tls_Enabled (sv_TLS (cfg_Server ?cfg))"
    using that TLSMinVersion_secure [of ?cfg] by (auto simp: srv server_New_def buildTLSConfig_def Let_def)
  have interval: "0 < gt_cleanup_interval gt" using run by (auto simp: cleanup_interval_def)
  have ttl: "0 < ttlForRole ?h role" for role
    using run sound by (intro ttl_positive [of _ ?cfg]) (auto simp: config_sound_def)
  have roles: "roles (h_rbac ?h) = buildRoles ?cfg" using run by (auto simp: NewRBAC_def)
  then have dom: "dom (roles (h_rbac ?h)) = dom (at_Roles (cfg_Auth ?cfg))" by (auto simp: buildRoles_def)
  have empty: "byToken (h_tokens ?h) = Map.empty" using run by (auto simp: NewTokenStore_def)
  show ?thesis
    by (intro conjI allI impI sound started_handlers_ok [OF assms(1)] empty dom ttl interval addr times)
      (use roles tls in \<open>auto simp: buildRoles_def\<close>)
qed


subsection \<open>A sound configuration starts\<close>

text \<open>The SDK side cooperates: clients can be made and, for Vault, a login succeeds.\<close>

definition sdk_works :: "('c, 'k, 'z, 'g) sdk \<Rightarrow> bool" where
  "sdk_works sdk \<longleftrightarrow>
     (\<forall>opts. \<exists>c. sdk_LoadDefaultConfig sdk opts = Inr c) \<and> (\<exists>z. sdk_azure_cred sdk = Inr z) \<and>
     (\<forall>url z. \<exists>k. sdk_azure_client sdk url z = Inr k) \<and> (\<exists>g. sdk_gcp sdk = Inr g) \<and>
     env_DefaultConfig_Error (sdk_vault sdk) = None \<and> (\<forall>skip ca. env_ConfigureTLS (sdk_vault sdk) skip ca = None) \<and>
     (\<forall>addr. env_NewClient (sdk_vault sdk) addr = None) \<and> (\<exists>jwt. env_ReadFile (sdk_vault sdk) saTokenPath = Inr jwt) \<and>
     (\<forall>p role jwt. \<exists>auth. env_Write (sdk_vault sdk) p role jwt = Inr (Some (Some auth)) \<and> va_ClientToken auth \<noteq> '''')"

lemma vault_starts:
  assumes "sdk_works sdk"
  shows "\<exists>b w'. vault_New (sdk_vault sdk) c m w = (Inr b, w')"
proof -
  have login: "\<exists>auth b'. vault_login (sdk_vault sdk) c b = Inr (auth, b')" for c b
  proof -
    obtain jwt where "env_ReadFile (sdk_vault sdk) saTokenPath = Inr jwt" using assms by (auto simp: sdk_works_def)
    moreover obtain auth where "env_Write (sdk_vault sdk) (''auth/'' @ vc_AuthPath c @ ''/login'') (vc_Role c) jwt = Inr (Some (Some auth))"
      "va_ClientToken auth \<noteq> ''''" using assms unfolding sdk_works_def by blast
    ultimately show ?thesis by (simp add: vault_login_def)
  qed
  let ?c = "if vc_AuthPath c = '''' then c\<lparr>vc_AuthPath := defaultAuthPath\<rparr> else c"
  let ?b = "\<lparr>vb_cache = cache_New (vc_Cache ?c), vb_metric = m, vb_token = '''', vb_renewing = False\<rparr>"
  obtain auth b' where "vault_login (sdk_vault sdk) ?c ?b = Inr (auth, b')" using login by blast
  moreover have "env_DefaultConfig_Error (sdk_vault sdk) = None" "\<And>skip ca. env_ConfigureTLS (sdk_vault sdk) skip ca = None"
    "\<And>addr. env_NewClient (sdk_vault sdk) addr = None"
    using assms by (auto simp: sdk_works_def)
  ultimately show ?thesis
    unfolding vault_New_def Let_def by (auto split: prod.splits option.splits)
qed

text \<open>
  A sound configuration is never refused for the gateway's own reasons: when the SDKs can make
  their clients, the backend named in the configuration is built, with that name; in particular the
  case of an unsupported backend and the constructors' own checks are out of reach.
\<close>

lemma sound_config_builds:
  assumes "config_sound cfg" and "sdk_works sdk"
  shows "\<exists>b w'. buildBackend sdk cfg m w = (Inr b, w') \<and> backend_Name b = cfg_Backend cfg"
proof -
  note names = BackendAWS_def BackendAzure_def BackendVault_def BackendGCP_def
  consider "cfg_Backend cfg = BackendAWS" | "cfg_Backend cfg = BackendAzure" | "cfg_Backend cfg = BackendVault" | "cfg_Backend cfg = BackendGCP"
    using assms(1) by (auto simp: config_sound_def)
  then show ?thesis
  proof cases
    case 1
    obtain c where "sdk_LoadDefaultConfig sdk opts = Inr (c opts)" for opts using assms(2) unfolding sdk_works_def by metis
    with 1 show ?thesis by (simp add: buildBackend_def aws_New_def aws_Name_def aws_backendName_def names Let_def)
  next
    case 2
    obtain z where z: "sdk_azure_cred sdk = Inr z" using assms(2) by (auto simp: sdk_works_def)
    obtain k where "sdk_azure_client sdk (fz_VaultURL (cfg_Azure cfg)) z = Inr k" using assms(2) unfolding sdk_works_def by blast
    with 2 z assms(1) show ?thesis
      by (auto simp: buildBackend_def azure_New_def azure_Name_def azure_backendName_def config_sound_def strategyFlat_def
          strategyJSON_def names Let_def)
  next
    case 3
    let ?c = "let v = cfg_Vault cfg in
      \<lparr>vc_Address = fv_Address v, vc_AuthPath = fv_AuthPath v, vc_Role = fv_Role v, vc_TLSSkipVerify = fv_TLSSkipVerify v,
       vc_CACert = fv_CACert v, vc_Token = fv_Token v, vc_Cache = ToCache (fv_Cache v)\<rparr>"
    obtain b w' where "vault_New (sdk_vault sdk) ?c m w = (Inr b, w')" using vault_starts [OF assms(2)] by blast
    with 3 show ?thesis
      by (simp add: buildBackend_def vault_Name_def vault_backendName_def names Let_def)
  next
    case 4
    with assms show ?thesis
      by (auto simp: buildBackend_def gcp_New_def gcp_Name_def gcp_backendName_def config_sound_def sdk_works_def names Let_def)
  qed
qed

subsection \<open>An instance\<close>

definition demo_sdk :: "(unit, unit, unit, unit) sdk" where
  "demo_sdk =
     \<lparr>sdk_LoadDefaultConfig = (\<lambda>_. Inr ()), sdk_NewFromConfig = (\<lambda>_ _. ()), sdk_azure_cred = Inr (),
      sdk_azure_client = (\<lambda>_ _. Inr ()),
      sdk_vault = \<lparr>env_DefaultConfig_Error = None, env_ConfigureTLS = (\<lambda>_ _. None), env_NewClient = (\<lambda>_. None),
        env_ReadFile = (\<lambda>_. Inr ''jwt''),
        env_Write = (\<lambda>_ _ _. Inr (Some (Some \<lparr>va_ClientToken = ''t'', va_Renewable = False\<rparr>))),
        env_NewLifetimeWatcher = (\<lambda>_. None)\<rparr>,
      sdk_gcp = Inr ()\<rparr>"

definition demo_main :: "(unit, unit, unit, unit, nat, unit) main_env" where
  "demo_main =
     \<lparr>mn_configPath = ''config.yaml'', mn_kubeconfig = '''', mn_showVersion = False,
      mn_build = \<lparr>bi_Version = ''dev'', bi_GitCommit = ''unknown'', bi_BuildDate = ''unknown'', bi_GoVersion = ''go1.26''\<rparr>,
      mn_ReadFile = (\<lambda>_. Inr ''yaml''), mn_Unmarshal = (\<lambda>_. Inr demo_file), mn_LookupEnv = Map.empty, mn_stat = (\<lambda>_. None),
      mn_role_order = [''app''], mn_sdk = demo_sdk, mn_inCluster = Inr (), mn_deferred = (\<lambda>_. Inr ()),
      mn_newForConfig = (\<lambda>_. Inr (\<lambda>_ _. Inl ''offline'')), mn_rnd = Some [1], mn_bucket = \<lparr>bk_NewLimiter = (\<lambda>_ b. nat b), bk_Allow = (\<lambda>_ n. (0 < n, n - 1))\<rparr>,
      mn_CipherSuites = []\<rparr>"

abbreviation demo_cfg :: Config where
  "demo_cfg \<equiv> applyEnvOverrides Map.empty (applyDefaults demo_file)"

lemma demo_cfg_roles: "enumerates [''app''] (at_Roles (cfg_Auth demo_cfg))"
  by (simp add: enumerates_def applyEnvOverrides_def applyDefaults_def demo_file_def)

lemma demo_loads: "Load (\<lambda>_. Inr ''yaml'') (\<lambda>_. Inr demo_file) Map.empty (\<lambda>_. None) [''app''] ''config.yaml'' = Inr demo_cfg"
proof -
  have "check_tls (\<lambda>_. None) (sv_TLS (cfg_Server demo_cfg)) = None"
    by (simp add: check_tls_def) (simp add: applyEnvOverrides_def applyDefaults_def demo_file_def)
  with config_Validate_iff [OF demo_cfg_roles, of "\<lambda>_. None"] demo_file_sound show ?thesis
    by (simp add: Load_def parse_def Let_def)
qed

lemma demo_sdk_works: "sdk_works demo_sdk"
  by (simp add: sdk_works_def demo_sdk_def)

lemma sound_config_builds_example:
  "\<exists>b w'. buildBackend demo_sdk demo_cfg True demo_world = (Inr b, w') \<and> backend_Name b = cfg_Backend demo_cfg"
  by (rule sound_config_builds [OF demo_file_sound demo_sdk_works])

lemma demo_starts:
  "\<exists>gt w. gateway_run demo_main (w_heap demo_world) = Running gt w \<and> gt_cfg gt = demo_cfg \<and>
     mw_cors (gt_middleware gt) = cfg_CORS demo_cfg \<and>
     mw_maxBodyBytes (gt_middleware gt) = sv_MaxRequestBodySize (cfg_Server demo_cfg) \<and>
     h_backend (gt_handlers gt) = Some (AWS (aws_newWithClient
       \<lparr>ac_Region = '''', ac_SecretPrefix = fa_SecretPrefix (cfg_AWS demo_cfg), ac_EndpointURL = '''', ac_MaxRetries = 0,
        ac_Cache = ToCache (fa_Cache (cfg_AWS demo_cfg))\<rparr> True))"
proof -
  have "cfg_Backend demo_cfg = BackendAWS" "mt_Path (cfg_Metrics demo_cfg) = ''/metrics''"
    by (simp_all add: applyEnvOverrides_def applyDefaults_def demo_file_def BackendAWS_def override_def or_default_def)
  moreover from this(2) have "\<not> side_conflict demo_cfg True"
    by (simp add: side_conflict_def pattern_segments_def pathUnescape_def)
  ultimately show ?thesis
    by (simp add: gateway_run_def demo_main_def demo_loads buildBackend_def aws_New_def demo_sdk_def NewK8sTokenValidator_def
        loadKubeConfig_def NewMiddleware_def NewHandlers_def aws_newWithClient_def Let_def)
qed

theorem started_gateway_is_sound_witness:
  "\<exists>gt w. gateway_run demo_main (w_heap demo_world) = Running gt w \<and> (\<forall>role. 0 < ttlForRole (gt_handlers gt) role)"
proof -
  obtain gt w where run: "gateway_run demo_main (w_heap demo_world) = Running gt w" and cfg: "gt_cfg gt = demo_cfg" using demo_starts by blast
  have "enumerates (mn_role_order demo_main) (at_Roles (cfg_Auth (gt_cfg gt)))"
    using demo_cfg_roles by (simp add: cfg demo_main_def)
  from started_gateway_is_sound [OF run this] run show ?thesis by blast
qed

end
