(* ===== verification/Server_Properties.thy ===== *)
theory Server_Properties
  imports Gateway_Main
begin

text \<open>
  What the server's background work and probes promise: rate limits of different addresses do not
  influence each other and survive the cleanup while they are in use; readiness follows the
  backend's health; and stopping closes the backend.
\<close>

subsection \<open>Rate limiters\<close>

definition idle :: "time \<Rightarrow> 'l ipLimiterSet \<Rightarrow> string \<Rightarrow> bool" where
  "idle cutoff s ip \<longleftrightarrow> (\<exists>l. ls_items s ip = Some l \<and> il_lastUse l < cutoff)"

lemma sweep_items:
  assumes "limiter_sweep cutoff ips (n, s) = (n', s')"
  shows "ls_limit s' = ls_limit s" and "ls_burst s' = ls_burst s"
    and "ls_items s' ip = (if ip \<in> set ips \<and> idle cutoff s ip then None else ls_items s ip)"
proof -
  have "ls_limit s' = ls_limit s \<and> ls_burst s' = ls_burst s \<and>
    ls_items s' ip = (if ip \<in> set ips \<and> idle cutoff s ip then None else ls_items s ip)"
    using assms
  proof (induction ips arbitrary: n s)
    case (Cons x ips)
    show ?case
    proof (cases "idle cutoff s x")
      case True
      let ?s = "s\<lparr>ls_items := (ls_items s)(x := None)\<rparr>"
      from True Cons.prems have "limiter_sweep cutoff ips (n + 1, ?s) = (n', s')" by (auto simp: idle_def)
      from Cons.IH [OF this] True show ?thesis by (auto simp: idle_def)
    next
      case False
      then have "limiter_sweep cutoff (x # ips) (n, s) = limiter_sweep cutoff ips (n, s)"
        by (cases "ls_items s x") (auto simp: idle_def)
      with Cons False show ?thesis by auto
    qed
  qed simp
  then show "ls_limit s' = ls_limit s" and "ls_burst s' = ls_burst s"
    and "ls_items s' ip = (if ip \<in> set ips \<and> idle cutoff s ip then None else ls_items s ip)" by auto
qed

text \<open>Requests and cleanups in the order they take the lock; a request is logged with its answer.\<close>

datatype limiter_op = Use string time time | Clean "string list" time

fun lim_step :: "'l bucket \<Rightarrow> limiter_op \<Rightarrow> 'l ipLimiterSet \<Rightarrow> (string \<times> bool) list \<times> 'l ipLimiterSet" where
  "lim_step bk (Use ip t1 t2) s = (case allow bk t1 t2 ip s of (ok, s) \<Rightarrow> ([(ip, ok)], s))"
| "lim_step bk (Clean order t) s = ([], snd (startLimiterCleanup [LimiterTick order t] s))"

fun lim_run :: "'l bucket \<Rightarrow> limiter_op list \<Rightarrow> 'l ipLimiterSet \<Rightarrow> (string \<times> bool) list" where
  "lim_run bk [] s = []"
| "lim_run bk (opn # ops) s = (case lim_step bk opn s of (out, s) \<Rightarrow> out @ lim_run bk ops s)"

fun uses :: "string \<Rightarrow> limiter_op \<Rightarrow> bool" where
  "uses ip (Use ip' t1 t2) \<longleftrightarrow> ip' = ip"
| "uses ip (Clean order t) \<longleftrightarrow> False"

text \<open>No cleanup meets the address more than ten minutes after its last use.\<close>

fun never_idle :: "string \<Rightarrow> limiter_op list \<Rightarrow> time option \<Rightarrow> bool" where
  "never_idle ip [] seen = True"
| "never_idle ip (Use ip' t1 t2 # ops) seen = never_idle ip ops (if ip' = ip then Some t1 else seen)"
| "never_idle ip (Clean order t # ops) seen =
     ((case seen of Some u \<Rightarrow> t - 10 * 60 * Second \<le> u | None \<Rightarrow> True) \<and> never_idle ip ops seen)"

definition same_limiter :: "string \<Rightarrow> 'l ipLimiterSet \<Rightarrow> 'l ipLimiterSet \<Rightarrow> bool" where
  "same_limiter ip s s' \<longleftrightarrow> ls_limit s' = ls_limit s \<and> ls_burst s' = ls_burst s \<and> ls_items s' ip = ls_items s ip"

lemma allow_other:
  assumes "allow bk t1 t2 ip s = (ok, s')" and "other \<noteq> ip"
  shows "same_limiter other s s'"
  using assms by (auto simp: allow_def same_limiter_def Let_def split: prod.splits)

lemma allow_same:
  assumes "same_limiter ip s r" and "allow bk t1 t2 ip s = (ok, s')"
  shows "\<exists>r'. allow bk t1 t2 ip r = (ok, r') \<and> same_limiter ip s' r' \<and> (\<exists>l. ls_items s' ip = Some l \<and> il_lastUse l = t1)"
proof -
  have eq: "ls_limit r = ls_limit s" "ls_burst r = ls_burst s" "ls_items r ip = ls_items s ip"
    using assms(1) by (auto simp: same_limiter_def)
  show ?thesis
    using assms(2) unfolding allow_def eq by (auto simp: same_limiter_def Let_def eq split: prod.splits)
qed

lemma clean_keeps:
  assumes "never_idle ip (Clean order t # ops) (map_option il_lastUse (ls_items s ip))"
    and "s' = snd (startLimiterCleanup [LimiterTick order t] s)"
  shows "same_limiter ip s s'"
proof -
  obtain n where sweep: "limiter_sweep (t - 10 * 60 * Second) order (0, s) = (n, s')"
    using assms(2) by (cases "limiter_sweep (t - 10 * 60 * Second) order (0, s)") (auto simp: limiters_cleanup_def)
  have "\<not> idle (t - 10 * 60 * Second) s ip" using assms(1) by (auto simp: idle_def)
  with sweep_items [OF sweep] show ?thesis by (simp add: same_limiter_def)
qed

lemma lim_run_view:
  assumes "same_limiter ip s r" and "never_idle ip ops (map_option il_lastUse (ls_items s ip))"
  shows "filter (\<lambda>(a, ok). a = ip) (lim_run bk ops s) = lim_run bk (filter (uses ip) ops) r"
  using assms
proof (induction ops arbitrary: s r)
  case (Cons opn ops)
  show ?case
  proof (cases opn)
    case (Use a t1 t2)
    obtain ok s' where al: "allow bk t1 t2 a s = (ok, s')" by (cases "allow bk t1 t2 a s")
    show ?thesis
    proof (cases "a = ip")
      case True
      with allow_same [OF Cons.prems(1)] al obtain r' l where r': "allow bk t1 t2 ip r = (ok, r')" "same_limiter ip s' r'"
        and l: "ls_items s' ip = Some l" "il_lastUse l = t1" by blast
      have "never_idle ip ops (map_option il_lastUse (ls_items s' ip))" using Cons.prems(2) Use True l by simp
      from Cons.IH [OF r'(2) this] Use True al r' show ?thesis by simp
    next
      case False
      have keep: "same_limiter ip s s'" using allow_other [OF al] False by auto
      then have "same_limiter ip s' r" "never_idle ip ops (map_option il_lastUse (ls_items s' ip))"
        using Cons.prems Use False by (auto simp: same_limiter_def)
      from Cons.IH [OF this] Use False al show ?thesis by simp
    qed
  next
    case (Clean order t)
    let ?s = "snd (startLimiterCleanup [LimiterTick order t] s)"
    have keep: "same_limiter ip s ?s" using clean_keeps [OF Cons.prems(2) [unfolded Clean] refl] .
    then have "same_limiter ip ?s r" "never_idle ip ops (map_option il_lastUse (ls_items ?s ip))"
      using Cons.prems Clean by (auto simp: same_limiter_def)
    from Cons.IH [OF this] Clean show ?thesis by simp
  qed
qed simp

text \<open>
  C33. Rate limits are per address. In any interleaving of requests from all addresses and cleanups,
  the answers an address gets are the answers it would get if its requests were the only thing that
  ever happened, as long as no cleanup finds it unused for more than ten minutes: no other client
  can use up its tokens, and the cleanup never resets the bucket of a client in use.
\<close>

theorem rate_limits_are_isolated:
  assumes "never_idle ip ops (map_option il_lastUse (ls_items s ip))"
  shows "filter (\<lambda>(a, ok). a = ip) (lim_run bk ops s) = lim_run bk (filter (uses ip) ops) s"
  by (rule lim_run_view [OF _ assms]) (simp add: same_limiter_def)

theorem rate_limits_are_isolated_witness:
  "let bk = \<lparr>bk_NewLimiter = (\<lambda>_ b. nat b), bk_Allow = (\<lambda>_ n. (0 < n, n - 1 :: nat))\<rparr> in
   filter (\<lambda>(a, ok). a = ''a'') (lim_run bk [Use ''a'' 0 0, Use ''b'' 1 1, Clean [''a'', ''b''] 2, Use ''a'' 3 3] (newIPLimiterSet 1 1)) =
     [(''a'', True), (''a'', False)]"
proof -
  let ?bk = "\<lparr>bk_NewLimiter = (\<lambda>_ b. nat b), bk_Allow = (\<lambda>_ n. (0 < n, n - 1 :: nat))\<rparr>"
  have "never_idle ''a'' [Use ''a'' 0 0, Use ''b'' 1 1, Clean [''a'', ''b''] 2, Use ''a'' 3 3]
      (map_option il_lastUse (ls_items (newIPLimiterSet 1 1) ''a''))"
    by (simp add: newIPLimiterSet_def)
  from rate_limits_are_isolated [OF this, of ?bk] show ?thesis
    by (simp add: allow_def newIPLimiterSet_def)
qed

subsection \<open>Probes\<close>

text \<open>
  The probes of the side server tell what they should. Whatever the metrics settings are, a
  request for the liveness path answers 200, and one for the readiness path answers 503 exactly
  when there is a backend whose health check fails and 200 otherwise.
\<close>

lemma probes_report_health:
  assumes "metricsMux cfg m promhttp rs be = Some h" and "rw_sent w = None"
    and "req_EscapedPath live = ''/healthz''" and "req_EscapedPath ready = ''/readyz''"
  shows "response_status (fst (h live w wd)) = Some 200 \<and>
    response_status (fst (h ready w wd)) =
      Some (if \<exists>b err. be = Some b \<and> fst (backend_HealthCheck rs b wd) = Some err then 503 else 200)"
proof -
  have clean: "cleanPath ''/healthz'' = ''/healthz''" "cleanPath ''/readyz'' = ''/readyz''" by code_simp+
  have match: "pattern_matches ''/healthz'' ''/healthz''" "pattern_matches ''/readyz'' ''/readyz''" "\<not> pattern_matches ''/healthz'' ''/readyz''"
    by code_simp+
  have route: "side_route met mp mth ''/healthz'' = SHealthz" "side_route met mp mth ''/readyz'' = SReadyz" for met mp mth
    by (simp_all add: side_route_def clean match Let_def)
  have h: "h r w wd = (case side_route (mt_Enabled (cfg_Metrics cfg) \<and> m) (mt_Path (cfg_Metrics cfg)) (req_Method r) (req_EscapedPath r) of
          SMetrics \<Rightarrow> (promhttp r w wd, wd)
        | SHealthz \<Rightarrow> (healthz w, wd)
        | SReadyz \<Rightarrow> readyz rs be w wd
        | SNotFound \<Rightarrow> (http_NotFound w, wd)
        | SRedirect p \<Rightarrow> (redirect_response r (url_String p (req_RawQuery r)) w, wd))" for r
    using assms(1) by (auto simp: metricsMux_def Let_def split: if_splits)
  have "response_status (healthz w) = Some 200" using assms(2) by (simp add: healthz_def response_status_def)
  moreover have "response_status (fst (readyz rs be w wd)) =
      Some (if \<exists>b err. be = Some b \<and> fst (backend_HealthCheck rs b wd) = Some err then 503 else 200)"
    using assms(2) by (auto simp: readyz_def response_status_def Let_def split: option.splits prod.splits)
  ultimately show ?thesis by (simp add: h assms(3,4) route)
qed

definition probe :: "string \<Rightarrow> Request" where
  "probe p = (demo_read ''db'' ''zz'')\<lparr>req_EscapedPath := p\<rparr>"

lemma probes_report_health_example:
  "\<exists>h. metricsMux demo_cfg False (\<lambda>_ w _. w) demo_remotes None = Some h \<and>
     response_status (fst (h (probe ''/healthz'') new_response demo_world)) = Some 200 \<and>
     response_status (fst (h (probe ''/readyz'') new_response demo_world)) = Some 200"
proof -
  obtain h where h: "metricsMux demo_cfg False (\<lambda>_ w _. w) demo_remotes None = Some h"
    by (simp add: metricsMux_def side_conflict_def Let_def)
  have "rw_sent new_response = None" "req_EscapedPath (probe ''/healthz'') = ''/healthz''" "req_EscapedPath (probe ''/readyz'') = ''/readyz''"
    by (simp_all add: new_response_def probe_def)
  from probes_report_health [OF h this, of demo_world] h show ?thesis by auto
qed

text \<open>
  The metrics path is not part of the checks on the configuration, although one that names a probe
  or has no slash makes the registration of the patterns panic.
\<close>

lemma metrics_path_is_unchecked:
  "config_sound (cfg\<lparr>cfg_Metrics := (cfg_Metrics cfg)\<lparr>mt_Path := p\<rparr>\<rparr>) = config_sound cfg"
  by (simp add: config_sound_def)

lemma metrics_path_may_panic:
  assumes "mt_Enabled (cfg_Metrics cfg)" and "mt_Path (cfg_Metrics cfg) \<in> {''/healthz'', ''/readyz'', ''metrics''}"
  shows "metricsMux cfg True promhttp rs be = None"
proof -
  have "pattern_segments ''/healthz'' = [''healthz'']" "pattern_segments ''/readyz'' = [''readyz'']" by code_simp+
  with assms show ?thesis by (auto simp: metricsMux_def side_conflict_def Let_def)
qed

subsection \<open>Cipher suites\<close>

lemma suite_table_known: "suite_table suites m n = Some c \<Longrightarrow> (n, c) \<in> set suites \<or> m n = Some c"
  by (induction suites m rule: suite_table.induct) (auto split: if_splits)

lemma suites_loop_filter: "suites_loop t names out = out @ concat (map (\<lambda>n. case t n of Some c \<Rightarrow> [c] | None \<Rightarrow> []) names)"
  by (induction names arbitrary: out) (auto split: option.split)

lemma configured_suites_are_known:
  "set (tc_CipherSuites (buildTLSConfig suites cfg)) \<subseteq> snd ` set suites"
proof
  fix c
  assume "c \<in> set (tc_CipherSuites (buildTLSConfig suites cfg))"
  then have "c \<in> set (mapCipherSuites suites (tls_CipherSuites (sv_TLS (cfg_Server cfg))))"
    by (auto simp: buildTLSConfig_def Let_def split: if_splits)
  then obtain n where "suite_table suites Map.empty n = Some c"
    by (auto simp: mapCipherSuites_def suites_loop_filter split: if_splits option.splits)
  from suite_table_known [OF this] show "c \<in> snd ` set suites" by (auto intro: rev_image_eqI)
qed

subsection \<open>Stopping\<close>

fun renewing :: "backend \<Rightarrow> bool" where
  "renewing (Vault b) = vb_renewing b"
| "renewing _ = False"

lemma backend_Close_stops: "backend_Close e b = (err, b') \<Longrightarrow> \<not> renewing b' \<and> backend_Name b' = backend_Name b"
  by (cases b) (auto simp: vault_Close_def vault_Name_def split: if_splits)


definition renewing_vault :: backend where
  "renewing_vault = Vault \<lparr>vb_cache = cache_New \<lparr>cc_Enabled = False, cc_TTL = 1, cc_NegativeTTL = 1, cc_MaxEntries = 1\<rparr>, vb_metric = False, vb_token = ''t'', vb_renewing = True\<rparr>"


end
