(* ===== verification/Middleware_Properties.thy ===== *)
theory Middleware_Properties
  imports Routes
begin

text \<open>
  What the middleware guarantees: well-formed request ids, a recorded status that is the one
  sent, contained panics, rate limiters that do not influence each other, and which requests
  a handler can see at all.
\<close>

subsection \<open>Request ids\<close>

lemma version_nibble: "drop_bit 4 (or (and (v :: byte) 0x0f) 0x40) = 4"
  by (simp add: drop_bit_or drop_bit_and)

lemma and_3_cases: "and (x :: byte) 3 \<in> {0, 1, 2, 3}"
proof -
  have "and x 3 = take_bit 2 x"
    by (simp add: take_bit_eq_mask mask_eq_exp_minus_1)
  then have "unat (and x 3) < 4"
    by (simp add: take_bit_eq_mod unat_mod)
  then have "unat (and x 3) = unat (0 :: byte) \<or> unat (and x 3) = unat (1 :: byte) \<or>
      unat (and x 3) = unat (2 :: byte) \<or> unat (and x 3) = unat (3 :: byte)"
    by simp linarith
  then show ?thesis unfolding word_unat_eq_iff [symmetric] by simp
qed

lemma variant_nibble: "hextable ! unat (drop_bit 4 (or (and (v :: byte) 0x3f) 0x80)) \<in> set ''89ab''"
proof -
  have "drop_bit 4 (or (and v 0x3f) 0x80) = or (and (drop_bit 4 v) 3) 8"
    by (simp add: drop_bit_or drop_bit_and)
  then show ?thesis
    using and_3_cases [of "drop_bit 4 v"] by (auto simp: hextable_def)
qed

definition uuid_bytes :: "byte list \<Rightarrow> byte list" where
  "uuid_bytes b = b[6 := or (and (b ! 6) 0x0f) 0x40, 8 := or (and (b ! 8) 0x3f) 0x80]"

lemma newUUIDv4_groups:
  assumes "length b = 16"
  shows "newUUIDv4 (Some b) =
    EncodeToString (take 4 (uuid_bytes b)) @ ''-'' @ EncodeToString (take 2 (drop 4 (uuid_bytes b))) @ ''-'' @
    EncodeToString (take 2 (drop 6 (uuid_bytes b))) @ ''-'' @ EncodeToString (take 2 (drop 8 (uuid_bytes b))) @ ''-'' @
    EncodeToString (take 6 (drop 10 (uuid_bytes b)))"
  using assms by (simp add: newUUIDv4_def uuid_bytes_def Let_def)

lemma hd_EncodeToString: "b \<noteq> [] \<Longrightarrow> hd (EncodeToString b) = hextable ! unat (drop_bit 4 (hd b))"
  by (cases b) (simp_all add: EncodeToString_def hex_byte_def)

text \<open>
  A generated request id is a version 4 UUID of RFC 4122: five groups of 8, 4, 4, 4 and 12
  lower-case hexadecimal digits, the third starting with 4 and the fourth with 8, 9, a or b.
  Apart from the six bits that say so it carries all the random bytes: two ids are equal only
  if the random bytes agree in all other bits.
\<close>

theorem newUUIDv4_is_version_4:
  assumes "length b = 16" and "length c = 16"
  shows "(\<exists>g1 g2 g3 g4 g5. newUUIDv4 (Some b) = g1 @ ''-'' @ g2 @ ''-'' @ g3 @ ''-'' @ g4 @ ''-'' @ g5 \<and>
      map length [g1, g2, g3, g4, g5] = [8, 4, 4, 4, 12] \<and> set (g1 @ g2 @ g3 @ g4 @ g5) \<subseteq> set ''0123456789abcdef'' \<and>
      hd g3 = CHR ''4'' \<and> hd g4 \<in> set ''89ab'') \<and>
    (newUUIDv4 (Some b) = newUUIDv4 (Some c)) = (uuid_bytes b = uuid_bytes c)"
proof
  let ?u = "uuid_bytes b"
  have len: "length ?u = 16" "length (uuid_bytes c) = 16" using assms by (simp_all add: uuid_bytes_def)
  have third: "take 2 (drop 6 ?u) \<noteq> []" "hd (take 2 (drop 6 ?u)) = or (and (b ! 6) 0x0f) 0x40"
    and fourth: "take 2 (drop 8 ?u) \<noteq> []" "hd (take 2 (drop 8 ?u)) = or (and (b ! 8) 0x3f) 0x80"
    using assms(1) len(1) by (auto simp: hd_take hd_drop_conv_nth uuid_bytes_def)
  have "hd (EncodeToString (take 2 (drop 6 ?u))) = CHR ''4''"
    using third by (simp add: hd_EncodeToString version_nibble) (simp add: hextable_def)
  moreover have "hd (EncodeToString (take 2 (drop 8 ?u))) \<in> set ''89ab''"
    using fourth variant_nibble [of "b ! 8"] by (simp add: hd_EncodeToString)
  ultimately show "\<exists>g1 g2 g3 g4 g5. newUUIDv4 (Some b) = g1 @ ''-'' @ g2 @ ''-'' @ g3 @ ''-'' @ g4 @ ''-'' @ g5 \<and>
      map length [g1, g2, g3, g4, g5] = [8, 4, 4, 4, 12] \<and> set (g1 @ g2 @ g3 @ g4 @ g5) \<subseteq> set ''0123456789abcdef'' \<and>
      hd g3 = CHR ''4'' \<and> hd g4 \<in> set ''89ab''"
    using EncodeToString_digits len(1) newUUIDv4_groups [OF assms(1)] unfolding hextable_def [symmetric]
    by (intro exI [of _ "EncodeToString (take 4 ?u)"] exI [of _ "EncodeToString (take 2 (drop 4 ?u))"]
        exI [of _ "EncodeToString (take 2 (drop 6 ?u))"] exI [of _ "EncodeToString (take 2 (drop 8 ?u))"]
        exI [of _ "EncodeToString (take 6 (drop 10 ?u))"])
      (simp add: length_EncodeToString)
  show "(newUUIDv4 (Some b) = newUUIDv4 (Some c)) = (uuid_bytes b = uuid_bytes c)"
  proof
    assume eq: "newUUIDv4 (Some b) = newUUIDv4 (Some c)"
    have parts: "take 4 ?u = take 4 (uuid_bytes c)" "take 2 (drop 4 ?u) = take 2 (drop 4 (uuid_bytes c))"
      "take 2 (drop 6 ?u) = take 2 (drop 6 (uuid_bytes c))" "take 2 (drop 8 ?u) = take 2 (drop 8 (uuid_bytes c))"
      "take 6 (drop 10 ?u) = take 6 (drop 10 (uuid_bytes c))"
      using eq len unfolding newUUIDv4_groups [OF assms(1)] newUUIDv4_groups [OF assms(2)]
      by (simp_all add: length_EncodeToString append_eq_append_conv EncodeToString_inj)
    have split: "x = take 4 x @ take 2 (drop 4 x) @ take 2 (drop 6 x) @ take 2 (drop 8 x) @ take 6 (drop 10 x)"
      if "length x = 16" for x :: "byte list"
    proof -
      have "x = take 4 x @ drop 4 x" "drop 4 x = take 2 (drop 4 x) @ drop 6 x" "drop 6 x = take 2 (drop 6 x) @ drop 8 x"
        "drop 8 x = take 2 (drop 8 x) @ drop 10 x" "take 6 (drop 10 x) = drop 10 x"
        using append_take_drop_id [of 2 "drop 4 x"] append_take_drop_id [of 2 "drop 6 x"] append_take_drop_id [of 2 "drop 8 x"] that
        by (simp_all add: add.commute)
      then show ?thesis by metis
    qed
    show "?u = uuid_bytes c"
      using split [OF len(1)] split [OF len(2)] parts by metis
  next
    assume "?u = uuid_bytes c"
    then show "newUUIDv4 (Some b) = newUUIDv4 (Some c)"
      unfolding newUUIDv4_groups [OF assms(1)] newUUIDv4_groups [OF assms(2)] by simp
  qed
qed

theorem newUUIDv4_is_version_4_witness:
  "\<exists>g1 g2 g3 g4 g5. newUUIDv4 (Some (replicate 16 255)) = g1 @ ''-'' @ g2 @ ''-'' @ g3 @ ''-'' @ g4 @ ''-'' @ g5 \<and>
     map length [g1, g2, g3, g4, g5] = [8, 4, 4, 4, 12] \<and> set (g1 @ g2 @ g3 @ g4 @ g5) \<subseteq> set ''0123456789abcdef'' \<and>
     hd g3 = CHR ''4'' \<and> hd g4 \<in> set ''89ab''"
  by (rule conjunct1 [OF newUUIDv4_is_version_4 [of _ "replicate 16 255"]]) simp_all


subsection \<open>The status recorder\<close>

datatype write_op = DoWriteHeader nat | DoWrite body

fun recorder_op :: "write_op \<Rightarrow> statusRecorder \<Rightarrow> statusRecorder" where
  "recorder_op (DoWriteHeader st) s = recorder_WriteHeader st s"
| "recorder_op (DoWrite b) s = recorder_Write b s"

definition recorder_tracks :: "statusRecorder \<Rightarrow> bool" where
  "recorder_tracks s \<longleftrightarrow> sr_wrote s = (rw_sent (sr_writer s) \<noteq> None) \<and> sr_status s = recorded_status (sr_writer s)"

lemma recorder_op_tracks: "recorder_tracks s \<Longrightarrow> recorder_tracks (recorder_op opn s)"
  by (cases opn; cases "rw_sent (sr_writer s)")
    (auto simp: recorder_tracks_def recorder_WriteHeader_def recorder_Write_def recorded_status_def Write_def Let_def)

text \<open>
  The status in the request log is the status the client got: however often and in whatever
  order a handler writes headers and bodies through the recorder, it holds the status of the
  response actually sent, or 200 when nothing was sent yet.
\<close>

theorem recorder_is_faithful:
  "let s = fold recorder_op ops \<lparr>sr_writer = new_response, sr_status = 200, sr_wrote = False\<rparr>
   in sr_status s = recorded_status (sr_writer s) \<and> sr_wrote s = (rw_sent (sr_writer s) \<noteq> None)"
proof -
  have "recorder_tracks s \<Longrightarrow> recorder_tracks (fold recorder_op ops s)" for s
    by (induction ops arbitrary: s) (simp_all add: recorder_op_tracks)
  moreover have "recorder_tracks \<lparr>sr_writer = new_response, sr_status = 200, sr_wrote = False\<rparr>"
    by (simp add: recorder_tracks_def recorded_status_def new_response_def)
  ultimately show ?thesis by (simp add: recorder_tracks_def Let_def)
qed

text \<open>
  Flushing is not recorded: a handler that flushes first and then sets an error status is logged
  with that status although the client got 200. No handler of the gateway flushes.
\<close>

lemma flush_is_unrecorded:
  "let s = recorder_WriteHeader 500 (recorder_Flush True \<lparr>sr_writer = new_response, sr_status = 200, sr_wrote = False\<rparr>)
   in sr_status s = 500 \<and> response_status (sr_writer s) = Some 200"
  by (simp add: recorder_WriteHeader_def recorder_Flush_def http_Flush_def WriteHeader_def new_response_def response_status_def Let_def)

subsection \<open>Panics\<close>

text \<open>
  C31. No panic leaves the middleware, whatever handler runs inside it. If a handler panics before
  the response has started, the client gets a 500 with the fixed error body and the panic value
  and stack appear in the log only.
\<close>

theorem panics_are_contained:
  assumes "Chain m me next_h r w g = (p, w', g')"
  shows "p = None \<and>
    (\<forall>rec w1 g1. mw_requestID me (mw_logging me (rateLimitMiddleware m me (maxBody m (corsMiddleware m (securityHeaders m next_h))))) r w g
         = (Some rec, w1, g1) \<longrightarrow> rw_sent w1 = None \<longrightarrow>
       response_status w' = Some 500 \<and> rw_body w' = rw_body w1 @ [BError \<lparr>er_Errors = [''internal server error'']\<rparr>] \<and>
       g' = upd_world (slog LevelError ''panic recovered''
              [(''error'', rec), (''path'', req_Path r), (''request_id'', RequestID r), (''stack'', me_stack me)]) g1)"
proof -
  let ?inner = "mw_requestID me (mw_logging me (rateLimitMiddleware m me (maxBody m (corsMiddleware m (securityHeaders m next_h)))))"
  have chain: "mw_recover me ?inner r w g = (p, w', g')" using assms by (simp add: Chain_def Let_def)
  obtain q w1 g1 where inner: "?inner r w g = (q, w1, g1)" by (cases "?inner r w g") auto
  with chain show ?thesis
    by (cases q) (auto simp: mw_recover_def Let_def encodeError_def writeJSONBody_def response_status_def)
qed

definition demo_bucket :: "nat bucket" where
  "demo_bucket = \<lparr>bk_NewLimiter = (\<lambda>_ burst. nat burst), bk_Allow = (\<lambda>_ n. (0 < n, n - 1))\<rparr>"

definition demo_mw :: "nat Middleware" where
  "demo_mw = fst (NewMiddleware demo_bucket True 1048576 True
     \<lparr>rl_Enabled = True, rl_RequestsPerSecond = 1, rl_Burst = 1\<rparr> \<lparr>co_Enabled = False, co_AllowedOrigins = []\<rparr>)"

definition demo_state :: "nat server_state" where
  "demo_state = \<lparr>g_handlers = demo_handlers, g_world = demo_world, g_limiters = newIPLimiterSet 1 1\<rparr>"

definition demo_me :: mw_env where
  "demo_me = \<lparr>me_uuid = Some (replicate 16 255), me_start = 0, me_end = 1, me_use = 0, me_allow = 0, me_stack = ''goroutine 1''\<rparr>"

theorem panics_are_contained_witness:
  "\<exists>w' g'. Chain demo_mw demo_me (\<lambda>r w g. (Some ''boom'', w, g)) (demo_read ''db'' ''ab'') new_response demo_state = (None, w', g')"
proof -
  obtain p w' g' where "Chain demo_mw demo_me (\<lambda>r w g. (Some ''boom'', w, g)) (demo_read ''db'' ''ab'') new_response demo_state = (p, w', g')"
    by (cases "Chain demo_mw demo_me (\<lambda>r w g. (Some ''boom'', w, g)) (demo_read ''db'' ''ab'') new_response demo_state") auto
  with panics_are_contained [OF this] show ?thesis by auto
qed

subsection \<open>What reaches a handler\<close>

definition request_id_for :: "mw_env \<Rightarrow> Request \<Rightarrow> string" where
  "request_id_for me r = (if req_Header r ''X-Request-Id'' = '''' then newUUIDv4 (me_uuid me) else req_Header r ''X-Request-Id'')"

definition rate_limited :: "'l Middleware \<Rightarrow> mw_env \<Rightarrow> Request \<Rightarrow> 'l server_state \<Rightarrow> bool" where
  "rate_limited m me r g \<longleftrightarrow> rl_Enabled (mw_rateLimit m) \<and>
     \<not> fst (allow (mw_bucket m) (me_use me) (me_allow me) (sourceIP r) (g_limiters g))"

definition preflight :: "'l Middleware \<Rightarrow> Request \<Rightarrow> bool" where
  "preflight m r \<longleftrightarrow> co_Enabled (mw_cors m) \<and> req_Method r = ''OPTIONS''"

text \<open>What a handler behind the middleware may count on.\<close>

definition prepared :: "'l Middleware \<Rightarrow> string \<Rightarrow> Request \<Rightarrow> ResponseWriter \<Rightarrow> bool" where
  "prepared m rid r w \<longleftrightarrow>
     RequestID r = rid \<and> rw_header w ''X-Request-Id'' = Some rid \<and>
     rw_header w ''Cache-Control'' = Some ''no-store'' \<and> rw_header w ''X-Content-Type-Options'' = Some ''nosniff'' \<and>
     rw_header w ''X-Frame-Options'' = Some ''DENY'' \<and>
     (mw_tlsEnabled m \<longrightarrow> rw_header w ''Strict-Transport-Security'' = Some ''max-age=31536000; includeSubDomains'') \<and>
     (0 < mw_maxBodyBytes m \<longrightarrow> (case req_Body r of Inr text \<Rightarrow> int (length text) \<le> mw_maxBodyBytes m | Inl _ \<Rightarrow> True))"

lemma sourceIP_ctx [simp]: "sourceIP (WithRequestID rid r) = sourceIP r"
  by (simp add: sourceIP_def WithRequestID_def Let_def split: option.split)

lemma sourceIP_is_clientIP: "sourceIP r = clientIP r"
  by (simp add: sourceIP_def clientIP_def)

lemma security_prepares:
  assumes "\<And>r' w' g'. prepared m rid r' w' \<Longrightarrow> h1 r' w' g' = h2 r' w' g'" and "RequestID r = rid"
    and "rw_header w ''X-Request-Id'' = Some rid"
    and "0 < mw_maxBodyBytes m \<longrightarrow> (case req_Body r of Inr text \<Rightarrow> int (length text) \<le> mw_maxBodyBytes m | Inl _ \<Rightarrow> True)"
  shows "securityHeaders m h1 r w g = securityHeaders m h2 r w g"
  using assms(2-) by (simp add: securityHeaders_def Let_def) (intro conjI impI assms(1); simp add: prepared_def)

lemma cors_prepares:
  assumes "\<And>r' w' g'. prepared m rid r' w' \<Longrightarrow> h1 r' w' g' = h2 r' w' g'" and "RequestID r = rid"
    and "rw_header w ''X-Request-Id'' = Some rid"
    and "0 < mw_maxBodyBytes m \<longrightarrow> (case req_Body r of Inr text \<Rightarrow> int (length text) \<le> mw_maxBodyBytes m | Inl _ \<Rightarrow> True)"
  shows "corsMiddleware m (securityHeaders m h1) r w g = corsMiddleware m (securityHeaders m h2) r w g"
proof -
  have "securityHeaders m h1 r w' g = securityHeaders m h2 r w' g" if "rw_header w' ''X-Request-Id'' = Some rid" for w'
    using security_prepares [OF assms(1,2) that assms(4)] .
  then show ?thesis using assms(3) by (simp add: corsMiddleware_def Let_def)
qed

lemma chain_prepares:
  assumes "\<And>r' w' g'. prepared m (request_id_for me r) r' w' \<Longrightarrow> h1 r' w' g' = h2 r' w' g'"
  shows "Chain m me h1 r w g = Chain m me h2 r w g"
proof -
  let ?rid = "request_id_for me r"
  let ?r = "WithRequestID ?rid r" and ?w = "header_Set ''X-Request-Id'' ?rid w"
  have rid: "RequestID ?r = ?rid" by (simp add: RequestID_def WithRequestID_def)
  have "maxBody m (corsMiddleware m (securityHeaders m h1)) ?r ?w g' = maxBody m (corsMiddleware m (securityHeaders m h2)) ?r ?w g'" for g'
  proof -
    let ?r' = "if 0 < mw_maxBodyBytes m then ?r\<lparr>req_Body := MaxBytesReader (mw_maxBodyBytes m) (req_Body ?r)\<rparr> else ?r"
    have "RequestID ?r' = ?rid" using rid by (simp add: RequestID_def)
    moreover have "0 < mw_maxBodyBytes m \<longrightarrow> (case req_Body ?r' of Inr text \<Rightarrow> int (length text) \<le> mw_maxBodyBytes m | Inl _ \<Rightarrow> True)"
      by (simp add: MaxBytesReader_def split: sum.split)
    ultimately show ?thesis
      using cors_prepares [OF assms] by (simp add: maxBody_def Let_def)
  qed
  then have "mw_logging me (rateLimitMiddleware m me (maxBody m (corsMiddleware m (securityHeaders m h1)))) ?r ?w g =
      mw_logging me (rateLimitMiddleware m me (maxBody m (corsMiddleware m (securityHeaders m h2)))) ?r ?w g"
    by (simp add: mw_logging_def rateLimitMiddleware_def Let_def split: prod.split)
  then show ?thesis
    by (simp add: Chain_def mw_recover_def mw_requestID_def request_id_for_def Let_def)
qed

lemma chain_unfold:
  "Chain m me h r w g =
     (let rid = request_id_for me r in
      case mw_logging me (rateLimitMiddleware m me (maxBody m (corsMiddleware m (securityHeaders m h))))
             (WithRequestID rid r) (header_Set ''X-Request-Id'' rid w) g of
        (None, w, g) \<Rightarrow> (None, w, g)
      | (Some rec, w, g) \<Rightarrow> mw_recover me (\<lambda>_ _ _. (Some rec, w, g)) r w g)"
  by (simp add: Chain_def mw_recover_def mw_requestID_def request_id_for_def Let_def split: prod.split option.split)

lemma chain_limited:
  assumes "rate_limited m me r g" and "rw_sent w = None"
  shows "\<exists>w' g'. response_status w' = Some 429 \<and> rw_body w' = rw_body w @ [BError \<lparr>er_Errors = [''rate limit exceeded'']\<rparr>] \<and>
    g_handlers g' = g_handlers g \<and> (\<forall>h. Chain m me h r w g = (None, w', g'))"
proof -
  obtain lims where "allow (mw_bucket m) (me_use me) (me_allow me) (sourceIP r) (g_limiters g) = (False, lims)"
    using assms(1) by (cases "allow (mw_bucket m) (me_use me) (me_allow me) (sourceIP r) (g_limiters g)") (auto simp: rate_limited_def)
  with assms show ?thesis
    by (simp add: chain_unfold mw_logging_def rateLimitMiddleware_def rate_limited_def encodeError_def
        writeJSONBody_def response_status_def upd_world_def Let_def)
qed

lemma preflight_answer:
  assumes "preflight m r" and "req_Method r' = req_Method r" and "rw_sent w = None"
  shows "\<exists>w'. response_status w' = Some 204 \<and> rw_body w' = rw_body w \<and> (\<forall>h g. corsMiddleware m h r' w g = (None, w', g))"
  using assms by (simp add: corsMiddleware_def preflight_def Let_def response_status_def)

lemma chain_preflight:
  assumes "\<not> rate_limited m me r g" and "preflight m r" and "rw_sent w = None"
  shows "\<exists>w' g'. response_status w' = Some 204 \<and> rw_body w' = rw_body w \<and> g_handlers g' = g_handlers g \<and>
    (\<forall>h. Chain m me h r w g = (None, w', g'))"
proof -
  let ?rid = "request_id_for me r"
  let ?r = "WithRequestID ?rid r" and ?w = "header_Set ''X-Request-Id'' ?rid w"
  let ?r' = "if 0 < mw_maxBodyBytes m then ?r\<lparr>req_Body := MaxBytesReader (mw_maxBodyBytes m) (req_Body ?r)\<rparr> else ?r"
  have "req_Method ?r' = req_Method r" by (simp add: WithRequestID_def)
  from preflight_answer [OF assms(2) this, of ?w] assms(3)
  obtain w' where w': "response_status w' = Some 204" "\<And>h g. corsMiddleware m h ?r' ?w g = (None, w', g)" "rw_body w' = rw_body w"
    by auto
  obtain ok lims where al: "allow (mw_bucket m) (me_use me) (me_allow me) (sourceIP r) (g_limiters g) = (ok, lims)"
    by (cases "allow (mw_bucket m) (me_use me) (me_allow me) (sourceIP r) (g_limiters g)")
  have body: "maxBody m (corsMiddleware m h) ?r ?w g' = (None, w', g')" for h g'
    by (simp only: maxBody_def Let_def w'(2))
  show ?thesis
    using assms(1) w'(1,3) al
    by (cases "rl_Enabled (mw_rateLimit m)")
      (auto simp: chain_unfold mw_logging_def rateLimitMiddleware_def rate_limited_def body upd_world_def Let_def)
qed

text \<open>
  C30. The middleware decides which requests a handler sees and in what form. A request over the
  rate limit is answered 429 and a CORS preflight 204 without the handler having any say, and no
  token and no cache entry changes. Any other request reaches the handler only with a request id
  that is also in the response header, a body within the configured size, and response headers
  that forbid caching, sniffing and framing, and pin TLS when it is on: two handlers that agree
  on such requests are indistinguishable behind the middleware.
\<close>

theorem middleware_gatekeeping:
  assumes "\<forall>r' w' g'. prepared m (request_id_for me r) r' w' \<and> \<not> rate_limited m me r g \<and> \<not> preflight m r \<longrightarrow>
      h1 r' w' g' = h2 r' w' g'"
    and "rw_sent w = None" and "Chain m me h1 r w g = (p, w1, g1)"
  shows "Chain m me h2 r w g = (p, w1, g1) \<and>
    (rate_limited m me r g \<longrightarrow> response_status w1 = Some 429 \<and> g_handlers g1 = g_handlers g) \<and>
    (\<not> rate_limited m me r g \<and> preflight m r \<longrightarrow> response_status w1 = Some 204 \<and> g_handlers g1 = g_handlers g)"
proof (cases "rate_limited m me r g")
  case True
  with chain_limited [OF True assms(2)] assms(3) show ?thesis by auto
next
  case False
  show ?thesis
  proof (cases "preflight m r")
    case True
    with chain_preflight [OF False True assms(2)] False assms(3) show ?thesis by auto
  next
    case pre: False
    with False assms(1) have "prepared m (request_id_for me r) r' w' \<Longrightarrow> h1 r' w' g' = h2 r' w' g'" for r' w' g' by blast
    from chain_prepares [OF this] False pre assms(3) show ?thesis by simp
  qed
qed

theorem middleware_gatekeeping_witness:
  "let g = demo_state\<lparr>g_limiters := snd (allow demo_bucket 0 0 ''10.0.0.1'' (newIPLimiterSet 1 1))\<rparr>
   in response_status (fst (snd (Chain demo_mw demo_me (\<lambda>r w g. (None, w, g)) (demo_read ''db'' ''ab'') new_response g))) = Some 429"
proof -
  let ?g = "demo_state\<lparr>g_limiters := snd (allow demo_bucket 0 0 ''10.0.0.1'' (newIPLimiterSet 1 1))\<rparr>"
  let ?h = "\<lambda>r w g. (None, w, g)"
  have "SplitHostPort ''10.0.0.1:4711'' = Some (''10.0.0.1'', ''4711'')" by code_simp
  then have ip: "sourceIP (demo_read ''db'' ''ab'') = ''10.0.0.1''" by (simp add: sourceIP_def demo_read_def)
  have limited: "rate_limited demo_mw demo_me (demo_read ''db'' ''ab'') ?g"
    by (simp add: rate_limited_def ip demo_mw_def NewMiddleware_def demo_state_def newIPLimiterSet_def)
      (simp add: allow_def demo_bucket_def)
  obtain p w1 g1 where run: "Chain demo_mw demo_me ?h (demo_read ''db'' ''ab'') new_response ?g = (p, w1, g1)"
    by (cases "Chain demo_mw demo_me ?h (demo_read ''db'' ''ab'') new_response ?g") auto
  have fresh: "rw_sent new_response = None" by (simp add: new_response_def)
  have "response_status w1 = Some 429"
    using middleware_gatekeeping [OF _ fresh run, of ?h] limited by simp
  with run show ?thesis by (simp add: Let_def)
qed

end
