(* ===== verification/Route_Properties.thy ===== *)
theory Route_Properties
  imports Middleware_Properties
begin

text \<open>
  What the router promises, alone and behind the middleware: every valid secret path is reachable
  under its own name and only by reading methods, and any response of the whole server that
  carries secret data was authorized, is complete with the protective headers and names the
  request.
\<close>

subsection \<open>Routing\<close>

lemma clean_segments_walk: "clean_segments segs acc = walk acc segs"
  by (induction segs acc rule: clean_segments.induct) auto

lemma cleanPath_plain:
  assumes "list_all plain_segment (segments p)"
  shows "cleanPath (CHR ''/'' # p) = CHR ''/'' # p"
proof -
  have "clean_segments (Split (CHR ''/'' # p) CHR ''/'') [] = segments p"
    using walk_plain [OF assms, of "[]"] by (simp add: segments_def clean_segments_walk)
  then have "CHR ''/'' # Join (clean_segments (Split (CHR ''/'' # p) CHR ''/'') []) ''/'' = CHR ''/'' # p"
    by (simp add: segments_def Join_Split)
  moreover have "last (CHR ''/'' # p) = CHR ''/'' \<longleftrightarrow> p = []"
    using segments_no_edge_slash [OF assms] by auto
  ultimately show ?thesis by (simp only: cleanPath_def Let_def list.sel list.distinct if_True if_False refl) simp
qed

lemma unescape_plain: "CHR ''%'' \<notin> set s \<Longrightarrow> unescape s = Some s"
  by (induction s) auto

lemma pathUnescape_plain [simp]: "CHR ''%'' \<notin> set s \<Longrightarrow> pathUnescape s = s"
  by (simp add: pathUnescape_def unescape_plain)

lemma secret_url_segments:
  "Split (''/v1/secret/data/'' @ p) CHR ''/'' = ['''', ''v1'', ''secret'', ''data''] @ segments p"
  by (simp add: segments_def Split_append_sep)

lemma no_percent: "Validate p = Inr () \<Longrightarrow> CHR ''%'' \<notin> set p"
  using Validate_chars [of p "CHR ''%''"] by (auto simp: allowed_def code_def)

lemma secret_url_clean:
  assumes "Validate p = Inr ()"
  shows "cleanPath (''/v1/secret/data/'' @ p) = ''/v1/secret/data/'' @ p"
proof -
  have "list_all plain_segment (segments (''v1/secret/data/'' @ p))"
    using assms by (simp add: Validate_ok_iff segments_def plain_segment_def)
  from cleanPath_plain [OF this] show ?thesis by simp
qed

lemma route_valid_path:
  assumes "Validate p = Inr ()"
  shows "route mth (''/v1/secret/data/'' @ p) = (if getLike mth then ToSecret p else ToNotFound)"
proof -
  have ne: "segments p \<noteq> []" by (simp add: segments_def)
  have join: "Join (segments p) ''/'' = p" by (simp add: segments_def Join_Split)
  show ?thesis
    unfolding route_def secret_url_clean [OF assms] secret_url_segments Let_def getLike_def
    using ne no_percent [OF assms] by (auto simp: join)
qed

text \<open>
  C32. Every valid secret path is served under its own name: a GET or HEAD for the secret prefix
  followed by a path the allowlist accepts reaches the read handler with exactly that path, with
  no redirection and no rewriting in between, and every other method gets the 404 of the
  catch-all, so that nothing but reading can be asked of a secret.
\<close>

theorem valid_paths_are_routed:
  assumes "Validate p = Inr ()"
  shows "route mth (''/v1/secret/data/'' @ p) = (if mth = ''GET'' \<or> mth = ''HEAD'' then ToSecret p else ToNotFound)"
  using route_valid_path [OF assms, of mth] by (simp add: getLike_def)

theorem valid_paths_are_routed_witness:
  "route ''GET'' ''/v1/secret/data/opus/db'' = ToSecret ''opus/db'' \<and> route ''DELETE'' ''/v1/secret/data/opus/db'' = ToNotFound"
proof -
  have "Validate ''opus/db'' = Inr ()" by code_simp
  note routed = valid_paths_are_routed [OF this]
  show ?thesis using routed [of "''GET''"] routed [of "''DELETE''"] by simp
qed

subsection \<open>The whole server\<close>

lemma WithRequestID_fields [simp]:
  "RequestID (WithRequestID rid r) = rid" "req_Method (WithRequestID rid r) = req_Method r"
  "req_Path (WithRequestID rid r) = req_Path r"
  by (simp_all add: RequestID_def WithRequestID_def)

lemma security_reaches:
  assumes "\<not> preflight m r" and "req_Method r0 = req_Method r" and "RequestID r0 = rid"
    and "rw_header w ''X-Request-Id'' = Some rid"
    and "0 < mw_maxBodyBytes m \<longrightarrow> (case req_Body r0 of Inr text \<Rightarrow> int (length text) \<le> mw_maxBodyBytes m | Inl _ \<Rightarrow> True)"
  shows "\<exists>w0. prepared m rid r0 w0 \<and> rw_sent w0 = rw_sent w \<and> rw_body w0 = rw_body w \<and>
    (\<forall>h g. corsMiddleware m (securityHeaders m h) r0 w g = h r0 w0 g)"
proof -
  let ?origin = "req_Header r0 ''Origin''"
  define w1 where "w1 =
    (if co_Enabled (mw_cors m) \<and> ?origin \<noteq> '''' \<and> originAllowed ?origin (co_AllowedOrigins (mw_cors m))
     then header_Set ''Access-Control-Allow-Headers'' ''X-Vault-Token, Content-Type''
            (header_Set ''Access-Control-Allow-Methods'' ''GET, POST''
               (header_Set ''Vary'' ''Origin'' (header_Set ''Access-Control-Allow-Origin'' ?origin w)))
     else w)"
  define w2 where "w2 = header_Set ''Content-Security-Policy'' (''default-src '' @ [CHR 0x27] @ ''none'' @ [CHR 0x27])
    (header_Set ''Cache-Control'' ''no-store'' (header_Set ''X-Frame-Options'' ''DENY''
       (header_Set ''X-Content-Type-Options'' ''nosniff'' w1)))"
  define w0 where "w0 = (if mw_tlsEnabled m
    then header_Set ''Strict-Transport-Security'' ''max-age=31536000; includeSubDomains'' w2 else w2)"
  have w1: "rw_header w1 ''X-Request-Id'' = Some rid" "rw_sent w1 = rw_sent w" "rw_body w1 = rw_body w"
    using assms(4) by (simp_all add: w1_def)
  have "corsMiddleware m h r0 w g = h r0 w1 g" for h g
    using assms(1,2) by (simp add: corsMiddleware_def preflight_def w1_def Let_def)
  moreover have "securityHeaders m h r0 w1 g = h r0 w0 g" for h g
    by (simp add: securityHeaders_def w0_def w2_def Let_def)
  moreover have "prepared m rid r0 w0" "rw_sent w0 = rw_sent w1" "rw_body w0 = rw_body w1"
    using assms(3,5) w1(1) by (auto simp: prepared_def w0_def w2_def)
  ultimately show ?thesis using w1 by (intro exI [of _ w0]) simp
qed

lemma chain_reaches:
  assumes "\<not> rate_limited m me r g" and "\<not> preflight m r"
  shows "\<exists>r0 w0 g0 tell fail_w fail_g. prepared m (request_id_for me r) r0 w0 \<and>
    rw_sent w0 = rw_sent w \<and> rw_body w0 = rw_body w \<and>
    req_Method r0 = req_Method r \<and> req_EscapedPath r0 = req_EscapedPath r \<and> req_Header r0 = req_Header r \<and>
    req_Body r0 = (if 0 < mw_maxBodyBytes m then MaxBytesReader (mw_maxBodyBytes m) (req_Body r) else req_Body r) \<and>
    g_handlers g0 = g_handlers g \<and> g_world g0 = g_world g \<and>
    (\<forall>w1. rw_body (fail_w w1) = rw_body w1 @ [BError \<lparr>er_Errors = [''internal server error'']\<rparr>]) \<and>
    (\<forall>w1 wd. w_heap (tell w1 wd) = w_heap wd) \<and>
    (\<forall>h. Chain m me h r w g =
      (case h r0 w0 g0 of
         (None, w1, g1) \<Rightarrow> (None, w1, upd_world (tell w1) g1)
       | (Some x, w1, g1) \<Rightarrow> (None, fail_w w1, upd_world (fail_g x) g1)))"
proof -
  let ?rid = "request_id_for me r"
  let ?r = "WithRequestID ?rid r" and ?w = "header_Set ''X-Request-Id'' ?rid w"
  define r0 where "r0 = (if 0 < mw_maxBodyBytes m then ?r\<lparr>req_Body := MaxBytesReader (mw_maxBodyBytes m) (req_Body ?r)\<rparr> else ?r)"
  have body: "req_Body r0 = (if 0 < mw_maxBodyBytes m then MaxBytesReader (mw_maxBodyBytes m) (req_Body r) else req_Body r)"
    by (simp add: r0_def WithRequestID_def)
  have r0: "req_Method r0 = req_Method r" "req_EscapedPath r0 = req_EscapedPath r" "req_Header r0 = req_Header r" "RequestID r0 = ?rid"
    "0 < mw_maxBodyBytes m \<longrightarrow> (case req_Body r0 of Inr text \<Rightarrow> int (length text) \<le> mw_maxBodyBytes m | Inl _ \<Rightarrow> True)"
    by (simp_all add: r0_def WithRequestID_def RequestID_def MaxBytesReader_def split: sum.split)
  obtain lims where al: "rl_Enabled (mw_rateLimit m) \<Longrightarrow>
      allow (mw_bucket m) (me_use me) (me_allow me) (sourceIP r) (g_limiters g) = (True, lims)"
    using assms(1) by (cases "allow (mw_bucket m) (me_use me) (me_allow me) (sourceIP r) (g_limiters g)") (auto simp: rate_limited_def)
  let ?g0 = "if rl_Enabled (mw_rateLimit m) then g\<lparr>g_limiters := lims\<rparr> else g"
  obtain w0 where w0: "prepared m ?rid r0 w0" "rw_sent w0 = rw_sent w" "rw_body w0 = rw_body w"
    and inner: "\<And>h g'. corsMiddleware m (securityHeaders m h) r0 ?w g' = h r0 w0 g'"
    using security_reaches [OF assms(2) r0(1,4) _ r0(5), of ?w] by auto
  let ?note = "\<lambda>w1. slog LevelInfo ''request''
             [(''method'', req_Method r), (''path'', req_Path r), (''status'', Itoa (int (recorded_status w1))),
              (''duration_ms'', Itoa ((me_end me - me_start me) div Millisecond)),
              (''request_id'', ?rid), (''src_ip'', sourceIP r)]"
  let ?fail_w = "\<lambda>w1. encodeError ''internal server error'' (WriteHeader 500 (header_Set ''Content-Type'' ''application/json'' w1))"
  let ?fail_g = "\<lambda>x. slog LevelError ''panic recovered''
              [(''error'', x), (''path'', req_Path r), (''request_id'', RequestID r), (''stack'', me_stack me)]"
  have "rateLimitMiddleware m me (maxBody m (corsMiddleware m (securityHeaders m h))) ?r ?w g = h r0 w0 ?g0" for h
    using al by (simp add: rateLimitMiddleware_def maxBody_def inner Let_def flip: r0_def)
  then have "Chain m me h r w g =
      (case h r0 w0 ?g0 of
         (None, w1, g1) \<Rightarrow> (None, w1, upd_world (?note w1) g1)
       | (Some x, w1, g1) \<Rightarrow> (None, ?fail_w w1, upd_world (?fail_g x) g1))" for h
    by (cases "h r0 w0 ?g0") (simp add: chain_unfold mw_logging_def mw_recover_def Let_def split: option.split)
  moreover have "rw_body (?fail_w w1) = rw_body w1 @ [BError \<lparr>er_Errors = [''internal server error'']\<rparr>]" for w1
    by (simp add: encodeError_def writeJSONBody_def Write_def WriteHeader_def Let_def split: option.split)
  ultimately show ?thesis
    using w0 r0 body by (intro exI [of _ r0] exI [of _ w0] exI [of _ ?g0] exI [of _ ?note] exI [of _ ?fail_w] exI [of _ ?fail_g])
      simp
qed


text \<open>The one way secret data gets into a response.\<close>

lemma handler_body:
  assumes "rw_sent rw = None"
  shows "rw_body (writeJSON st v rw) = rw_body rw @ [v]"
    and "rw_body (writeError st msgs rw) = rw_body rw @ [BError \<lparr>er_Errors = if msgs = [] then [StatusText st] else msgs\<rparr>]"
    and "rw_body (writePermissionDenied rw) = rw_body rw @ [BError \<lparr>er_Errors = [msgPermissionDenied]\<rparr>]"
  using assms by (simp_all add: writeError_def writePermissionDenied_def Let_def)

lemma read_writes_secret:
  assumes "SecretReadHandler ev r rw h w = (p, rw', h', w')" and "rw_sent rw = None" and "rw_body rw = []"
    and "BSecret resp \<in> set (rw_body rw')"
  shows "p = None \<and> Validate (read_path r) = Inr () \<and> (\<exists>i. authorized ev r h i) \<and> rw_body rw' = [BSecret resp] \<and>
    sr_RequestID resp = RequestID r \<and> rw_sent rw' = Some (200, (rw_header rw)(''Content-Type'' \<mapsto> ''application/json''))"
  using assms(1)
proof (cases rule: SecretRead_cases)
  case (failed i b b' w1 e)
  with assms(2-) show ?thesis by (cases e) (auto simp: handler_body)
next
  case (success i b b' w1 v)
  moreover have "rw_sent (writeJSON 200 x rw) = Some (200, (rw_header rw)(''Content-Type'' \<mapsto> ''application/json''))" for x
    using assms(2) by (simp add: writeJSON_def)
  ultimately show ?thesis
    using assms(2-) by (auto simp: secret_body_def handler_body)
qed (use assms(2-) in \<open>auto simp: handler_body\<close>)

lemma login_writes_no_secret:
  assumes "K8sLoginHandler ev r rw h w = (p, rw', h', w')" and "rw_sent rw = None" and "rw_body rw = []"
  shows "BSecret resp \<notin> set (rw_body rw')"
  using assms(1) by (cases rule: Login_cases) (use assms(2-) in \<open>auto simp: handler_body auth_body_def\<close>)

lemma router_writes_secret:
  assumes "NewRouter ev r w g = (p, w', g')" and "rw_sent w = None" and "rw_body w = []"
    and "BSecret resp \<in> set (rw_body w')"
  shows "\<exists>q. route (req_Method r) (req_EscapedPath r) = ToSecret q \<and>
    p = None \<and> Validate (TrimPrefix q ''/'') = Inr () \<and> (\<exists>i. authorized ev (r\<lparr>req_PathValue := q\<rparr>) (g_handlers g) i) \<and>
    rw_body w' = [BSecret resp] \<and> sr_RequestID resp = RequestID r \<and>
    rw_sent w' = Some (200, (rw_header w)(''Content-Type'' \<mapsto> ''application/json''))"
proof (cases "route (req_Method r) (req_EscapedPath r)")
  case ToHealth
  with assms show ?thesis
    by (auto simp: NewRouter_def lift_handler_def HealthHandler_def handler_body Let_def split: prod.splits)
next
  case ToSealStatus
  with assms show ?thesis
    by (auto simp: NewRouter_def lift_handler_def SealStatusHandler_def handler_body Let_def)
next
  case ToLogin
  with assms show ?thesis
    by (auto simp: NewRouter_def lift_handler_def login_writes_no_secret split: prod.splits)
next
  case (ToSecret q)
  obtain p1 w1 h1 wd1 where run:
    "SecretReadHandler ev (r\<lparr>req_PathValue := q\<rparr>) w (g_handlers g) (g_world g) = (p1, w1, h1, wd1)"
    by (cases "SecretReadHandler ev (r\<lparr>req_PathValue := q\<rparr>) w (g_handlers g) (g_world g)")
  with ToSecret assms(1) have "p1 = p" "w1 = w'" by (auto simp: NewRouter_def lift_handler_def)
  with read_writes_secret [OF run assms(2,3)] assms(4) ToSecret show ?thesis
    by (simp add: read_path_def RequestID_def)
next
  case ToNotFound
  with assms show ?thesis by (auto simp: NewRouter_def notFoundHandler_def writeJSONBody_def Let_def)
next
  case (ToRedirect loc)
  with assms show ?thesis by (auto simp: NewRouter_def redirect_response_def Let_def split: if_splits)
qed

lemma served_secret:
  assumes "serve m me ev r w g = (p, w', g')" and "rw_sent w = None" and "rw_body w = []"
    and "BSecret resp \<in> set (rw_body w')"
  shows "\<not> rate_limited m me r g \<and> p = None \<and>
    (\<exists>q i hdrs. route (req_Method r) (req_EscapedPath r) = ToSecret q \<and> Validate (TrimPrefix q ''/'') = Inr () \<and>
      VerifyToken (ev_clock ev 1) (req_Header r ''X-Vault-Token'') (h_tokens (g_handlers g)) = Some i \<and>
      CheckAccess (h_rbac (g_handlers g)) (Some i) (TrimPrefix q ''/'') \<and>
      rw_body w' = [BSecret resp] \<and> sr_RequestID resp = request_id_for me r \<and> rw_sent w' = Some (200, hdrs) \<and>
      hdrs ''X-Request-Id'' = Some (request_id_for me r) \<and> hdrs ''Cache-Control'' = Some ''no-store'' \<and>
      hdrs ''X-Content-Type-Options'' = Some ''nosniff'' \<and> hdrs ''X-Frame-Options'' = Some ''DENY'' \<and>
      (mw_tlsEnabled m \<longrightarrow> hdrs ''Strict-Transport-Security'' = Some ''max-age=31536000; includeSubDomains''))"
proof -
  have chain: "Chain m me (NewRouter ev) r w g = (p, w', g')" using assms(1) by (simp add: serve_def)
  have unlimited: "\<not> rate_limited m me r g"
    using chain_limited [of m me r g w] chain assms(2-) by auto
  moreover have "\<not> preflight m r"
    using chain_preflight [OF unlimited, of w] chain assms(2-) by auto
  ultimately have open_gate: "\<not> rate_limited m me r g" "\<not> preflight m r" by blast+
  obtain r0 w0 g0 tell fail_w fail_g where reach: "prepared m (request_id_for me r) r0 w0" "rw_sent w0 = rw_sent w" "rw_body w0 = rw_body w"
      "req_Method r0 = req_Method r" "req_EscapedPath r0 = req_EscapedPath r" "req_Header r0 = req_Header r" "g_handlers g0 = g_handlers g"
      "\<And>w1. rw_body (fail_w w1) = rw_body w1 @ [BError \<lparr>er_Errors = [''internal server error'']\<rparr>]"
      "\<And>h. Chain m me h r w g =
        (case h r0 w0 g0 of
           (None, w1, g1) \<Rightarrow> (None, w1, upd_world (tell w1) g1)
         | (Some x, w1, g1) \<Rightarrow> (None, fail_w w1, upd_world (fail_g x) g1))"
    using chain_reaches [OF open_gate, of w] by blast
  obtain p1 w1 g1 where run: "NewRouter ev r0 w0 g0 = (p1, w1, g1)" by (cases "NewRouter ev r0 w0 g0")
  have "BSecret resp \<in> set (rw_body w1)"
    using chain run reach(8,9) assms(4) by (cases p1) auto
  from router_writes_secret [OF run _ _ this] reach(2,3) assms(2,3)
  obtain q i where q: "route (req_Method r0) (req_EscapedPath r0) = ToSecret q" "p1 = None" "Validate (TrimPrefix q ''/'') = Inr ()"
      "authorized ev (r0\<lparr>req_PathValue := q\<rparr>) (g_handlers g0) i" "rw_body w1 = [BSecret resp]" "sr_RequestID resp = RequestID r0"
      "rw_sent w1 = Some (200, (rw_header w0)(''Content-Type'' \<mapsto> ''application/json''))"
    by auto
  have final: "p = None" "w' = w1" using chain run reach(9) [of "NewRouter ev"] q(2) by auto
  show ?thesis
    using open_gate(1) q reach(1,4-7) final
    by (intro conjI exI [of _ q] exI [of _ i] exI [of _ "(rw_header w0)(''Content-Type'' \<mapsto> ''application/json'')"])
      (auto simp: prepared_def authorized_def read_path_def)
qed

text \<open>
  C2. Whatever request reaches the server, secret data leaves it only in one way. If any part of the
  response is a secret, then the request was not over its rate limit, it was routed to a secret
  path that the allowlist accepts, its token verified and the role of the token covers that path;
  and the response is a complete 200 with this one body, carrying the request's id and headers
  that forbid storing, sniffing and framing it and that pin TLS when TLS is on.
\<close>

theorem served_secrets_are_authorized:
  assumes "serve m me ev r w g = (p, w', g')" and "rw_sent w = None" and "rw_body w = []"
    and "BSecret resp \<in> set (rw_body w')"
  shows "\<not> rate_limited m me r g \<and> p = None \<and>
    (\<exists>q i hdrs. route (req_Method r) (req_EscapedPath r) = ToSecret q \<and> Validate (TrimPrefix q ''/'') = Inr () \<and>
      VerifyToken (ev_clock ev 1) (req_Header r ''X-Vault-Token'') (h_tokens (g_handlers g)) = Some i \<and>
      CheckAccess (h_rbac (g_handlers g)) (Some i) (TrimPrefix q ''/'') \<and>
      rw_body w' = [BSecret resp] \<and> sr_RequestID resp = request_id_for me r \<and> rw_sent w' = Some (200, hdrs) \<and>
      hdrs ''X-Request-Id'' = Some (request_id_for me r) \<and> hdrs ''Cache-Control'' = Some ''no-store'' \<and>
      hdrs ''X-Content-Type-Options'' = Some ''nosniff'' \<and> hdrs ''X-Frame-Options'' = Some ''DENY'' \<and>
      (mw_tlsEnabled m \<longrightarrow> hdrs ''Strict-Transport-Security'' = Some ''max-age=31536000; includeSubDomains''))"
  using served_secret [OF assms] .

text \<open>Requests that the middleware lets through get the answer of their handler.\<close>

lemma serve_read:
  assumes "\<not> rate_limited m me r g" and "\<not> preflight m r" and "rw_sent w = None"
    and "route (req_Method r) (req_EscapedPath r) = ToSecret q" and "Validate (TrimPrefix q ''/'') = Inr ()"
    and "VerifyToken (ev_clock ev 1) (req_Header r ''X-Vault-Token'') (h_tokens (g_handlers g)) = Some i"
    and "CheckAccess (h_rbac (g_handlers g)) (Some i) (TrimPrefix q ''/'')" and "h_backend (g_handlers g) = Some b"
    and "backend_GetSecret (ev_remotes ev) (ev_clock ev 2) (ev_clock ev 3) (TrimPrefix q ''/'') b (g_world g) = (Inr v, b', w1)"
  shows "\<exists>w' g' resp. serve m me ev r w g = (None, w', g') \<and> BSecret resp \<in> set (rw_body w')"
proof -
  obtain r0 w0 g0 tell fail_w fail_g where reach: "rw_sent w0 = rw_sent w"
      "req_Method r0 = req_Method r" "req_EscapedPath r0 = req_EscapedPath r" "req_Header r0 = req_Header r"
      "g_handlers g0 = g_handlers g" "g_world g0 = g_world g"
      "\<And>h. Chain m me h r w g =
        (case h r0 w0 g0 of
           (None, w1, g1) \<Rightarrow> (None, w1, upd_world (tell w1) g1)
         | (Some x, w1, g1) \<Rightarrow> (None, fail_w w1, upd_world (fail_g x) g1))"
    using chain_reaches [OF assms(1,2), of w] by blast
  let ?r1 = "r0\<lparr>req_PathValue := q\<rparr>"
  have path: "read_path ?r1 = TrimPrefix q ''/''" by (simp add: read_path_def)
  have "authorized ev ?r1 (g_handlers g) i" using assms(6,7) reach(4) by (simp add: authorized_def path)
  moreover have "Validate (read_path ?r1) = Inr ()" using assms(5) by (simp add: path)
  ultimately obtain h2 wd2 where "SecretReadHandler ev ?r1 w0 (g_handlers g) (g_world g) =
      (None, writeJSON 200 (secret_body ev ?r1 (map_option (cells (w_heap w1)) v)) w0, h2, wd2)"
    using SecretRead_authorized [of ?r1 ev "g_handlers g" i w0 "g_world g"] assms(8,9) by (simp add: path Let_def)
  with reach assms(3,4) show ?thesis
    by (auto simp: serve_def NewRouter_def lift_handler_def handler_body secret_body_def)
qed

lemma serve_login:
  assumes "\<not> rate_limited m me r g" and "\<not> preflight m r" and "route (req_Method r) (req_EscapedPath r) = ToLogin"
    and "MaxBytesReader (mw_maxBodyBytes m) (req_Body r) = req_Body r"
    and handler: "\<And>r0 w0. req_Body r0 = req_Body r \<Longrightarrow>
      \<exists>w1 wd. K8sLoginHandler ev r0 w0 (g_handlers g) (g_world g) = (None, w1, h', wd)"
  shows "\<exists>w' g'. serve m me ev r w g = (None, w', g') \<and> g_handlers g' = h'"
proof -
  obtain r0 w0 g0 tell fail_w fail_g where reach: "req_Body r0 = (if 0 < mw_maxBodyBytes m then MaxBytesReader (mw_maxBodyBytes m) (req_Body r) else req_Body r)"
      "req_Method r0 = req_Method r" "req_EscapedPath r0 = req_EscapedPath r"
      "g_handlers g0 = g_handlers g" "g_world g0 = g_world g"
      "\<And>h. Chain m me h r w g =
        (case h r0 w0 g0 of
           (None, w1, g1) \<Rightarrow> (None, w1, upd_world (tell w1) g1)
         | (Some x, w1, g1) \<Rightarrow> (None, fail_w w1, upd_world (fail_g x) g1))"
    using chain_reaches [OF assms(1,2), of w] by blast
  have "req_Body r0 = req_Body r" using reach(1) assms(4) by simp
  from handler [OF this, of w0] obtain w1 wd where "K8sLoginHandler ev r0 w0 (g_handlers g) (g_world g) = (None, w1, h', wd)" by blast
  with reach(2-) assms(3) show ?thesis
    by (auto simp: serve_def NewRouter_def lift_handler_def upd_world_def)
qed

text \<open>A read on the demo gateway, through the whole server.\<close>

lemma demo_route: "route ''GET'' ''/v1/secret/data/db'' = ToSecret ''db''"
  using route_valid_path [OF demo_path(2), of "''GET''"] by (simp add: getLike_def)

lemma demo_serves:
  "\<exists>w' g' resp. serve demo_mw demo_me demo_env (demo_read ''db'' ''ab'') new_response demo_state = (None, w', g') \<and>
     BSecret resp \<in> set (rw_body w')"
proof -
  let ?r = "demo_read ''db'' ''ab''"
  have unlimited: "\<not> rate_limited demo_mw demo_me ?r demo_state"
    by (simp add: rate_limited_def allow_def demo_mw_def NewMiddleware_def demo_state_def newIPLimiterSet_def demo_bucket_def)
  have no_preflight: "\<not> preflight demo_mw ?r" by (simp add: preflight_def demo_mw_def NewMiddleware_def)
  have fresh: "rw_sent new_response = None" by (simp add: new_response_def)
  have routed: "route (req_Method ?r) (req_EscapedPath ?r) = ToSecret ''db''" by (simp add: demo_read_def demo_route)
  have path: "TrimPrefix ''db'' ''/'' = ''db''" by (simp add: TrimPrefix_def HasPrefix_def)
  have auth: "VerifyToken (ev_clock demo_env 1) (req_Header ?r ''X-Vault-Token'') (h_tokens (g_handlers demo_state)) = Some demo_identity"
    "CheckAccess (h_rbac (g_handlers demo_state)) (Some demo_identity) ''db''"
    using demo_authorized by (simp_all add: authorized_def demo_path demo_state_def)
  have ok: "backend_ok demo_aws (w_heap demo_world)" and be: "h_backend (g_handlers demo_state) = Some demo_aws"
    using demo_handlers_ok by (simp_all add: handlers_ok_def demo_state_def demo_handlers_def)
  obtain v b' w1 where "backend_GetSecret demo_remotes 12 13 ''db'' demo_aws demo_world = (Inr v, b', w1)"
    using demo_get_ok(1) [OF ok] by auto
  then have "backend_GetSecret (ev_remotes demo_env) (ev_clock demo_env 2) (ev_clock demo_env 3) ''db'' demo_aws (g_world demo_state) = (Inr v, b', w1)"
    by (simp add: demo_env_def demo_state_def)
  with serve_read [OF unlimited no_preflight fresh routed, unfolded path, OF demo_path(2) auth be] show ?thesis by blast
qed

theorem served_secrets_are_authorized_witness:
  "\<exists>w' hdrs. fst (snd (serve demo_mw demo_me demo_env (demo_read ''db'' ''ab'') new_response demo_state)) = w' \<and>
     rw_sent w' = Some (200, hdrs) \<and> hdrs ''Cache-Control'' = Some ''no-store''"
proof -
  have fresh: "rw_sent new_response = None" "rw_body new_response = []" by (simp_all add: new_response_def)
  obtain w' g' resp where run: "serve demo_mw demo_me demo_env (demo_read ''db'' ''ab'') new_response demo_state = (None, w', g')"
    and "BSecret resp \<in> set (rw_body w')"
    using demo_serves by blast
  from served_secrets_are_authorized [OF run fresh this(2)] run show ?thesis by auto
qed

end
