(* ===== verification/Gateway_History.thy ===== *)
theory Gateway_History
  imports Server_Properties Route_Properties
begin

text \<open>
  The whole gateway over time: what \<open>run\<close> has started, serving any sequence of requests through
  router and middleware, with the two cleanup loops in between. Each request and each tick is one
  atomic step on the shared state.
\<close>

datatype served =
    Serve mw_env env Request
  | TokenTick "string list" time
  | LimitersTick "string list" time

fun srv_step :: "'l Middleware \<Rightarrow> served \<Rightarrow> 'l server_state \<Rightarrow> 'l server_state" where
  "srv_step m (Serve me ev r) g = snd (snd (serve m me ev r new_response g))"
| "srv_step m (TokenTick order now) g =
     (case cleanup_tick order now (h_metrics (g_handlers g)) (h_tokens (g_handlers g)) (g_world g) of
        (s, wd) \<Rightarrow> g\<lparr>g_handlers := (g_handlers g)\<lparr>h_tokens := s\<rparr>, g_world := wd\<rparr>)"
| "srv_step m (LimitersTick order now) g =
     g\<lparr>g_limiters := snd (startLimiterCleanup [LimiterTick order now] (g_limiters g))\<rparr>"

definition srv_run :: "'l Middleware \<Rightarrow> served list \<Rightarrow> 'l server_state \<Rightarrow> 'l server_state" where
  "srv_run m hist g = fold (srv_step m) hist g"

text \<open>The state in which \<open>Start\<close> begins to serve.\<close>

definition serving_state :: "'l gateway \<Rightarrow> world \<Rightarrow> 'l server_state" where
  "serving_state gt wd = \<lparr>g_handlers = gt_handlers gt, g_world = wd, g_limiters = gt_limiters gt\<rparr>"

definition start_state :: "'l gateway \<Rightarrow> world \<Rightarrow> 'l server_state" where
  "start_state gt w = serving_state gt (listening (gt_server gt) w)"

lemma start_state_fields [simp]:
  "g_handlers (start_state gt w) = gt_handlers gt" "w_heap (g_world (start_state gt w)) = w_heap w"
  by (simp_all add: start_state_def serving_state_def listening_def slog_def Let_def)

text \<open>
  The process from its start to its end: what \<open>main\<close> prints to standard output and standard error and
  the status it exits with; a panic while the server is built ends it with status 2.
\<close>

datatype process_end = Exited nat string string | Crashed

definition gateway_main ::
  "('c, 'k, 'z, 'g, 'l, 'r) main_env \<Rightarrow> mheap \<Rightarrow> served list \<Rightarrow> start_event \<Rightarrow> drain \<Rightarrow> process_end" where
  "gateway_main mn hp hist ev dr =
     (let fatal = (\<lambda>err. Exited 1 '''' (''fatal: '' @ err @ [CHR 0x0A])) in
      case gateway_run mn hp of
        Refused err \<Rightarrow> fatal err
      | PrintedVersion v \<Rightarrow> Exited 0 (v @ [CHR 0x0A]) ''''
      | Panicked \<Rightarrow> Crashed
      | Running gt w \<Rightarrow>
          let serving = (\<lambda>wd. let g = srv_run (gt_middleware gt) hist (serving_state gt wd) in (h_backend (g_handlers g), g_world g)) in
          case server_Start (gt_server gt) serving ev dr w of
            (Some err, _, _) \<Rightarrow> fatal err
          | (None, _, _) \<Rightarrow> Exited 0 '''' '''')"

text \<open>
  A process that had started to serve exits with status 0 exactly when it was told to stop and both
  servers drained in time.
\<close>

lemma gateway_main_status:
  assumes "gateway_run mn hp = Running gt w"
  shows "(gateway_main mn hp hist ev dr = Exited 0 '''' '''') = (ev = ContextDone \<and> dr_api dr = None \<and> dr_metrics dr = None)"
proof -
  have "errors_Join [dr_api dr, dr_metrics dr] = None \<longleftrightarrow> dr_api dr = None \<and> dr_metrics dr = None"
    by (cases "dr_api dr"; cases "dr_metrics dr") (simp_all add: errors_Join_def)
  with assms show ?thesis
    by (cases ev) (auto simp: gateway_main_def server_Start_def shutdown_def Let_def split: option.splits prod.splits)
qed

subsection \<open>An invariant of all histories\<close>

text \<open>The requests of a history that the router sends to the login handler.\<close>

definition login_requests :: "served list \<Rightarrow> (env \<times> Request) set" where
  "login_requests hist = {(ev, r). route (req_Method r) (req_EscapedPath r) = ToLogin \<and> (\<exists>me. Serve me ev r \<in> set hist)}"

definition gateway_inv :: "Handlers \<Rightarrow> (env \<times> Request) set \<Rightarrow> 'l server_state \<Rightarrow> bool" where
  "gateway_inv h0 L g \<longleftrightarrow> same_config h0 (g_handlers g) \<and> handlers_ok (g_handlers g) (w_heap (g_world g)) \<and>
     tokens_from h0 L (h_tokens (g_handlers g))"

lemma gateway_inv_cong:
  "gateway_inv h0 L g \<Longrightarrow> g_handlers g' = g_handlers g \<Longrightarrow> w_heap (g_world g') = w_heap (g_world g) \<Longrightarrow> gateway_inv h0 L g'"
  by (simp add: gateway_inv_def)

lemma gateway_inv_mono: "gateway_inv h0 L g \<Longrightarrow> L \<subseteq> L' \<Longrightarrow> gateway_inv h0 L' g"
  using tokens_from_mono by (auto simp: gateway_inv_def)

text \<open>What the middleware does to a request it lets through.\<close>

definition passed_on :: "Request \<Rightarrow> Request \<Rightarrow> bool" where
  "passed_on r r0 \<longleftrightarrow> req_Method r0 = req_Method r \<and> req_EscapedPath r0 = req_EscapedPath r \<and> req_Header r0 = req_Header r \<and>
     (req_Body r0 = req_Body r \<or> (\<exists>err. req_Body r0 = Inl err))"

lemma passed_on_login: "passed_on r r0 \<Longrightarrow> login_fields r0 = Some req \<Longrightarrow> login_fields r = Some req"
  by (auto simp: passed_on_def login_fields_def)

lemma tokens_from_passed_on:
  assumes "tokens_from h0 (insert (ev, r0) L) s" and "passed_on r r0" and "(ev, r) \<in> L"
  shows "tokens_from h0 L s"
proof -
  have "granted h0 ev r0 tok i x \<Longrightarrow> granted h0 ev r tok i x" for tok i x
    using passed_on_login [OF assms(2)] unfolding granted_def by blast
  with assms(1,3) show ?thesis unfolding tokens_from_def by blast
qed

lemma Chain_keeps:
  assumes "Chain m me next_h r w g = (p, w', g')" and "gateway_inv h0 L g"
    and handler: "\<And>r0 w0 g0 p1 w1 g1. gateway_inv h0 L g0 \<Longrightarrow> passed_on r r0 \<Longrightarrow> next_h r0 w0 g0 = (p1, w1, g1) \<Longrightarrow> gateway_inv h0 L g1"
  shows "gateway_inv h0 L g'"
proof -
  let ?lim = "rateLimitMiddleware m me (maxBody m (corsMiddleware m (securityHeaders m next_h)))"
  have sec: "gateway_inv h0 L g1" if "gateway_inv h0 L g0" "passed_on r r0" "corsMiddleware m (securityHeaders m next_h) r0 w0 g0 = (p1, w1, g1)"
    for r0 w0 g0 p1 w1 g1
    using that handler by (auto simp: corsMiddleware_def securityHeaders_def Let_def split: if_splits)
  have body: "gateway_inv h0 L g1" if "gateway_inv h0 L g0" "maxBody m (corsMiddleware m (securityHeaders m next_h)) (WithRequestID rid r) w0 g0 = (p1, w1, g1)"
    for rid w0 g0 p1 w1 g1
  proof -
    let ?r0 = "if 0 < mw_maxBodyBytes m
      then (WithRequestID rid r)\<lparr>req_Body := MaxBytesReader (mw_maxBodyBytes m) (req_Body (WithRequestID rid r))\<rparr> else WithRequestID rid r"
    have "passed_on r ?r0"
      by (auto simp: passed_on_def WithRequestID_def MaxBytesReader_def split: sum.split)
    from sec [OF that(1) this] that(2) show ?thesis by (simp add: maxBody_def Let_def split: if_splits)
  qed
  have lim: "gateway_inv h0 L g1" if "?lim (WithRequestID rid r) w0 g = (p1, w1, g1)" for rid w0 p1 w1 g1
  proof -
    have "gateway_inv h0 L (g\<lparr>g_limiters := l\<rparr>)" for l using assms(2) by (auto elim: gateway_inv_cong)
    moreover have "gateway_inv h0 L (upd_world (upd_metrics b f) (g\<lparr>g_limiters := l\<rparr>))" for b f l
      using assms(2) by (rule gateway_inv_cong) (simp_all add: upd_world_def upd_metrics_def)
    moreover have "gateway_inv h0 L g1"
      if "maxBody m (corsMiddleware m (securityHeaders m next_h)) (WithRequestID rid r) w0 (g\<lparr>g_limiters := l\<rparr>) = (p1, w1, g1)" for l
      using body [OF calculation(1) that] .
    ultimately show ?thesis
      using that assms(2) body by (auto simp: rateLimitMiddleware_def Let_def split: if_splits prod.splits)
  qed
  have note_line: "gateway_inv h0 L g1 \<Longrightarrow> gateway_inv h0 L (upd_world (slog lv msg attrs) g1)" for g1 lv msg attrs
    by (erule gateway_inv_cong) (simp_all add: upd_world_def slog_def)
  let ?rid = "request_id_for me r"
  obtain p1 w1 g1 where run: "?lim (WithRequestID ?rid r) (header_Set ''X-Request-Id'' ?rid w) g = (p1, w1, g1)"
    by (cases "?lim (WithRequestID ?rid r) (header_Set ''X-Request-Id'' ?rid w) g")
  with assms(1) have "\<exists>lv msg attrs. g' = upd_world (slog lv msg attrs) g1"
    by (cases p1) (auto simp: chain_unfold mw_logging_def mw_recover_def Let_def)
  with note_line [OF lim [OF run]] show ?thesis by blast
qed

lemma router_keeps:
  assumes "NewRouter ev r w g = (p, w', g')" and "gateway_inv h0 L g"
  shows "gateway_inv h0 (if route (req_Method r) (req_EscapedPath r) = ToLogin then insert (ev, r) L else L) g'"
proof -
  let ?h = "g_handlers g" and ?wd = "g_world g"
  have conf: "same_config h0 ?h" and ok: "handlers_ok ?h (w_heap ?wd)" and hist: "tokens_from h0 L (h_tokens ?h)"
    using assms(2) by (simp_all add: gateway_inv_def)
  show ?thesis
  proof (cases "route (req_Method r) (req_EscapedPath r)")
    case ToHealth
    obtain p1 w1 h1 wd1 where run: "HealthHandler ev r w ?h ?wd = (p1, w1, h1, wd1)" by (cases "HealthHandler ev r w ?h ?wd")
    with ToHealth assms(1) have "g' = g\<lparr>g_handlers := h1, g_world := wd1\<rparr>" by (auto simp: NewRouter_def lift_handler_def)
    with HealthHandler_fields [OF run] assms(2) ToHealth show ?thesis by (auto elim: gateway_inv_cong)
  next
    case ToSealStatus
    with assms show ?thesis by (auto simp: NewRouter_def lift_handler_def SealStatusHandler_def Let_def elim: gateway_inv_cong)
  next
    case ToLogin
    obtain p1 w1 h1 wd1 where run: "K8sLoginHandler ev r w ?h ?wd = (p1, w1, h1, wd1)" by (cases "K8sLoginHandler ev r w ?h ?wd")
    with ToLogin assms(1) have g': "g' = g\<lparr>g_handlers := h1, g_world := wd1\<rparr>" by (auto simp: NewRouter_def lift_handler_def)
    have "same_config ?h h1" using run by (cases rule: Login_cases) (auto simp: same_config_def)
    moreover have "tokens_from h0 (insert (ev, r) L) (h_tokens h1)"
      using tokens_from_login [OF hist conf _ run] ok by (simp add: handlers_ok_def)
    ultimately show ?thesis
      using handlers_ok_login [OF ok run] conf ToLogin by (simp add: gateway_inv_def g' same_config_def)
  next
    case (ToSecret q)
    let ?r = "r\<lparr>req_PathValue := q\<rparr>"
    obtain p1 w1 h1 wd1 where run: "SecretReadHandler ev ?r w ?h ?wd = (p1, w1, h1, wd1)" by (cases "SecretReadHandler ev ?r w ?h ?wd")
    with ToSecret assms(1) have g': "g' = g\<lparr>g_handlers := h1, g_world := wd1\<rparr>" by (auto simp: NewRouter_def lift_handler_def)
    have "same_config ?h h1 \<and> h_tokens h1 = h_tokens ?h" using run by (cases rule: SecretRead_cases) (auto simp: same_config_def)
    with handlers_ok_read [OF ok run] conf hist ToSecret show ?thesis by (simp add: gateway_inv_def g' same_config_def)
  qed (use assms in \<open>auto simp: NewRouter_def elim: gateway_inv_cong\<close>)
qed

lemma srv_step_keeps:
  assumes "gateway_inv h0 (login_requests hist) g"
  shows "gateway_inv h0 (login_requests (hist @ [e])) (srv_step m e g)"
proof -
  have sub: "login_requests hist \<subseteq> login_requests (hist @ [e])" by (auto simp: login_requests_def)
  note inv = gateway_inv_mono [OF assms sub]
  show ?thesis
  proof (cases e)
    case (Serve me ev r)
    obtain p w' g' where run: "Chain m me (NewRouter ev) r new_response g = (p, w', g')" by (cases "Chain m me (NewRouter ev) r new_response g")
    have "gateway_inv h0 (login_requests (hist @ [e])) g1"
      if "gateway_inv h0 (login_requests (hist @ [e])) g0" "passed_on r r0" "NewRouter ev r0 w0 g0 = (p1, w1, g1)" for r0 w0 g0 p1 w1 g1
    proof (cases "route (req_Method r0) (req_EscapedPath r0) = ToLogin")
      case True
      then have "(ev, r) \<in> login_requests (hist @ [e])" using that(2) Serve by (auto simp: login_requests_def passed_on_def)
      with router_keeps [OF that(3,1)] True tokens_from_passed_on [OF _ that(2)] show ?thesis by (auto simp: gateway_inv_def)
    next
      case False
      with router_keeps [OF that(3,1)] show ?thesis by simp
    qed
    from Chain_keeps [OF run inv this] Serve run show ?thesis by (simp add: serve_def)
  next
    case (TokenTick order now)
    obtain s wd where tick: "cleanup_tick order now (h_metrics (g_handlers g)) (h_tokens (g_handlers g)) (g_world g) = (s, wd)"
      by (cases "cleanup_tick order now (h_metrics (g_handlers g)) (h_tokens (g_handlers g)) (g_world g)")
    have ok: "store_inv (h_tokens (g_handlers g))" using inv by (simp add: gateway_inv_def handlers_ok_def)
    with cleanup_tick_fields [OF tick] inv tokens_from_sweep [of h0 _ _ order now] tokens.sweep_ok [OF ok, of order now] TokenTick tick
    show ?thesis by (auto simp: gateway_inv_def same_config_def handlers_ok_def)
  next
    case (LimitersTick order now)
    with inv show ?thesis by (auto elim: gateway_inv_cong)
  qed
qed

lemma srv_run_keeps:
  assumes "handlers_ok (g_handlers g) (w_heap (g_world g))" and "h_tokens (g_handlers g) = NewTokenStore n"
  shows "gateway_inv (g_handlers g) (login_requests hist) (srv_run m hist g)"
proof (induction hist rule: rev_induct)
  case Nil
  with assms show ?case by (simp add: srv_run_def gateway_inv_def same_config_def)
next
  case (snoc e hist)
  from srv_step_keeps [OF this, of e m] show ?case by (simp add: srv_run_def)
qed

text \<open>A role of the access control of a started gateway is a role of its configuration, with the lifetime given there.\<close>

lemma started_role:
  assumes "gateway_run mn hp = Running gt w" and "roles (h_rbac (gt_handlers gt)) name = Some rl"
  obtains role where "at_Roles (cfg_Auth (gt_cfg gt)) name = Some role"
    "rl = \<lparr>AllowedNamespaces = ro_AllowedNamespaces role, AllowedServiceAccounts = ro_AllowedServiceAccounts role,
           AllowedPaths = ro_AllowedPaths role\<rparr>"
    "ttlForRole (gt_handlers gt) name = (if 0 < ro_TokenTTL role then ro_TokenTTL role else at_TokenTTL (cfg_Auth (gt_cfg gt)))"
proof -
  from gateway_run_Running [OF assms(1)] have parts: "h_rbac (gt_handlers gt) = NewRBAC (buildRoles (gt_cfg gt))"
    "h_roleTokenTTL (gt_handlers gt) = roleTTLs (gt_cfg gt)" "h_defaultTokenTTL (gt_handlers gt) = at_TokenTTL (cfg_Auth (gt_cfg gt))"
    by auto
  then obtain role where role: "at_Roles (cfg_Auth (gt_cfg gt)) name = Some role"
      "rl = \<lparr>AllowedNamespaces = ro_AllowedNamespaces role, AllowedServiceAccounts = ro_AllowedServiceAccounts role,
             AllowedPaths = ro_AllowedPaths role\<rparr>"
    using assms(2) by (auto simp: NewRBAC_def buildRoles_def)
  show thesis
    by (rule that [OF role]) (use role(1) in \<open>simp add: ttlForRole_def parts roleTTLs_def\<close>)
qed

subsection \<open>An instance\<close>

text \<open>The gateway that the demo configuration starts: a login and then a read, through the whole server.\<close>

lemma demo_open_gate:
  assumes "mw_rateLimit (gt_middleware gt) = cfg_RateLimit demo_cfg" and "mw_cors (gt_middleware gt) = cfg_CORS demo_cfg"
  shows "\<not> rate_limited (gt_middleware gt) me r g" and "\<not> preflight (gt_middleware gt) r"
  using assms by (simp_all add: rate_limited_def preflight_def applyEnvOverrides_def applyDefaults_def demo_file_def)

lemma demo_gateway_login:
  assumes "gateway_run demo_main (w_heap demo_world) = Running gt w" and "gt_cfg gt = demo_cfg"
  shows "\<exists>toks. VerifyToken 11 ''ab'' toks = Some demo_identity \<and>
    (\<forall>r rw w0. login_fields r = Some \<lparr>lr_JWT = ''j'', lr_Role = ''app''\<rparr> \<longrightarrow>
      (\<exists>rw' wd. K8sLoginHandler demo_login_env r rw (gt_handlers gt) w0 = (None, rw', (gt_handlers gt)\<lparr>h_tokens := toks\<rparr>, wd)))"
proof -
  let ?h = "gt_handlers gt" and ?req = "\<lparr>lr_JWT = ''j'', lr_Role = ''app''\<rparr>" and ?i = "demo_identity\<lparr>id_Role := ''''\<rparr>"
  note run = gateway_run_Running [OF assms(1)]
  then have parts: "h_rbac ?h = NewRBAC (buildRoles demo_cfg)" "h_tokens ?h = NewTokenStore (at_MaxTokensPerIdentity (cfg_Auth demo_cfg))"
    "h_roleTokenTTL ?h = roleTTLs demo_cfg" "h_defaultTokenTTL ?h = at_TokenTTL (cfg_Auth demo_cfg)"
    using assms(2) by auto
  have quota: "at_MaxTokensPerIdentity (cfg_Auth demo_cfg) = 100"
    by (simp add: applyEnvOverrides_def applyDefaults_def demo_file_def or_default_def)
  have "0 < at_TokenTTL (cfg_Auth demo_cfg)" using demo_file_sound by (simp add: config_sound_def)
  then have ttl: "0 < ttlForRole ?h ''app''" using parts by (intro ttl_positive [of _ demo_cfg]) simp_all
  have bind: "CheckBinding (h_rbac ?h) (lr_Role ?req) (id_Namespace ?i) (id_ServiceAccount ?i)"
    by (simp add: parts CheckBinding_iff NewRBAC_def buildRoles_def applyEnvOverrides_def applyDefaults_def demo_file_def demo_identity_def)
  obtain toks where issue: "IssueToken (ev_rnd1 demo_login_env) (ev_rnd2 demo_login_env) (ev_clock demo_login_env 1)
      (?i\<lparr>id_Role := lr_Role ?req\<rparr>) (ttlForRole ?h (lr_Role ?req)) (h_tokens ?h) = (Inr (''ab'', ''01''), toks)"
    by (simp add: IssueToken_def NewTokenStore_def demo_hex active_count_def parts quota)
  have inv: "store_inv (h_tokens ?h)" using started_handlers_ok [OF assms(1)] by (simp add: handlers_ok_def)
  have "VerifyToken 11 ''ab'' toks = Some demo_identity"
    using tokens.issued_token_verifies [OF inv issue, of 11] ttl by (simp add: demo_identity_def)
  moreover have "\<exists>rw' wd. K8sLoginHandler demo_login_env r rw ?h w0 = (None, rw', ?h\<lparr>h_tokens := toks\<rparr>, wd)"
    if "login_fields r = Some ?req" for r rw w0
    using Login_bound [OF that demo_reviewed bind issue, of rw w0] by auto
  ultimately show ?thesis by blast
qed

lemma fresh_aws_reads:
  "\<exists>v b' w1. backend_GetSecret demo_remotes t1 t2 ''db'' (AWS (aws_newWithClient c True)) w = (Inr v, b', w1)"
proof -
  let ?b = "AWS (aws_newWithClient c True)"
  obtain res b' w1 where get: "backend_GetSecret demo_remotes t1 t2 ''db'' ?b w = (res, b', w1)"
    by (cases "backend_GetSecret demo_remotes t1 t2 ''db'' ?b w")
  have ok: "backend_ok ?b (w_heap w)" by (simp add: aws_newWithClient_def aws_ok_def new_cache_ok)
  have view: "backend_view ?b (w_heap w) t1 ''db'' = Miss" by (simp add: aws_newWithClient_def aws_view_def new_cache_misses)
  have "Unmarshal_map ''plain'' = None"
    by (simp add: Unmarshal_map_def parse_json_def dispatch_def code_def digit19_def)
  then have "backend_answer demo_remotes ?b ''db'' = Value (Some [''value'' \<mapsto> ''plain''])"
    by (simp add: demo_remotes_def aws_answer_def aws_fetch_def parseSecret_def)
  with be.result [OF ok get] view get show ?thesis by (auto simp: result_ok_def)
qed

text \<open>The demo gateway after the login: the token verifies, the role covers the path, and the backend is fresh.\<close>

lemma demo_gateway_admits:
  obtains gt w toks c where "gateway_run demo_main (w_heap demo_world) = Running gt w" "gt_cfg gt = demo_cfg"
    "mw_rateLimit (gt_middleware gt) = cfg_RateLimit demo_cfg" "mw_cors (gt_middleware gt) = cfg_CORS demo_cfg"
    "mw_maxBodyBytes (gt_middleware gt) = sv_MaxRequestBodySize (cfg_Server demo_cfg)"
    "h_backend (gt_handlers gt) = Some (AWS (aws_newWithClient c True))"
    "\<And>r rw w0. login_fields r = Some \<lparr>lr_JWT = ''j'', lr_Role = ''app''\<rparr> \<Longrightarrow>
      \<exists>rw' wd. K8sLoginHandler demo_login_env r rw (gt_handlers gt) w0 = (None, rw', (gt_handlers gt)\<lparr>h_tokens := toks\<rparr>, wd)"
    "VerifyToken (ev_clock demo_env 1) (req_Header (demo_read ''db'' ''ab'') ''X-Vault-Token'') toks = Some demo_identity"
    "CheckAccess (h_rbac (gt_handlers gt)) (Some demo_identity) ''db''"
proof -
  obtain gt w where run: "gateway_run demo_main (w_heap demo_world) = Running gt w" and cfg: "gt_cfg gt = demo_cfg"
    and cors: "mw_cors (gt_middleware gt) = cfg_CORS demo_cfg"
    and body: "mw_maxBodyBytes (gt_middleware gt) = sv_MaxRequestBodySize (cfg_Server demo_cfg)"
    and be: "h_backend (gt_handlers gt) = Some (AWS (aws_newWithClient
       \<lparr>ac_Region = '''', ac_SecretPrefix = fa_SecretPrefix (cfg_AWS demo_cfg), ac_EndpointURL = '''', ac_MaxRetries = 0,
        ac_Cache = ToCache (fa_Cache (cfg_AWS demo_cfg))\<rparr> True))"
    using demo_starts by blast
  have rl: "mw_rateLimit (gt_middleware gt) = cfg_RateLimit demo_cfg" using gateway_run_Running [OF run] cfg by auto
  obtain toks where tok: "VerifyToken 11 ''ab'' toks = Some demo_identity"
    and login: "\<And>r rw w0. login_fields r = Some \<lparr>lr_JWT = ''j'', lr_Role = ''app''\<rparr> \<Longrightarrow>
      \<exists>rw' wd. K8sLoginHandler demo_login_env r rw (gt_handlers gt) w0 = (None, rw', (gt_handlers gt)\<lparr>h_tokens := toks\<rparr>, wd)"
    using demo_gateway_login [OF run cfg] by blast
  have auth: "VerifyToken (ev_clock demo_env 1) (req_Header (demo_read ''db'' ''ab'') ''X-Vault-Token'') toks = Some demo_identity"
    using tok by (simp add: demo_env_def demo_read_def)
  have "MatchPath ''**'' ''db''" by code_simp
  then have "CheckAccess (h_rbac (gt_handlers gt)) (Some demo_identity) ''db''"
    using gateway_run_Running [OF run] cfg
    by (auto simp: CheckAccess_binding CheckBinding_iff NewRBAC_def buildRoles_def applyEnvOverrides_def applyDefaults_def
        demo_file_def demo_identity_def any_pattern_iff)
  from that [OF run cfg rl cors body be login auth this] show thesis .
qed

lemma demo_gateway_serves:
  "\<exists>gt w w' g' resp. gateway_run demo_main (w_heap demo_world) = Running gt w \<and>
     serve (gt_middleware gt) demo_me demo_env (demo_read ''db'' ''ab'') new_response
       (srv_run (gt_middleware gt) [Serve demo_me demo_login_env (demo_login demo_login_text)] (start_state gt w)) = (None, w', g') \<and>
     BSecret resp \<in> set (rw_body w')"
proof -
  let ?r = "demo_read ''db'' ''ab''" and ?l = "demo_login demo_login_text"
  obtain gt w toks c where run: "gateway_run demo_main (w_heap demo_world) = Running gt w"
    and gate: "mw_rateLimit (gt_middleware gt) = cfg_RateLimit demo_cfg" "mw_cors (gt_middleware gt) = cfg_CORS demo_cfg"
    and body: "mw_maxBodyBytes (gt_middleware gt) = sv_MaxRequestBodySize (cfg_Server demo_cfg)"
    and be: "h_backend (gt_handlers gt) = Some (AWS (aws_newWithClient c True))"
    and login: "\<And>r rw w0. login_fields r = Some \<lparr>lr_JWT = ''j'', lr_Role = ''app''\<rparr> \<Longrightarrow>
      \<exists>rw' wd. K8sLoginHandler demo_login_env r rw (gt_handlers gt) w0 = (None, rw', (gt_handlers gt)\<lparr>h_tokens := toks\<rparr>, wd)"
    and auth: "VerifyToken (ev_clock demo_env 1) (req_Header ?r ''X-Vault-Token'') toks = Some demo_identity"
    and access: "CheckAccess (h_rbac (gt_handlers gt)) (Some demo_identity) ''db''"
    by (rule demo_gateway_admits) blast
  let ?m = "gt_middleware gt" and ?b = "AWS (aws_newWithClient c True)"
  note open_gate = demo_open_gate [OF gate]
  have to_login: "route (req_Method ?l) (req_EscapedPath ?l) = ToLogin" by (simp add: demo_login_def) code_simp
  have small: "MaxBytesReader (mw_maxBodyBytes ?m) (req_Body ?l) = req_Body ?l"
    by (simp add: body MaxBytesReader_def demo_login_def demo_login_text_def applyEnvOverrides_def applyDefaults_def demo_file_def or_default_def)
  have handled: "\<exists>w1 wd. K8sLoginHandler demo_login_env r0 w0 (g_handlers (start_state gt w)) (g_world (start_state gt w)) =
      (None, w1, (gt_handlers gt)\<lparr>h_tokens := toks\<rparr>, wd)" if "req_Body r0 = req_Body ?l" for r0 w0
    using login [of r0 w0] demo_login_fields that by (simp add: login_fields_def)
  obtain g1 where g1: "srv_run ?m [Serve demo_me demo_login_env ?l] (start_state gt w) = g1"
    and h1: "g_handlers g1 = (gt_handlers gt)\<lparr>h_tokens := toks\<rparr>"
    using serve_login [OF open_gate to_login small handled, of demo_me new_response] by (auto simp: srv_run_def)
  have routed: "route (req_Method ?r) (req_EscapedPath ?r) = ToSecret ''db''" by (simp add: demo_read_def demo_route)
  have path: "TrimPrefix ''db'' ''/'' = ''db''" by (simp add: TrimPrefix_def HasPrefix_def)
  have state: "h_tokens (g_handlers g1) = toks" "h_rbac (g_handlers g1) = h_rbac (gt_handlers gt)" "h_backend (g_handlers g1) = Some ?b"
    by (simp_all add: h1 be)
  obtain v b' w1 where get: "backend_GetSecret (ev_remotes demo_env) (ev_clock demo_env 2) (ev_clock demo_env 3) ''db'' ?b (g_world g1) = (Inr v, b', w1)"
    using fresh_aws_reads by (simp add: demo_env_def) blast
  have "rw_sent new_response = None" by (simp add: new_response_def)
  from serve_read [OF open_gate this routed, unfolded path, OF demo_path(2) auth [folded state(1)] access [folded state(2)] state(3) get] run g1
  show ?thesis by blast
qed

end
