(* ===== verification/Concurrent_Properties.thy ===== *)
theory Concurrent_Properties
  imports Concurrent_Gateway Gateway_History
begin

text \<open>
  The gateway under concurrent requests: what a started gateway guarantees to every goroutine in every
  interleaving, and that a goroutine ends by its own steps.
\<close>

subsection \<open>Goroutines end\<close>

text \<open>The number of steps a goroutine still has at most.\<close>

fun get_left :: "get_pc \<Rightarrow> nat" where
  "get_left GetLookup = 5"
| "get_left GetAsk = 4"
| "get_left (GetAnswer out) = 3"
| "get_left (GetStored v) = 2"
| "get_left (GetCounted v n) = 1"
| "get_left (GetReturn res) = 0"

fun read_left :: "read_pc \<Rightarrow> nat" where
  "read_left ReadArrived = 8"
| "read_left (ReadGetting i start pc) = get_left pc + 2"
| "read_left (ReadWritten v rw) = 1"
| "read_left (ReadDone p rw) = 0"

fun login_left :: "login_pc \<Rightarrow> nat" where
  "login_left LoginArrived = 4"
| "login_left (LoginReviewed start req i) = 3"
| "login_left (LoginIssued start req i tok) = 2"
| "login_left (LoginCounted start req i tok n) = 1"
| "login_left (LoginDone rw) = 0"

fun sweep_left :: "sweep_pc \<Rightarrow> nat" where
  "sweep_left SweepArrived = 3"
| "sweep_left SweepPurged = 2"
| "sweep_left (SweepCounted n) = 1"
| "sweep_left SweepDone = 0"

fun steps_left :: "goroutine \<Rightarrow> nat" where
  "steps_left (Reading r rw pc) = read_left pc"
| "steps_left (LoggingIn r rw pc) = login_left pc"
| "steps_left (Sweeping pc) = sweep_left pc"
| "steps_left (Checking r rw res) = (if res = None then 1 else 0)"

fun finished :: "goroutine \<Rightarrow> bool" where
  "finished (Reading r rw pc) = (\<exists>p rw'. pc = ReadDone p rw')"
| "finished (LoggingIn r rw pc) = (\<exists>rw'. pc = LoginDone rw')"
| "finished (Sweeping pc) = (pc = SweepDone)"
| "finished (Checking r rw res) = (res \<noteq> None)"

lemma get_step_left: "get_step rs t1 t2 path pc b w = (pc', b', w') \<Longrightarrow> \<forall>res. pc \<noteq> GetReturn res \<Longrightarrow> get_left pc' < get_left pc"
  by (cases pc) (auto simp: Let_def split: prod.splits if_splits outcome.splits)

lemma read_step_left: "read_step ev r rw pc h w = Some (pc', s) \<Longrightarrow> read_left pc' < read_left pc"
proof (cases pc)
  case (ReadGetting i start gpc)
  assume step: "read_step ev r rw pc h w = Some (pc', s)"
  show ?thesis
  proof (cases gpc)
    case (GetReturn res)
    with step ReadGetting show ?thesis by (cases res) (auto split: prod.splits)
  qed (use step ReadGetting in \<open>auto simp del: get_step.simps split: option.splits prod.splits dest!: get_step_left\<close>)+
qed (auto simp: Let_def split: sum.splits option.splits if_splits)

lemma login_step_left: "login_step ev r rw pc h w = Some (pc', s) \<Longrightarrow> login_left pc' < login_left pc"
proof (cases pc)
  case LoginArrived
  assume "login_step ev r rw pc h w = Some (pc', s)"
  with LoginArrived login_arrived(2) [of ev r rw h w pc' "fst s" "snd s"] show ?thesis by auto
qed (auto simp: Let_def split: sum.splits prod.splits)

lemma goroutine_step_left: "goroutine_step ev g s = Some (g', s') \<Longrightarrow> steps_left g' < steps_left g"
proof (cases g)
  case (Sweeping pc)
  assume "goroutine_step ev g s = Some (g', s')"
  with Sweeping show ?thesis by (cases pc; cases s) auto
next
  case (Checking r rw res)
  assume "goroutine_step ev g s = Some (g', s')"
  with Checking show ?thesis by (cases res; cases s) (auto split: prod.splits)
qed (cases s; auto dest: read_step_left login_step_left)+

lemma goroutine_step_None: "goroutine_step ev g s = None \<longleftrightarrow> finished g"
proof (cases g)
  case (Reading r rw pc)
  have "read_step ev r rw pc h w = None \<longleftrightarrow> (\<exists>p rw'. pc = ReadDone p rw')" for h w
  proof (cases pc)
    case (ReadGetting i start gpc)
    then show ?thesis by (cases gpc) (auto simp del: get_step.simps split: sum.split prod.split option.split)
  qed (auto simp: Let_def split: sum.split option.split)
  with Reading show ?thesis by (cases s) simp
next
  case (LoggingIn r rw pc)
  have "login_step ev r rw pc h w = None \<longleftrightarrow> (\<exists>rw'. pc = LoginDone rw')" for h w
    by (cases pc) (auto simp: Let_def split: sum.split option.split prod.split)
  with LoggingIn show ?thesis by (cases s) simp
next
  case (Sweeping pc)
  then show ?thesis by (cases pc; cases s) auto
next
  case (Checking r rw res)
  then show ?thesis by (cases res; cases s) (auto split: prod.split)
qed

lemma finished_iff: "finished g \<longleftrightarrow> steps_left g = 0"
proof (cases g)
  case (Reading r rw pc)
  then show ?thesis by (cases pc) auto
next
  case (LoggingIn r rw pc)
  then show ?thesis by (cases pc) auto
next
  case (Sweeping pc)
  then show ?thesis by (cases pc) auto
qed simp

definition own_steps :: "nat \<Rightarrow> moves \<Rightarrow> nat" where
  "own_steps i tr = length (filter (\<lambda>(j, _, _). j = i) tr)"

lemma steps_bounded:
  assumes "interleaved gateway_step starts st0 P st" and "snd st0 = []"
  shows "(\<forall>i. P i = None \<longrightarrow> own_steps i (snd st) = 0) \<and> (\<forall>i g. P i = Some g \<longrightarrow> own_steps i (snd st) + steps_left g \<le> 8)"
  using assms(1)
proof (induction rule: interleaved.induct)
  case idle
  with assms(2) show ?case by (simp add: own_steps_def)
next
  case (spawn P st i g)
  then have "steps_left g \<le> 8" by (cases g) auto
  with spawn show ?case by auto
next
  case (move P st i g ev g' st')
  then have left: "steps_left g' < steps_left g" and moves: "snd st' = (i, g, ev) # snd st"
    by (cases st; auto dest: goroutine_step_left)+
  have "own_steps j (snd st') = (if j = i then Suc (own_steps j (snd st)) else own_steps j (snd st))" for j
    by (simp add: moves own_steps_def)
  with left move.IH move.hyps(2) show ?case by fastforce
qed

subsection \<open>The start\<close>

text \<open>A started gateway has an empty cache and no tokens, so the shared assertion holds.\<close>

lemma vault_New_cache:
  assumes "vault_New env c m w = (Inr b, w')"
  shows "\<exists>cc. vb_cache b = cache_New cc"
  using assms
  by (auto simp: vault_New_def slog_def Let_def dest!: vault_login_cache split: if_splits sum.splits option.splits prod.splits)

lemma new_caches:
  "aws_New L N c m w = (Inr (k, b), w') \<Longrightarrow> \<exists>cc. aws_cache b = cache_New cc"
  "azure_New cred cl zc m = Inr (kz, zb) \<Longrightarrow> \<exists>cc. az_cache zb = cache_New cc"
  "gcp_New gl gc m w = (Inr (kg, gb), w') \<Longrightarrow> \<exists>cc. gcp_cache gb = cache_New cc"
  by (auto simp: aws_New_def azure_New_def azure_newWithClient_def gcp_New_def Let_def split: if_splits sum.splits)

lemma buildBackend_cache:
  assumes "buildBackend sdk cfg m w = (Inr b, w')"
  shows "\<exists>cc. backend_cache b = cache_New cc"
  using assms
  by (auto simp: buildBackend_def Let_def dest: new_caches vault_New_cache split: if_splits sum.splits prod.splits)

lemma started_cache:
  assumes "gateway_run mn hp = Running gt w"
  obtains b cc where "h_backend (gt_handlers gt) = Some b" "backend_cache b = cache_New cc"
proof -
  obtain cfg where load: "Load (mn_ReadFile mn) (mn_Unmarshal mn) (mn_LookupEnv mn) (mn_stat mn) (mn_role_order mn) (mn_configPath mn) = Inr cfg"
    and flags: "\<not> mn_showVersion mn" "mn_configPath mn \<noteq> []"
    using assms by (auto simp: gateway_run_def split: if_splits sum.splits)
  let ?w = "\<lparr>w_heap = hp, w_metrics = SetInfo (bi_Version (mn_build mn)) (cfg_Backend cfg) (bi_GoVersion (mn_build mn)) metrics_New, w_log = []\<rparr>"
  obtain b w1 where b: "buildBackend (mn_sdk mn) cfg True ?w = (Inr b, w1)"
    using assms load flags by (auto simp: gateway_run_def Let_def split: sum.splits prod.splits)
  then have "h_backend (gt_handlers gt) = Some b"
    using assms load flags by (auto simp: gateway_run_def NewHandlers_def NewMiddleware_def Let_def split: sum.splits if_splits)
  with buildBackend_cache [OF b] that show thesis by blast
qed

lemma started_ok:
  assumes "gateway_run mn hp = Running gt w"
  obtains b where "h_backend (gt_handlers gt) = Some b" "\<And>w'. gateway_ok (gt_handlers gt) b ((gt_handlers gt, w'), [])"
proof -
  obtain b cc where b: "h_backend (gt_handlers gt) = Some b" "backend_cache b = cache_New cc"
    using started_cache [OF assms] .
  obtain m where m: "h_tokens (gt_handlers gt) = NewTokenStore m" using gateway_run_Running [OF assms] by auto
  have "store_inv (h_tokens (gt_handlers gt))" using started_handlers_ok [OF assms] by (simp add: handlers_ok_def)
  moreover have "set_cache (cache_New cc) b = b" using set_cache_parts(6) [of b] b(2) by simp
  moreover have "cache_backed b [] (cache_New cc) h" for h
    by (simp add: cache_backed_def new_cache_misses entry_backed_def)
  ultimately have "gateway_ok (gt_handlers gt) b ((gt_handlers gt, w'), [])" for w'
    using b m by (auto simp: gateway_ok_def store_backed_def same_config_def new_cache_ok intro!: exI [of _ "cache_New cc"])
  with b(1) that show thesis by blast
qed

text \<open>A program that runs alone for a while is one of the interleavings.\<close>

lemma alone_is_concurrent:
  assumes "concurrent s0 P (s, tr)" and "P i = Some g" and "run_alone (goroutine_step ev) n g s = (g', s')"
  shows "\<exists>tr'. concurrent s0 (P(i := Some g')) (s', tr')"
  using assms
proof (induction n arbitrary: g P s tr)
  case 0
  then show ?case by (auto simp: fun_upd_idem)
next
  case (Suc n)
  show ?case
  proof (cases "goroutine_step ev g s")
    case None
    with Suc.prems show ?thesis by (auto simp: fun_upd_idem)
  next
    case (Some gs)
    obtain g1 s1 where gs: "gs = (g1, s1)" by (cases gs)
    have "concurrent s0 (P(i := Some g1)) (s1, (i, g, ev) # tr)"
      using interleaved.move [OF Suc.prems(1,2), of ev g1] Some gs by simp
    moreover have "run_alone (goroutine_step ev) n g1 s1 = (g', s')" using Suc.prems(3) Some gs by simp
    moreover have "(P(i := Some g1)) i = Some g1" by simp
    ultimately have "\<exists>tr'. concurrent s0 ((P(i := Some g1))(i := Some g')) (s', tr')" by (metis Suc.IH)
    then show ?thesis by (simp only: fun_upd_upd)
  qed
qed

subsection \<open>What the goroutines of a started gateway do\<close>

text \<open>The response a read has written, if it has.\<close>

fun read_response :: "read_pc \<Rightarrow> ResponseWriter option" where
  "read_response (ReadWritten v rw) = Some rw"
| "read_response (ReadDone p rw) = Some rw"
| "read_response _ = None"

lemma response_truthful:
  assumes "gateway_ok h0 b (s0, [])" and "concurrent s0 P (s, tr)" and "P i = Some (Reading r rw pc)" and "read_response pc = Some rw'"
  shows "truthful h0 b tr i r rw'"
  using gateway.own_always [OF assms(2,1,3)] assms(4) by (cases pc) (auto simp: goroutine_ok_def split: prod.splits)

lemma admitted_is_backed:
  assumes "admitted h0 tr i r who"
  shows "\<exists>later rw ev before j r0 rw0 ev0 start req0 who0 ev1 req status ns sa rl pattern.
    tr = later @ (i, Reading r rw ReadArrived, ev) # before \<and> Validate (read_path r) = Inr () \<and>
    (j, LoggingIn r0 rw0 LoginArrived, ev0) \<in> set before \<and> (j, LoggingIn r0 rw0 (LoginReviewed start req0 who0), ev1) \<in> set before \<and>
    login_fields r0 = Some req \<and>
    ev_reviews ev0 (v_timeout (h_validator h0)) \<lparr>spec_Token = lr_JWT req, spec_Audiences = v_audience (h_validator h0)\<rparr> = Inr status \<and>
    st_Authenticated status \<and> st_Username status = ''system:serviceaccount:'' @ ns @ '':'' @ sa \<and>
    roles (h_rbac h0) (lr_Role req) = Some rl \<and> ns \<in> set (AllowedNamespaces rl) \<and>
    (''*'' \<in> set (AllowedServiceAccounts rl) \<or> sa \<in> set (AllowedServiceAccounts rl)) \<and>
    randomHex (ev_rnd1 ev1) = Some (req_Header r ''X-Vault-Token'') \<and>
    ev_clock ev 1 \<le> ev_clock ev1 1 + ttlForRole h0 (lr_Role req) \<and>
    pattern \<in> set (AllowedPaths rl) \<and> MatchPath pattern (read_path r)"
proof -
  obtain later rw ev before h where a: "tr = later @ (i, Reading r rw ReadArrived, ev) # before" "Validate (read_path r) = Inr ()"
      "VerifyToken (ev_clock ev 1) (req_Header r ''X-Vault-Token'') (h_tokens h) = Some who"
      "CheckAccess (h_rbac h) (Some who) (read_path r)" "tokens_from h0 (logins_of before) (h_tokens h)"
      "same_config h0 h" "store_inv (h_tokens h)"
    using assms by (auto simp: admitted_def authorized_def)
  obtain ev2 r0 req status ns sa rl pattern where login: "(ev2, r0) \<in> logins_of before" "login_fields r0 = Some req"
      "ev_reviews ev2 (v_timeout (h_validator h0)) \<lparr>spec_Token = lr_JWT req, spec_Audiences = v_audience (h_validator h0)\<rparr> = Inr status"
      "st_Authenticated status" "st_Username status = ''system:serviceaccount:'' @ ns @ '':'' @ sa"
      "roles (h_rbac h0) (lr_Role req) = Some rl" "ns \<in> set (AllowedNamespaces rl)"
      "''*'' \<in> set (AllowedServiceAccounts rl) \<or> sa \<in> set (AllowedServiceAccounts rl)"
      "randomHex (ev_rnd1 ev2) = Some (req_Header r ''X-Vault-Token'')"
      "ev_clock ev 1 \<le> ev_clock ev2 1 + ttlForRole h0 (lr_Role req)"
      "pattern \<in> set (AllowedPaths rl)" "MatchPath pattern (read_path r)"
    using token_is_backed [OF a(5,6,7,3,4)] by blast
  obtain j rw0 start req0 who0 ev0 ev1 where l: "ev2 = ev1\<lparr>ev_reviews := ev_reviews ev0\<rparr>"
      "(j, LoggingIn r0 rw0 (LoginReviewed start req0 who0), ev1) \<in> set before" "(j, LoggingIn r0 rw0 LoginArrived, ev0) \<in> set before"
    using login(1) unfolding logins_of_def by blast
  from l(1) have "ev_reviews ev2 = ev_reviews ev0" "ev_rnd1 ev2 = ev_rnd1 ev1" "ev_clock ev2 = ev_clock ev1" by simp_all
  note login' = login(2-) [unfolded this]
  from a(1,2) l(2,3) login' show ?thesis by (intro exI conjI) assumption+
qed

text \<open>
  C3. Under concurrent requests a started gateway gives secrets only to the workloads its configuration
  names. However the goroutines of reads, logins, sweeps and health checks interleave: if a read has
  written a response with a secret, then its own first step verified a token for a valid path, and before
  that step another goroutine had reviewed and issued that token in a login: the Kubernetes API server
  authenticated the service account, a role of the configuration file admits its namespace and name, the
  token was within the lifetime the file gives it, and a path pattern of the role matches the path.
\<close>

theorem concurrent_secrets_are_authorized:
  assumes "gateway_run mn hp = Running gt w"
    and "concurrent (gt_handlers gt, g_world (start_state gt w)) P (s, tr)"
    and "P i = Some (Reading r rw pc)" and "read_response pc = Some rw'" and "BSecret resp \<in> set (rw_body rw')"
  shows "\<exists>later rw1 ev before j r0 rw0 ev0 start req0 who0 ev1 req status ns sa role pattern.
    tr = later @ (i, Reading r rw1 ReadArrived, ev) # before \<and> Validate (read_path r) = Inr () \<and>
    (j, LoggingIn r0 rw0 LoginArrived, ev0) \<in> set before \<and> (j, LoggingIn r0 rw0 (LoginReviewed start req0 who0), ev1) \<in> set before \<and>
    login_fields r0 = Some req \<and>
    ev_reviews ev0 (v_timeout (h_validator (gt_handlers gt)))
      \<lparr>spec_Token = lr_JWT req, spec_Audiences = v_audience (h_validator (gt_handlers gt))\<rparr> = Inr status \<and>
    st_Authenticated status \<and> st_Username status = ''system:serviceaccount:'' @ ns @ '':'' @ sa \<and>
    at_Roles (cfg_Auth (gt_cfg gt)) (lr_Role req) = Some role \<and> ns \<in> set (ro_AllowedNamespaces role) \<and>
    (''*'' \<in> set (ro_AllowedServiceAccounts role) \<or> sa \<in> set (ro_AllowedServiceAccounts role)) \<and>
    randomHex (ev_rnd1 ev1) = Some (req_Header r ''X-Vault-Token'') \<and>
    ev_clock ev 1 \<le> ev_clock ev1 1 + (if 0 < ro_TokenTTL role then ro_TokenTTL role else at_TokenTTL (cfg_Auth (gt_cfg gt))) \<and>
    pattern \<in> set (ro_AllowedPaths role) \<and> MatchPath pattern (read_path r)"
proof -
  obtain b where "gateway_ok (gt_handlers gt) b ((gt_handlers gt, g_world (start_state gt w)), [])" using started_ok [OF assms(1)] by blast
  from response_truthful [OF this assms(2-4)] assms(5) obtain who where "admitted (gt_handlers gt) tr i r who"
    by (auto simp: truthful_def)
  from admitted_is_backed [OF this] obtain later rw1 ev before j r0 rw0 ev0 start req0 who0 ev1 req status ns sa rl pattern where
    facts: "tr = later @ (i, Reading r rw1 ReadArrived, ev) # before" "Validate (read_path r) = Inr ()"
      "(j, LoggingIn r0 rw0 LoginArrived, ev0) \<in> set before" "(j, LoggingIn r0 rw0 (LoginReviewed start req0 who0), ev1) \<in> set before"
      "login_fields r0 = Some req"
      "ev_reviews ev0 (v_timeout (h_validator (gt_handlers gt)))
        \<lparr>spec_Token = lr_JWT req, spec_Audiences = v_audience (h_validator (gt_handlers gt))\<rparr> = Inr status"
      "st_Authenticated status" "st_Username status = ''system:serviceaccount:'' @ ns @ '':'' @ sa"
    and rl: "roles (h_rbac (gt_handlers gt)) (lr_Role req) = Some rl" "ns \<in> set (AllowedNamespaces rl)"
      "''*'' \<in> set (AllowedServiceAccounts rl) \<or> sa \<in> set (AllowedServiceAccounts rl)"
    and tok: "randomHex (ev_rnd1 ev1) = Some (req_Header r ''X-Vault-Token'')"
      "ev_clock ev 1 \<le> ev_clock ev1 1 + ttlForRole (gt_handlers gt) (lr_Role req)"
    and pat: "pattern \<in> set (AllowedPaths rl)" "MatchPath pattern (read_path r)"
    by blast
  obtain role where role: "at_Roles (cfg_Auth (gt_cfg gt)) (lr_Role req) = Some role"
      "rl = \<lparr>AllowedNamespaces = ro_AllowedNamespaces role, AllowedServiceAccounts = ro_AllowedServiceAccounts role,
             AllowedPaths = ro_AllowedPaths role\<rparr>"
      "ttlForRole (gt_handlers gt) (lr_Role req) = (if 0 < ro_TokenTTL role then ro_TokenTTL role else at_TokenTTL (cfg_Auth (gt_cfg gt)))"
    using started_role [OF assms(1) rl(1)] .
  show ?thesis
    using facts role(1) rl(2,3) [unfolded role(2)] tok [unfolded role(3)] pat [unfolded role(2)]
    by (intro exI conjI) (assumption | simp)+
qed

text \<open>The demo gateway with a login and a read in flight at the same time, when the login has been served.\<close>

lemma demo_in_flight:
  obtains gt w P h1 wd tr c where "gateway_run demo_main (w_heap demo_world) = Running gt w"
    "concurrent (gt_handlers gt, g_world (start_state gt w)) P ((h1, wd), tr)"
    "P 1 = Some (Reading (demo_read ''db'' ''ab'') new_response ReadArrived)"
    "authorized demo_env (demo_read ''db'' ''ab'') h1 demo_identity" "h_backend h1 = Some (AWS (aws_newWithClient c True))"
proof -
  let ?r = "demo_read ''db'' ''ab''" and ?l = "demo_login demo_login_text"
  obtain gt w toks c where run: "gateway_run demo_main (w_heap demo_world) = Running gt w"
    and be: "h_backend (gt_handlers gt) = Some (AWS (aws_newWithClient c True))"
    and login: "\<And>r rw w0. login_fields r = Some \<lparr>lr_JWT = ''j'', lr_Role = ''app''\<rparr> \<Longrightarrow>
      \<exists>rw' wd. K8sLoginHandler demo_login_env r rw (gt_handlers gt) w0 = (None, rw', (gt_handlers gt)\<lparr>h_tokens := toks\<rparr>, wd)"
    and auth: "VerifyToken (ev_clock demo_env 1) (req_Header ?r ''X-Vault-Token'') toks = Some demo_identity"
    and access: "CheckAccess (h_rbac (gt_handlers gt)) (Some demo_identity) ''db''"
    by (rule demo_gateway_admits) blast
  let ?h = "gt_handlers gt" and ?w = "g_world (start_state gt w)" and ?h1 = "(gt_handlers gt)\<lparr>h_tokens := toks\<rparr>"
  let ?P0 = "(\<lambda>_. None)(0 := Some (LoggingIn ?l new_response LoginArrived))" and ?g1 = "Reading ?r new_response ReadArrived"
  have new: "unwritten new_response" by (simp add: unwritten_def new_response_def)
  have "concurrent (?h, ?w) ?P0 ((?h, ?w), [])" by (rule interleaved.spawn [OF interleaved.idle]) (use new in auto)
  then have both: "concurrent (?h, ?w) (?P0(1 := Some ?g1)) ((?h, ?w), [])" by (rule interleaved.spawn) (use new in auto)
  obtain rw0 wd where logged: "K8sLoginHandler demo_login_env ?l new_response ?h ?w = (None, rw0, ?h1, wd)"
    using login [OF demo_login_fields] by blast
  have "run_alone (goroutine_step demo_login_env) 4 (LoggingIn ?l new_response LoginArrived) (?h, ?w) =
      (LoggingIn ?l new_response (LoginDone rw0), ?h1, wd)" by (simp add: login_alone logged)
  from alone_is_concurrent [OF both _ this, of 0] obtain tr1 where
    one: "concurrent (?h, ?w) (?P0(1 := Some ?g1, 0 := Some (LoggingIn ?l new_response (LoginDone rw0)))) ((?h1, wd), tr1)" by auto
  show thesis
    by (rule that [OF run one]) (use auth access be in \<open>simp_all add: authorized_def demo_path\<close>)
qed

lemma demo_concurrent:
  obtains gt w P s tr rw' resp where "gateway_run demo_main (w_heap demo_world) = Running gt w"
    "concurrent (gt_handlers gt, g_world (start_state gt w)) P (s, tr)"
    "P 1 = Some (Reading (demo_read ''db'' ''ab'') new_response (ReadDone None rw'))" "BSecret resp \<in> set (rw_body rw')"
proof -
  let ?r = "demo_read ''db'' ''ab''"
  obtain gt w P h1 wd tr c where run: "gateway_run demo_main (w_heap demo_world) = Running gt w"
    and one: "concurrent (gt_handlers gt, g_world (start_state gt w)) P ((h1, wd), tr)" "P 1 = Some (Reading ?r new_response ReadArrived)"
    and auth: "authorized demo_env ?r h1 demo_identity" and be: "h_backend h1 = Some (AWS (aws_newWithClient c True))"
    by (rule demo_in_flight) blast
  obtain v b' w1 where get: "backend_GetSecret (ev_remotes demo_env) (ev_clock demo_env 2) (ev_clock demo_env 3) ''db''
      (AWS (aws_newWithClient c True)) wd = (Inr v, b', w1)" using fresh_aws_reads by (simp add: demo_env_def) blast
  let ?rw' = "writeJSON 200 (secret_body demo_env ?r (map_option (cells (w_heap w1)) v)) new_response"
  obtain h2 w2 where read: "SecretReadHandler demo_env ?r new_response h1 wd = (None, ?rw', h2, w2)"
    using SecretRead_authorized [OF _ auth, of new_response wd] get be by (simp add: demo_path Let_def)
  have "run_alone (goroutine_step demo_env) 8 (Reading ?r new_response ReadArrived) (h1, wd) =
      (Reading ?r new_response (ReadDone None ?rw'), h2, w2)" by (simp add: read_alone read)
  from alone_is_concurrent [OF one this] obtain tr2 where
    two: "concurrent (gt_handlers gt, g_world (start_state gt w)) (P(1 := Some (Reading ?r new_response (ReadDone None ?rw')))) ((h2, w2), tr2)" ..
  obtain resp where "BSecret resp \<in> set (rw_body ?rw')" by (simp add: secret_body_def new_response_def)
  from that [OF run two _ this] show thesis by simp
qed

theorem concurrent_secrets_are_authorized_witness:
  "\<exists>gt w P s tr j r0 rw0 ev0 role pattern. gateway_run demo_main (w_heap demo_world) = Running gt w \<and>
     concurrent (gt_handlers gt, g_world (start_state gt w)) P (s, tr) \<and> (j, LoggingIn r0 rw0 LoginArrived, ev0) \<in> set tr \<and>
     (\<exists>req. login_fields r0 = Some req \<and> at_Roles (cfg_Auth (gt_cfg gt)) (lr_Role req) = Some role) \<and>
     pattern \<in> set (ro_AllowedPaths role) \<and> MatchPath pattern ''db''"
proof -
  obtain gt w P s tr rw' resp where run: "gateway_run demo_main (w_heap demo_world) = Running gt w"
    and conc: "concurrent (gt_handlers gt, g_world (start_state gt w)) P (s, tr)"
    and P: "P 1 = Some (Reading (demo_read ''db'' ''ab'') new_response (ReadDone None rw'))" and body: "BSecret resp \<in> set (rw_body rw')"
    by (rule demo_concurrent) blast
  have "read_response (ReadDone None rw') = Some rw'" by simp
  from concurrent_secrets_are_authorized [OF run conc P this body] obtain later rw1 ev before j r0 rw0 ev0 req role pattern where
    "tr = later @ (1, Reading (demo_read ''db'' ''ab'') rw1 ReadArrived, ev) # before" "(j, LoggingIn r0 rw0 LoginArrived, ev0) \<in> set before"
    "login_fields r0 = Some req" "at_Roles (cfg_Auth (gt_cfg gt)) (lr_Role req) = Some role"
    "pattern \<in> set (ro_AllowedPaths role)" "MatchPath pattern ''db''"
    unfolding demo_path by blast
  moreover from this have "(j, LoggingIn r0 rw0 LoginArrived, ev0) \<in> set tr" by auto
  ultimately show ?thesis using run conc by blast
qed

text \<open>
  C4. Concurrent reads answer with what the remote service said, and never with a map that another
  goroutine has emptied or that is not for the path. In every interleaving, the data of a secret that a
  read has written are the data the remote service returned for the key of the path, either to this
  goroutine or to one that stored them in the cache no longer before the lookup of this one than the
  lifetime of entries; a 404 is such an answer too, that the secret does not exist, or the failure of the
  goroutine's own call; and a 502 is a failure of its own call. All three are for admitted requests only.
\<close>

theorem concurrent_answers_come_from_the_service:
  assumes "gateway_run mn hp = Running gt w" and "h_backend (gt_handlers gt) = Some b"
    and "concurrent (gt_handlers gt, g_world (start_state gt w)) P (s, tr)"
    and "P i = Some (Reading r rw pc)" and "read_response pc = Some rw'"
  shows "(\<forall>resp. BSecret resp \<in> set (rw_body rw') \<longrightarrow>
      (\<exists>out. given b tr i r (Value out) \<and> alloc_deref (sd_Data (sr_Data resp)) = alloc_deref out)) \<and>
    (response_status rw' = Some 404 \<longrightarrow> given b tr i r Missing \<or> (\<exists>e. asked b tr i r (Failed e))) \<and>
    (response_status rw' = Some 502 \<longrightarrow> (\<exists>e. asked b tr i r (Failed e))) \<and>
    (response_status rw' \<in> {Some 200, Some 404, Some 502} \<longrightarrow> (\<exists>who. admitted (gt_handlers gt) tr i r who))"
proof -
  obtain b' where "h_backend (gt_handlers gt) = Some b'" "gateway_ok (gt_handlers gt) b' ((gt_handlers gt, g_world (start_state gt w)), [])"
    using started_ok [OF assms(1)] by blast
  with assms(2) have "gateway_ok (gt_handlers gt) b ((gt_handlers gt, g_world (start_state gt w)), [])" by simp
  from response_truthful [OF this assms(3-5)] show ?thesis by (auto simp: truthful_def)
qed

theorem concurrent_answers_come_from_the_service_witness:
  "\<exists>gt w b P s tr out. gateway_run demo_main (w_heap demo_world) = Running gt w \<and> h_backend (gt_handlers gt) = Some b \<and>
     concurrent (gt_handlers gt, g_world (start_state gt w)) P (s, tr) \<and> given b tr 1 (demo_read ''db'' ''ab'') (Value out)"
proof -
  obtain gt w P s tr rw' resp where run: "gateway_run demo_main (w_heap demo_world) = Running gt w"
    and conc: "concurrent (gt_handlers gt, g_world (start_state gt w)) P (s, tr)"
    and P: "P 1 = Some (Reading (demo_read ''db'' ''ab'') new_response (ReadDone None rw'))" and body: "BSecret resp \<in> set (rw_body rw')"
    by (rule demo_concurrent) blast
  obtain b where be: "h_backend (gt_handlers gt) = Some b" using started_ok [OF run] by blast
  have "read_response (ReadDone None rw') = Some rw'" by simp
  from concurrent_answers_come_from_the_service [OF run be conc P this] body run be conc show ?thesis by blast
qed

text \<open>
  C13. A map with a secret belongs to one goroutine. In every interleaving, a map that a goroutine has in
  hand is allocated, is not one of the maps the cache keeps, and is in the hands of no other goroutine: so
  when a read empties its map after writing the response, no other response and no cache entry changes.
\<close>

theorem secret_maps_have_one_owner:
  assumes "gateway_run mn hp = Running gt w"
    and "concurrent (gt_handlers gt, g_world (start_state gt w)) P ((h, w'), tr)" and "P i = Some g" and "a \<in> holds g"
  shows "a < next_addr (w_heap w') \<and> a \<notin> cached_maps h \<and> (\<forall>j k. P j = Some k \<longrightarrow> a \<in> holds k \<longrightarrow> j = i)"
proof -
  obtain b where start: "gateway_ok (gt_handlers gt) b ((gt_handlers gt, g_world (start_state gt w)), [])" using started_ok [OF assms(1)] by blast
  have "goroutine_ok (gt_handlers gt) b i ((h, w'), tr) g" using gateway.own_always [OF assms(2) start assms(3)] .
  moreover have "apart g k" if "P j = Some k" "j \<noteq> i" for j k
    using gateway.every_interleaving [OF assms(2) start] assms(3) that by metis
  ultimately show ?thesis using assms(4) by (auto simp: goroutine_ok_def apart_def)
qed

text \<open>A read that has put the answer into the cache holds the map it was made from.\<close>

lemma demo_in_hand:
  obtains gt w P h w' tr t a where "gateway_run demo_main (w_heap demo_world) = Running gt w"
    "concurrent (gt_handlers gt, g_world (start_state gt w)) P ((h, w'), tr)"
    "P 1 = Some (Reading (demo_read ''db'' ''ab'') new_response (ReadGetting demo_identity t (GetStored (Some a))))"
proof -
  let ?r = "demo_read ''db'' ''ab''"
  obtain gt w P h1 wd tr c where run: "gateway_run demo_main (w_heap demo_world) = Running gt w"
    and one: "concurrent (gt_handlers gt, g_world (start_state gt w)) P ((h1, wd), tr)" "P 1 = Some (Reading ?r new_response ReadArrived)"
    and auth: "authorized demo_env ?r h1 demo_identity" and be: "h_backend h1 = Some (AWS (aws_newWithClient c True))"
    by (rule demo_in_flight) blast
  have miss: "cache_Get t key (aws_cache (aws_newWithClient c True)) h = ((None, False, False), aws_cache (aws_newWithClient c True), h)" for t key h
    by (simp add: aws_newWithClient_def cache_Get_def cache_New_def newWithClock_def Let_def)
  have path: "TrimPrefix (req_PathValue ?r) ''/'' = ''db''" using demo_path(1) by (simp add: read_path_def)
  have "\<exists>t a h2 w2. run_alone (goroutine_step demo_env) 4 (Reading ?r new_response ReadArrived) (h1, wd) =
      (Reading ?r new_response (ReadGetting demo_identity t (GetStored (Some a))), h2, w2)"
    using auth be demo_path
    by (simp add: path validatePath_def authorized_def miss aws_fetch_def demo_env_def demo_remotes_def alloc_def make_map_def Let_def
        numeral_eq_Suc split: prod.split)
  then obtain t a h2 w2 where "run_alone (goroutine_step demo_env) 4 (Reading ?r new_response ReadArrived) (h1, wd) =
      (Reading ?r new_response (ReadGetting demo_identity t (GetStored (Some a))), h2, w2)" by blast
  from alone_is_concurrent [OF one this] run that show thesis by fastforce
qed

theorem secret_maps_have_one_owner_witness:
  "\<exists>gt w P h w' tr g a. gateway_run demo_main (w_heap demo_world) = Running gt w \<and>
     concurrent (gt_handlers gt, g_world (start_state gt w)) P ((h, w'), tr) \<and> P 1 = Some g \<and> a \<in> holds g \<and> a \<notin> cached_maps h"
proof -
  obtain gt w P h w' tr t a where run: "gateway_run demo_main (w_heap demo_world) = Running gt w"
    and conc: "concurrent (gt_handlers gt, g_world (start_state gt w)) P ((h, w'), tr)"
    and P: "P 1 = Some (Reading (demo_read ''db'' ''ab'') new_response (ReadGetting demo_identity t (GetStored (Some a))))"
    by (rule demo_in_hand) blast
  have "a \<in> holds (Reading (demo_read ''db'' ''ab'') new_response (ReadGetting demo_identity t (GetStored (Some a))))" by simp
  with secret_maps_have_one_owner [OF run conc P this] run conc P show ?thesis by blast
qed



subsection \<open>What is lost between two steps\<close>

text \<open>
  The gauge of active tokens is set from a count that may be out of date: when another login is served
  between the two steps, the gauge shows a number of tokens that is no longer stored.
\<close>

lemma gauge_may_lag:
  assumes "h_metrics h" and "IssueToken (ev_rnd1 ev') (ev_rnd2 ev') (ev_clock ev' 1) who' (ttlForRole h (lr_Role req')) (h_tokens h) = (Inr tok', toks)"
    and "goroutine_step ev (LoggingIn r rw (LoginIssued start req who tok)) (h, w) = Some (g1, s1)"
    and "run_alone (goroutine_step ev') 3 (LoggingIn r' rw' (LoginReviewed start' req' who')) s1 = (g', s2)"
    and "goroutine_step ev g1 s2 = Some (g2, (h3, w3))"
  shows "h_tokens h3 = toks \<and> m_ActiveTokens (w_metrics w3) = TokenCount (h_tokens h)"
  using assms by (auto simp: numeral_eq_Suc Let_def note_login_def observeAuth_def audit_def slog_def)

end
