(* ===== verification/Go_Json_Encode.thy ===== *)
theory Go_Json_Encode
  imports Go_Json
begin

text \<open>
  The string encoder of encoding/json as \<open>json.Marshal\<close> uses it, with HTML characters escaped, and
  the reading of one value from a stream as \<open>json.Decoder\<close> does it.
\<close>

subsection \<open>Encoding strings\<close>

definition htmlSafe :: "char \<Rightarrow> bool" where
  "htmlSafe c \<longleftrightarrow> 32 \<le> code c \<and> code c < 128 \<and> code c \<notin> {34, 38, 60, 62, 92}"

definition encode_ascii :: "char \<Rightarrow> string" where
  "encode_ascii c =
     (if htmlSafe c then [c]
      else if code c = 92 \<or> code c = 34 then [CHR 0x5C, c]
      else if code c = 8 then [CHR 0x5C, CHR ''b'']
      else if code c = 12 then [CHR 0x5C, CHR ''f'']
      else if code c = 10 then [CHR 0x5C, CHR ''n'']
      else if code c = 13 then [CHR 0x5C, CHR ''r'']
      else if code c = 9 then [CHR 0x5C, CHR ''t'']
      else [CHR 0x5C, CHR ''u'', CHR ''0'', CHR ''0'', hextable ! (code c div 16), hextable ! (code c mod 16)])"

function encode_body :: "string \<Rightarrow> string" where
  "encode_body s =
     (if s = [] then []
      else if code (hd s) < RuneSelf then encode_ascii (hd s) @ encode_body (tl s)
      else
        let r = fst (DecodeRune s); n = snd (DecodeRune s) in
        if r = RuneError \<and> n = 1 then [CHR 0x5C] @ ''ufffd'' @ encode_body (drop n s)
        else if r = 0x2028 \<or> r = 0x2029 then [CHR 0x5C] @ ''u202'' @ [hextable ! (r mod 16)] @ encode_body (drop n s)
        else take n s @ encode_body (drop n s))"
  by pat_completeness auto
termination
  by (relation "measure length") (auto simp: DecodeRune_width_pos)

declare encode_body.simps [simp del]

definition appendString :: "string \<Rightarrow> string" where
  "appendString s = [CHR 0x22] @ encode_body s @ [CHR 0x22]"

subsection \<open>Decoding one value from a stream\<close>

text \<open>
  The decoder stops at the end of the first value and ignores what follows. It is exact for a
  value that ends with a bracket or is null; a top-level number, string or boolean, which no
  caller can store, counts as undecodable.
\<close>

fun feed :: "tok list \<Rightarrow> pstate \<Rightarrow> pstate option" where
  "feed [] p = Some p"
| "feed (t # ts) p =
     (case p of
        (Finished v, st) \<Rightarrow> Some p
      | _ \<Rightarrow> (case parse_step t p of None \<Rightarrow> None | Some p' \<Rightarrow> feed ts p'))"

fun decode_stream :: "mode \<Rightarrow> pstate \<Rightarrow> string \<Rightarrow> jvalue option" where
  "decode_stream m p [] = (case p of (Finished v, st) \<Rightarrow> Some v | _ \<Rightarrow> None)"
| "decode_stream m p (c # s) =
     (case p of
        (Finished v, st) \<Rightarrow> Some v
      | _ \<Rightarrow>
        (case scan_step m c of
           None \<Rightarrow> None
         | Some (ts, m') \<Rightarrow> (case feed ts p of None \<Rightarrow> None | Some p' \<Rightarrow> decode_stream m' p' s)))"

definition Decode :: "string \<Rightarrow> jvalue option" where
  "Decode s = decode_stream Between (WantValue, []) s"

subsection \<open>Units of encoded strings\<close>

definition unit_for :: "char \<Rightarrow> sunit" where
  "unit_for c = (if htmlSafe c then SByte c else SEscape (code c))"

lemma hex_value_hextable: "n < 16 \<Longrightarrow> hex_value (hextable ! n) = Some n"
proof -
  have "list_all (\<lambda>n. hex_value (hextable ! n) = Some n) [0..<16]" by code_simp
  moreover assume "n < 16"
  ultimately show ?thesis by (simp add: list_all_iff)
qed

lemma codes [simp]: "code (CHR 0x5C) = 92" "code (CHR 0x22) = 34"
  by (simp_all add: code_def)

definition ascii :: "string \<Rightarrow> bool" where
  "ascii s \<longleftrightarrow> list_all (\<lambda>c. code c < 128) s"

lemma unquote_byte: "code c < 128 \<Longrightarrow> unquote (SByte c # us) = c # unquote us"
proof (cases us)
  case (Cons u us')
  assume c: "code c < 128"
  show ?thesis
  proof (cases u)
    case (SByte d)
    with Cons c show ?thesis by (simp add: is_byte_def byte_of_def EncodeRune_ascii)
  next
    case (SEscape n)
    with Cons c show ?thesis by (simp add: is_byte_def EncodeRune_ascii)
  qed
qed (simp add: EncodeRune_ascii)

lemma unquote_escape: "code c < 128 \<Longrightarrow> unquote (SEscape (code c) # us) = c # unquote us"
  by (cases us rule: list.exhaust; cases "hd us")
    (auto simp: EncodeRune_ascii high_surrogate_def split: list.split sunit.split)

end
