(* ===== verification/Json_Text.thy ===== *)
theory Json_Text
  imports Go_Json_Encode Go_Time
begin

text \<open>
  The text that encoding/json writes for a value, and that its decoder reads it back. Strings go
  through one change on the way: bytes that are not UTF-8 become the replacement rune.
\<close>

subsection \<open>Strings as sequences of runes\<close>

definition utf8_text :: "string \<Rightarrow> string" where
  "utf8_text s = concat (map EncodeRune (runes s))"

text \<open>\<open>utf8.ValidString\<close>.\<close>

function valid_utf8 :: "string \<Rightarrow> bool" where
  "valid_utf8 s =
     (if s = [] then True
      else (fst (DecodeRune s) \<noteq> RuneError \<or> snd (DecodeRune s) \<noteq> 1) \<and> valid_utf8 (drop (snd (DecodeRune s)) s))"
  by pat_completeness auto
termination
  by (relation "measure length") (auto simp: DecodeRune_width_pos)

declare valid_utf8.simps [simp del]

text \<open>The payload of the bytes of an encoding, by its length.\<close>

lemma offset_mod: "x < m \<Longrightarrow> m dvd k \<Longrightarrow> (k + x) mod m = (x :: nat)"
  by (auto elim!: dvdE)

lemma is_cont_offset: "is_cont b \<longleftrightarrow> (\<exists>x<64. b = 128 + x)"
  unfolding is_cont_def by presburger

lemma second_ok_cont: "second_ok b0 b1 \<Longrightarrow> is_cont b1"
  by (auto simp: second_ok_def is_cont_def split: if_splits)

lemma DecodeRune_bytes:
  assumes "DecodeRune s = (r, n)" and "r \<noteq> RuneError \<or> n \<noteq> 1" and "s \<noteq> []"
  obtains (one) b0 t where "s = b0 # t" "n = 1" "code b0 < 128" "r = code b0"
  | (two) b0 b1 t x0 x1 where "s = b0 # b1 # t" "n = 2" "code b0 = 192 + x0" "code b1 = 128 + x1" "2 \<le> x0" "x0 < 32" "x1 < 64"
      "r = x0 * 64 + x1"
  | (three) b0 b1 b2 t x0 x1 x2 where "s = b0 # b1 # b2 # t" "n = 3" "code b0 = 224 + x0" "code b1 = 128 + x1" "code b2 = 128 + x2"
      "x0 < 16" "second_ok (224 + x0) (128 + x1)" "x1 < 64" "x2 < 64" "r = (x0 * 64 + x1) * 64 + x2"
  | (four) b0 b1 b2 b3 t x0 x1 x2 x3 where "s = b0 # b1 # b2 # b3 # t" "n = 4" "code b0 = 240 + x0" "code b1 = 128 + x1"
      "code b2 = 128 + x2" "code b3 = 128 + x3" "x0 < 5" "second_ok (240 + x0) (128 + x1)" "x1 < 64" "x2 < 64" "x3 < 64"
      "r = ((x0 * 64 + x1) * 64 + x2) * 64 + x3"
proof -
  obtain b0 t where s: "s = b0 # t" using assms(3) by (cases s) auto
  have "rune_len (code b0) \<in> {0, 1, 2, 3, 4}" by (simp add: rune_len_def)
  then consider "rune_len (code b0) = 0" | "rune_len (code b0) = 1" | "rune_len (code b0) = 2" | "rune_len (code b0) = 3" | "rune_len (code b0) = 4"
    by auto
  then show thesis
  proof cases
    case 1
    with assms(1,2) show ?thesis by (simp add: s DecodeRune_def decode_codes_def)
  next
    case 2
    then have "code b0 < 128" by (auto simp: rune_len_def split: if_splits)
    moreover from 2 assms(1) have "r = code b0" "n = 1" by (simp_all add: s DecodeRune_def decode_codes_def)
    ultimately show ?thesis by (intro one [of b0 t]) (auto simp: s)
  next
    case 3
    then have b0: "194 \<le> code b0" "code b0 \<le> 223" by (auto simp: rune_len_def split: if_splits)
    obtain x0 where x0: "code b0 = 192 + x0" "2 \<le> x0" "x0 < 32" using that [of "code b0 - 192"] b0 by simp
    obtain b1 t1 where t: "t = b1 # t1" using 3 assms(1,2) by (cases t) (auto simp: s DecodeRune_def decode_codes_def)
    have "second_ok (code b0) (code b1)" using 3 assms(1,2) by (auto simp: s t DecodeRune_def decode_codes_def split: if_splits)
    moreover from this obtain x1 where "code b1 = 128 + x1" "x1 < 64" using second_ok_cont is_cont_offset by blast
    ultimately show ?thesis using 3 assms(1) x0
      by (intro two [of b0 b1 t1 x0 x1]) (auto simp: s t DecodeRune_def decode_codes_def offset_mod)
  next
    case 4
    then have b0: "224 \<le> code b0" "code b0 \<le> 239" by (auto simp: rune_len_def split: if_splits)
    then obtain x0 where x0: "code b0 = 224 + x0" "x0 < 16" by (auto simp: le_iff_add)
    obtain b1 b2 t1 where t: "t = b1 # b2 # t1"
      using 4 assms(1,2) by (cases t; cases "tl t") (auto simp: s DecodeRune_def decode_codes_def split: if_splits)
    have ok: "second_ok (code b0) (code b1)" "is_cont (code b2)"
      using 4 assms(1,2) by (auto simp: s t DecodeRune_def decode_codes_def split: if_splits)
    moreover from this obtain x1 x2 where "code b1 = 128 + x1" "x1 < 64" "code b2 = 128 + x2" "x2 < 64" using second_ok_cont is_cont_offset by blast
    ultimately show ?thesis using 4 assms(1) x0
      by (intro three [of b0 b1 b2 t1 x0 x1 x2]) (auto simp: s t DecodeRune_def decode_codes_def offset_mod)
  next
    case 5
    then have b0: "240 \<le> code b0" "code b0 \<le> 244" by (auto simp: rune_len_def split: if_splits)
    then obtain x0 where x0: "code b0 = 240 + x0" "x0 < 5" by (auto simp: le_iff_add)
    obtain b1 b2 b3 t1 where t: "t = b1 # b2 # b3 # t1"
      using 5 assms(1,2) by (cases t; cases "tl t"; cases "tl (tl t)") (auto simp: s DecodeRune_def decode_codes_def split: if_splits)
    have ok: "second_ok (code b0) (code b1)" "is_cont (code b2)" "is_cont (code b3)"
      using 5 assms(1,2) by (auto simp: s t DecodeRune_def decode_codes_def split: if_splits)
    moreover from this obtain x1 x2 x3 where "code b1 = 128 + x1" "x1 < 64" "code b2 = 128 + x2" "x2 < 64" "code b3 = 128 + x3" "x3 < 64"
      by (auto dest!: second_ok_cont simp: is_cont_offset)
    ultimately show ?thesis using 5 assms(1) x0
      by (intro four [of b0 b1 b2 b3 t1 x0 x1 x2 x3]) (auto simp: s t DecodeRune_def decode_codes_def offset_mod)
  qed
qed

text \<open>A rune that is not an error is read from its own encoding, whatever follows.\<close>

definition whole_rune :: "string \<Rightarrow> rune \<Rightarrow> bool" where
  "whole_rune b r \<longleftrightarrow> EncodeRune r = b \<and> b \<noteq> [] \<and> (\<forall>t. DecodeRune (b @ t) = (r, length b)) \<and>
     (length b = 1 \<or> list_all (\<lambda>c. 128 \<le> code c) b)"

lemma char_of_code [simp]: "char_of (code c) = c"
  by (simp add: code_def)

lemma utf8_bytes_code: "code a = n \<Longrightarrow> utf8_bytes (n # ns) = a # utf8_bytes ns"
  by (auto simp: utf8_bytes_def)

lemma sextet: "x < 64 \<Longrightarrow> (a * 64 + x) div 64 = a" "x < 64 \<Longrightarrow> (a * 64 + x) mod 64 = (x :: nat)"
  by simp_all

lemma div_sextets: "r div 4096 = r div 64 div 64" "r div 262144 = r div 64 div 64 div (64 :: nat)"
  by (simp_all flip: div_mult2_eq)

lemma DecodeRune_whole:
  assumes "DecodeRune s = (r, n)" and "r \<noteq> RuneError \<or> n \<noteq> 1" and "s \<noteq> []"
  shows "whole_rune (take n s) r"
  using assms
proof (cases rule: DecodeRune_bytes)
  case (one b0 t)
  then show ?thesis
    by (simp add: whole_rune_def EncodeRune_ascii DecodeRune_ascii)
next
  case (two b0 b1 t x0 x1)
  then have "EncodeRune r = [b0, b1]"
    by (simp add: EncodeRune_def utf8_bytes_code sextet) (simp add: utf8_bytes_def)
  moreover have "rune_len (code b0) = 2" "second_ok (code b0) (code b1)"
    using two by (auto simp: rune_len_def second_ok_def is_cont_def)
  ultimately show ?thesis
    using two by (simp add: whole_rune_def DecodeRune_def decode_codes_def offset_mod)
next
  case (three b0 b1 b2 t x0 x1 x2)
  have "2048 \<le> r" "\<not> (55296 \<le> r \<and> r \<le> 57343)" "r < 65536"
    using three by (auto simp: second_ok_def split: if_splits)
  moreover have "r div 64 div 64 = x0" "r div 64 mod 64 = x1" "r mod 64 = x2"
    unfolding three(10) by (simp_all only: sextet three)
  ultimately have "EncodeRune r = [b0, b1, b2]"
    unfolding EncodeRune_def div_sextets by (auto simp: utf8_bytes_def simp flip: three(3-5))
  moreover have "rune_len (code b0) = 3" "is_cont (code b2)"
    using three by (auto simp: rune_len_def is_cont_def)
  ultimately show ?thesis
    using three by (simp add: whole_rune_def DecodeRune_def decode_codes_def offset_mod)
next
  case (four b0 b1 b2 b3 t x0 x1 x2 x3)
  have "65536 \<le> r" "r \<le> 1114111" 
    using four by (auto simp: second_ok_def split: if_splits)
  moreover have "r div 64 div 64 div 64 = x0" "r div 64 div 64 mod 64 = x1" "r div 64 mod 64 = x2" "r mod 64 = x3"
    unfolding four(12) by (simp_all only: sextet four)
  ultimately have "EncodeRune r = [b0, b1, b2, b3]"
    unfolding EncodeRune_def div_sextets by (auto simp: utf8_bytes_def simp flip: four(3-6))
  moreover have "rune_len (code b0) = 4" "is_cont (code b2)" "is_cont (code b3)"
    using four by (auto simp: rune_len_def is_cont_def)
  ultimately show ?thesis
    using four by (simp add: whole_rune_def DecodeRune_def decode_codes_def offset_mod)
qed

lemma EncodeRune_nonempty: "EncodeRune r \<noteq> []"
  by (simp add: EncodeRune_def utf8_bytes_def)

lemma runes_whole: "whole_rune b r \<Longrightarrow> runes (b @ t) = r # runes t"
proof -
  assume "whole_rune b r"
  then have "DecodeRune (b @ t) = (r, length b)" "b \<noteq> []" by (auto simp: whole_rune_def)
  then show ?thesis by (simp add: runes.simps [of "b @ t"])
qed

lemma utf8_text_step:
  "s \<noteq> [] \<Longrightarrow> utf8_text s = EncodeRune (fst (DecodeRune s)) @ utf8_text (drop (snd (DecodeRune s)) s)"
  by (simp add: utf8_text_def runes.simps [of s])

lemma utf8_text_Nil [simp]: "utf8_text [] = []"
  by (simp add: utf8_text_def)

text \<open>A valid string is its own text.\<close>

lemma utf8_text_valid: "valid_utf8 s \<Longrightarrow> utf8_text s = s"
proof (induction s rule: valid_utf8.induct)
  case (1 s)
  show ?case
  proof (cases "s = []")
    case False
    obtain r n where d: "DecodeRune s = (r, n)" by fastforce
    with 1 False have "r \<noteq> RuneError \<or> n \<noteq> 1" "utf8_text (drop n s) = drop n s"
      by (simp_all add: valid_utf8.simps [of s])
    moreover from this d False have "EncodeRune r = take n s"
      using DecodeRune_whole [of s r n] by (simp add: whole_rune_def)
    ultimately show ?thesis using d False by (simp add: utf8_text_step)
  qed simp
qed

lemma valid_utf8_ascii: "ascii s \<Longrightarrow> valid_utf8 s"
proof (induction s)
  case (Cons c s)
  then show ?case
    using DecodeRune_ascii [of "c # s"] by (simp add: valid_utf8.simps [of "c # s"] ascii_def)
qed (simp add: valid_utf8.simps)

subsection \<open>Reading an encoded string\<close>

text \<open>The units the scanner collects from an encoded string.\<close>

function units :: "string \<Rightarrow> sunit list" where
  "units s =
     (if s = [] then []
      else if code (hd s) < RuneSelf then unit_for (hd s) # units (tl s)
      else
        let r = fst (DecodeRune s); n = snd (DecodeRune s) in
        if r = RuneError \<and> n = 1 then SEscape RuneError # units (drop n s)
        else if r = 0x2028 \<or> r = 0x2029 then SEscape r # units (drop n s)
        else map SByte (take n s) @ units (drop n s))"
  by pat_completeness auto
termination
  by (relation "measure length") (auto simp: DecodeRune_width_pos)

declare units.simps [simp del]

text \<open>
  \<open>scan_run m s\<close> is what the scanner does on a part of a document: the tokens it emits and the mode
  it ends in.
\<close>

fun scan_run :: "mode \<Rightarrow> string \<Rightarrow> (tok list \<times> mode) option" where
  "scan_run m [] = Some ([], m)"
| "scan_run m (c # s) =
     (case scan_step m c of
        None \<Rightarrow> None
      | Some (ts, m') \<Rightarrow> map_option (\<lambda>(us, m''). (ts @ us, m'')) (scan_run m' s))"

lemma scan_run_append:
  "scan_run m s = Some (ts, m') \<Longrightarrow> scan_run m' t = Some (us, m'') \<Longrightarrow> scan_run m (s @ t) = Some (ts @ us, m'')"
  by (induction m s arbitrary: ts rule: scan_run.induct) (auto split: option.splits)

lemma scan_run_silent: "scan_step m c = Some ([], m') \<Longrightarrow> scan_run m (c # s) = scan_run m' s"
  by (cases "scan_run m' s") auto

lemma scan_scan_run: "scan_run m s = Some (ts, m') \<Longrightarrow> scan m (s @ t) = map_option ((@) ts) (scan m' t)"
  by (cases "scan m' t"; induction m s arbitrary: ts rule: scan_run.induct) (auto split: option.splits)

lemma feed_Finished [simp]: "feed ts (Finished v, st) = Some (Finished v, st)"
  by (cases ts) simp_all

lemma decode_stream_Finished [simp]: "decode_stream m (Finished v, st) s = Some v"
  by (cases s) simp_all

lemma feed_append: "feed (ts @ us) p = (case feed ts p of None \<Rightarrow> None | Some p' \<Rightarrow> feed us p')"
  by (induction ts p rule: feed.induct) (auto split: phase.splits option.splits)

lemma decode_stream_scan_run:
  "scan_run m s = Some (ts, m') \<Longrightarrow>
    decode_stream m p (s @ t) = (case feed ts p of None \<Rightarrow> None | Some p' \<Rightarrow> decode_stream m' p' t)"
  by (induction m s arbitrary: ts p rule: scan_run.induct) (auto split: option.splits phase.splits simp: feed_append)

text \<open>The encoder writes what the scanner collects as \<open>units\<close>.\<close>

lemma scan_run_bytes:
  "list_all (\<lambda>c. 128 \<le> code c) b \<Longrightarrow> scan_run (InString us) b = Some ([], InString (us @ map SByte b))"
  by (induction b arbitrary: us) auto

lemma scan_run_hex4:
  assumes "hex_value a = Some w" "hex_value b = Some x" "hex_value c = Some y" "hex_value d = Some z"
  shows "scan_run (InString us) [CHR 0x5C, CHR ''u'', a, b, c, d] =
    Some ([], InString (us @ [SEscape (16 * (16 * (16 * w + x) + y) + z)]))"
  using assms by simp

lemma whole_rune_high: "whole_rune b r \<Longrightarrow> 128 \<le> code (hd b) \<Longrightarrow> list_all (\<lambda>c. 128 \<le> code c) b"
  by (cases b) (auto simp: whole_rune_def)

lemma scan_run_ascii_char:
  assumes "code c < 128"
  shows "scan_run (InString us) (encode_ascii c) = Some ([], InString (us @ [unit_for c]))"
proof -
  consider (safe) "htmlSafe c" | (quote) "code c = 92 \<or> code c = 34"
    | (short) "code c \<in> {8, 9, 10, 12, 13}" | (control) "\<not> htmlSafe c" "code c \<notin> {8, 9, 10, 12, 13, 34, 92}" by auto
  then show ?thesis
  proof cases
    case safe
    then have "\<not> code c < 32" "code c \<noteq> 34" "code c \<noteq> 92" by (auto simp: htmlSafe_def)
    with safe show ?thesis by (simp add: encode_ascii_def unit_for_def)
  next
    case quote
    then have "\<not> htmlSafe c" "c \<noteq> CHR ''u''" by (auto simp: htmlSafe_def code_def)
    moreover have "escaped c = Some (code c)" using quote by (auto simp: escaped_def)
    ultimately show ?thesis
      using quote by (simp add: encode_ascii_def unit_for_def)
  next
    case short
    have letters: "escaped (CHR ''b'') = Some 8" "escaped (CHR ''t'') = Some 9" "escaped (CHR ''n'') = Some 10"
      "escaped (CHR ''f'') = Some 12" "escaped (CHR ''r'') = Some 13" by (simp_all add: escaped_def code_def)
    from short have "\<not> htmlSafe c" by (auto simp: htmlSafe_def)
    with short show ?thesis
      by (elim insertE) (simp_all add: encode_ascii_def unit_for_def letters)
  next
    case control
    have zero: "hex_value (CHR ''0'') = Some 0" by (simp add: hex_value_def code_def Let_def)
    have "hex_value (hextable ! (code c div 16)) = Some (code c div 16)" "hex_value (hextable ! (code c mod 16)) = Some (code c mod 16)"
      using assms by (simp_all add: hex_value_hextable)
    then show ?thesis
      using control scan_run_hex4 [OF zero zero] by (simp add: encode_ascii_def unit_for_def del: scan_run.simps)
  qed
qed

lemma scan_run_ufffd: "scan_run (InString us) (CHR 0x5C # ''ufffd'') = Some ([], InString (us @ [SEscape RuneError]))"
  using scan_run_hex4 [of "CHR ''f''" 15 "CHR ''f''" 15 "CHR ''f''" 15 "CHR ''d''" 13 us]
  by (simp add: hex_value_def code_def Let_def del: scan_run.simps)

lemma scan_run_u202x:
  assumes "r = 0x2028 \<or> r = 0x2029"
  shows "scan_run (InString us) (CHR 0x5C # ''u202'' @ [hextable ! (r mod 16)]) = Some ([], InString (us @ [SEscape r]))"
proof -
  have hex: "hex_value (hextable ! (r mod 16)) = Some (r mod 16)" by (simp add: hex_value_hextable)
  have digits: "hex_value (CHR ''2'') = Some 2" "hex_value (CHR ''0'') = Some 0"
    by (simp_all add: hex_value_def code_def Let_def)
  show ?thesis
    using scan_run_hex4 [OF digits digits(1) hex, of us] assms by (auto simp del: scan_run.simps)
qed

lemma body_cases [case_names empty ascii bad sep good]:
  "(s = [] \<Longrightarrow> P) \<Longrightarrow> (s \<noteq> [] \<Longrightarrow> code (hd s) < 128 \<Longrightarrow> P) \<Longrightarrow>
   (s \<noteq> [] \<Longrightarrow> \<not> code (hd s) < 128 \<Longrightarrow> r = RuneError \<and> n = 1 \<Longrightarrow> P) \<Longrightarrow>
   (s \<noteq> [] \<Longrightarrow> \<not> code (hd s) < 128 \<Longrightarrow> r = 0x2028 \<or> r = 0x2029 \<Longrightarrow> P) \<Longrightarrow>
   (s \<noteq> [] \<Longrightarrow> \<not> code (hd s) < 128 \<Longrightarrow> \<not> (r = RuneError \<and> n = 1) \<Longrightarrow> \<not> (r = 0x2028 \<or> r = 0x2029) \<Longrightarrow> P) \<Longrightarrow>
   P" for n :: nat and r :: rune
  by blast

lemma scan_run_encode_body:
  "scan_run (InString us) (encode_body s) = Some ([], InString (us @ units s))"
proof (induction s arbitrary: us rule: encode_body.induct)
  case (1 s)
  obtain r n where d: "DecodeRune s = (r, n)" by fastforce
  show ?case
  proof (cases rule: body_cases [of s _ r n])
    case ascii
    then show ?thesis
      using scan_run_append [OF scan_run_ascii_char [of "hd s" us] 1(1)] by (simp add: encode_body.simps [of s] units.simps [of s])
  next
    case bad
    then show ?thesis
      using scan_run_append [OF scan_run_ufffd [of us] 1(2)] d
      by (simp add: encode_body.simps [of s] units.simps [of s] del: scan_run.simps)
  next
    case sep
    then show ?thesis
      using scan_run_append [OF scan_run_u202x [of r us] 1(3)] d
      by (auto simp: encode_body.simps [of s] units.simps [of s] simp del: scan_run.simps)
  next
    case good
    have "whole_rune (take n s) r" using DecodeRune_whole [OF d] good by blast
    with good(1,2) have "list_all (\<lambda>c. 128 \<le> code c) (take n s)"
      by (intro whole_rune_high) (auto simp: whole_rune_def hd_take)
    then show ?thesis
      using scan_run_append [OF scan_run_bytes 1(4)] d good
      by (auto simp: encode_body.simps [of s] units.simps [of s] simp del: scan_run.simps)
  qed (simp add: encode_body.simps units.simps)
qed

text \<open>Unquoting the units gives the text of the string.\<close>

lemma unquote_whole:
  assumes "whole_rune b r"
  shows "unquote (map SByte b @ us) = EncodeRune r @ unquote us"
proof -
  obtain c cs where b: "b = c # cs" using assms by (cases b) (auto simp: whole_rune_def)
  have "unquote (map SByte b @ us) =
      concat (map EncodeRune (runes (b @ map byte_of (takeWhile is_byte us)))) @ unquote (dropWhile is_byte us)"
    by (simp add: b takeWhile_append dropWhile_append is_byte_def byte_of_def o_def)
  also have "\<dots> = EncodeRune r @ concat (map EncodeRune (runes (map byte_of (takeWhile is_byte us)))) @ unquote (dropWhile is_byte us)"
    by (simp add: runes_whole [OF assms])
  also have "concat (map EncodeRune (runes (map byte_of (takeWhile is_byte us)))) @ unquote (dropWhile is_byte us) = unquote us"
    by (cases us rule: unquote.cases) (simp_all add: is_byte_def byte_of_def)
  finally show ?thesis .
qed

lemma unquote_SEscape: "\<not> high_surrogate n \<Longrightarrow> unquote (SEscape n # us) = EncodeRune n @ unquote us"
  by (auto split: list.split sunit.split)

lemma unquote_unit_for: "code c < 128 \<Longrightarrow> unquote (unit_for c # us) = c # unquote us"
  by (simp add: unit_for_def unquote_byte unquote_escape del: unquote.simps)

lemma unquote_units_text: "unquote (units s) = utf8_text s"
proof (induction s rule: units.induct)
  case (1 s)
  obtain r n where d: "DecodeRune s = (r, n)" by fastforce
  have escapes: "\<not> high_surrogate RuneError" "\<not> high_surrogate 0x2028" "\<not> high_surrogate 0x2029"
    by (simp_all add: high_surrogate_def)
  show ?case
  proof (cases rule: body_cases [of s _ r n])
    case ascii
    with 1(1) show ?thesis
      by (simp add: units.simps [of s] utf8_text_step DecodeRune_ascii unquote_unit_for EncodeRune_ascii drop_Suc del: unquote.simps)
  next
    case bad
    with 1(2) d escapes show ?thesis
      by (simp add: units.simps [of s] utf8_text_step unquote_SEscape del: unquote.simps)
  next
    case sep
    with 1(3) d escapes show ?thesis
      by (auto simp: units.simps [of s] utf8_text_step unquote_SEscape simp del: unquote.simps)
  next
    case good
    have "whole_rune (take n s) r" using DecodeRune_whole [OF d] good by blast
    with 1(4) d good show ?thesis
      by (auto simp: units.simps [of s] utf8_text_step unquote_whole simp del: unquote.simps)
  qed (simp add: units.simps)
qed

text \<open>An encoded string is read as the token of its text.\<close>

lemma scan_run_appendString: "scan_run Between (appendString s) = Some ([TStr (utf8_text s)], Between)"
proof -
  have "scan_run (InString []) (encode_body s @ [CHR 0x22]) = Some ([TStr (utf8_text s)], Between)"
    using scan_run_append [OF scan_run_encode_body [of "[]" s], of "[CHR 0x22]"] by (simp add: unquote_units_text)
  then show ?thesis by (simp add: appendString_def scan_run_silent dispatch_def del: scan_run.simps)
qed

subsection \<open>Encoding values\<close>

text \<open>
  The text of a value without white space, as \<open>json.Marshal\<close> writes it; a number is its own text.
\<close>

fun encode_json :: "jvalue \<Rightarrow> string"
  and encode_elements :: "jvalue list \<Rightarrow> string"
  and encode_members :: "(string \<times> jvalue) list \<Rightarrow> string" where
  "encode_json JNull = ''null''"
| "encode_json (JBool b) = (if b then ''true'' else ''false'')"
| "encode_json (JNumber t) = t"
| "encode_json (JString s) = appendString s"
| "encode_json (JArray vs) = ''['' @ encode_elements vs @ '']''"
| "encode_json (JObject kvs) = ''{'' @ encode_members kvs @ ''}''"
| "encode_elements [] = ''''"
| "encode_elements (v # vs) = encode_json v @ (if vs = [] then '''' else '','' @ encode_elements vs)"
| "encode_members [] = ''''"
| "encode_members ((k, v) # kvs) =
     appendString k @ '':'' @ encode_json v @ (if kvs = [] then '''' else '','' @ encode_members kvs)"

text \<open>The value with every string replaced by its text, its depth, and the texts numbers may have.\<close>

fun json_text :: "jvalue \<Rightarrow> jvalue"
  and elements_text :: "jvalue list \<Rightarrow> jvalue list"
  and members_text :: "(string \<times> jvalue) list \<Rightarrow> (string \<times> jvalue) list" where
  "json_text (JString s) = JString (utf8_text s)"
| "json_text (JArray vs) = JArray (elements_text vs)"
| "json_text (JObject kvs) = JObject (members_text kvs)"
| "json_text JNull = JNull"
| "json_text (JBool b) = JBool b"
| "json_text (JNumber t) = JNumber t"
| "elements_text [] = []"
| "elements_text (v # vs) = json_text v # elements_text vs"
| "members_text [] = []"
| "members_text ((k, v) # kvs) = (utf8_text k, json_text v) # members_text kvs"

fun json_depth :: "jvalue \<Rightarrow> nat"
  and elements_depth :: "jvalue list \<Rightarrow> nat"
  and members_depth :: "(string \<times> jvalue) list \<Rightarrow> nat" where
  "json_depth (JArray vs) = Suc (elements_depth vs)"
| "json_depth (JObject kvs) = Suc (members_depth kvs)"
| "json_depth (JString s) = 0"
| "json_depth JNull = 0"
| "json_depth (JBool b) = 0"
| "json_depth (JNumber t) = 0"
| "elements_depth [] = 0"
| "elements_depth (v # vs) = max (json_depth v) (elements_depth vs)"
| "members_depth [] = 0"
| "members_depth ((k, v) # kvs) = max (json_depth v) (members_depth kvs)"

definition number_text :: "string \<Rightarrow> bool" where
  "number_text t \<longleftrightarrow> (case scan_run Between t of Some ([], InNumber st u) \<Rightarrow> number_ends st \<and> u = t | _ \<Rightarrow> False)"

fun json_numbers :: "jvalue \<Rightarrow> bool"
  and elements_numbers :: "jvalue list \<Rightarrow> bool"
  and members_numbers :: "(string \<times> jvalue) list \<Rightarrow> bool" where
  "json_numbers (JNumber t) = number_text t"
| "json_numbers (JArray vs) = elements_numbers vs"
| "json_numbers (JObject kvs) = members_numbers kvs"
| "json_numbers (JString s) = True"
| "json_numbers JNull = True"
| "json_numbers (JBool b) = True"
| "elements_numbers [] = True"
| "elements_numbers (v # vs) \<longleftrightarrow> json_numbers v \<and> elements_numbers vs"
| "members_numbers [] = True"
| "members_numbers ((k, v) # kvs) \<longleftrightarrow> json_numbers v \<and> members_numbers kvs"

fun json_toks :: "jvalue \<Rightarrow> tok list"
  and elements_toks :: "jvalue list \<Rightarrow> tok list"
  and members_toks :: "(string \<times> jvalue) list \<Rightarrow> tok list" where
  "json_toks (JString s) = [TStr (utf8_text s)]"
| "json_toks (JArray vs) = LBrack # elements_toks vs @ [RBrack]"
| "json_toks (JObject kvs) = LBrace # members_toks kvs @ [RBrace]"
| "json_toks JNull = [TVal JNull]"
| "json_toks (JBool b) = [TVal (JBool b)]"
| "json_toks (JNumber t) = [TVal (JNumber t)]"
| "elements_toks [] = []"
| "elements_toks (v # vs) = json_toks v @ (if vs = [] then [] else Comma # elements_toks vs)"
| "members_toks [] = []"
| "members_toks ((k, v) # kvs) =
     TStr (utf8_text k) # Colon # json_toks v @ (if kvs = [] then [] else Comma # members_toks kvs)"

subsection \<open>Scanning an encoded value\<close>

text \<open>A byte that may follow a value, with its token.\<close>

definition delimits :: "char \<Rightarrow> tok \<Rightarrow> bool" where
  "delimits d t \<longleftrightarrow> (d, t) \<in> {(CHR '','', Comma), (CHR '']'', RBrack), (CHR ''}'', RBrace)}"

lemma delimits_dispatch: "delimits d t \<Longrightarrow> dispatch d = Some ([t], Between)"
  by (auto simp: delimits_def dispatch_def code_def)

lemma delimits_number: "delimits d t \<Longrightarrow> number_ends st \<Longrightarrow> number_next st d = None"
  by (cases st) (auto simp: delimits_def number_next_def number_ends_def digit19_def is_digit_def code_def)

lemma scan_run_delimited:
  "scan_run Between s = Some (ts, Between) \<Longrightarrow> delimits d t \<Longrightarrow> scan_run Between (s @ [d]) = Some (ts @ [t], Between)"
  by (erule scan_run_append) (simp add: delimits_dispatch)

lemma scan_run_number:
  assumes "number_text t" and "delimits d x"
  shows "scan_run Between (t @ [d]) = Some ([TVal (JNumber t), x], Between)"
proof -
  from assms(1) obtain st where "scan_run Between t = Some ([], InNumber st t)" "number_ends st"
    by (auto simp: number_text_def split: option.splits prod.splits list.splits mode.splits)
  with assms(2) show ?thesis
    using scan_run_append [of Between t "[]" "InNumber st t" "[d]"]
    by (simp add: delimits_dispatch delimits_number)
qed

lemma dispatch_punctuation:
  "dispatch (CHR ''['') = Some ([LBrack], Between)" "dispatch (CHR ''{'') = Some ([LBrace], Between)"
  "dispatch (CHR '':'') = Some ([Colon], Between)"
  by (simp_all add: dispatch_def code_def)

lemma scan_run_literals:
  "scan_run Between ''null'' = Some ([TVal JNull], Between)"
  "scan_run Between ''true'' = Some ([TVal (JBool True)], Between)"
  "scan_run Between ''false'' = Some ([TVal (JBool False)], Between)"
  by (simp_all add: dispatch_def digit19_def code_def)

lemma scan_run_bracket:
  "dispatch c = Some ([x], Between) \<Longrightarrow> scan_run Between s = Some (ts, Between) \<Longrightarrow> delimits d t \<Longrightarrow>
    scan_run Between ((c # s) @ [d]) = Some (x # ts @ [t], Between)"
  using scan_run_delimited [of "c # s" "x # ts" d t] by simp

lemma delimits_intros: "delimits (CHR '','') Comma" "delimits (CHR '']'') RBrack" "delimits (CHR ''}'') RBrace"
  by (simp_all add: delimits_def)

lemma scan_run_json:
  "json_numbers v \<Longrightarrow> delimits d t \<Longrightarrow> scan_run Between (encode_json v @ [d]) = Some (json_toks v @ [t], Between)"
  "elements_numbers vs \<Longrightarrow> scan_run Between (encode_elements vs @ '']'') = Some (elements_toks vs @ [RBrack], Between)"
  "members_numbers kvs \<Longrightarrow> scan_run Between (encode_members kvs @ ''}'') = Some (members_toks kvs @ [RBrace], Between)"
proof (induction v and vs and kvs arbitrary: d t rule: encode_json_encode_elements_encode_members.induct)
  case 1
  then show ?case using scan_run_delimited [OF scan_run_literals(1)] by simp
next
  case (2 b)
  then show ?case using scan_run_delimited [OF scan_run_literals(2)] scan_run_delimited [OF scan_run_literals(3)] by simp
next
  case (3 t)
  then show ?case using scan_run_number by simp
next
  case (4 s)
  then show ?case using scan_run_delimited [OF scan_run_appendString] by simp
next
  case (5 vs)
  then show ?case using scan_run_bracket [OF dispatch_punctuation(1) 5(1)] by simp
next
  case (6 kvs)
  then show ?case using scan_run_bracket [OF dispatch_punctuation(2) 6(1)] by simp
next
  case 7
  then show ?case by (simp add: delimits_dispatch [OF delimits_intros(2)])
next
  case (8 v vs)
  then show ?case
    using scan_run_append [OF 8(1) [OF _ delimits_intros(1)] 8(2)] 8(1) [OF _ delimits_intros(2)] by (auto simp del: scan_run.simps)
next
  case 9
  then show ?case by (simp add: delimits_dispatch [OF delimits_intros(3)])
next
  case (10 k v kvs)
  have key: "scan_run Between (appendString k @ CHR '':'' # s) = Some (TStr (utf8_text k) # Colon # ts, Between)"
    if "scan_run Between s = Some (ts, Between)" for s ts
    using scan_run_append [OF scan_run_appendString [of k], of "CHR '':'' # s"] that by (simp add: dispatch_punctuation)
  from 10 show ?case
    using scan_run_append [OF 10(1) [OF _ delimits_intros(1)] 10(2)] 10(1) [OF _ delimits_intros(3)]
    by (auto simp: key simp del: scan_run.simps)
qed

subsection \<open>Parsing an encoded value\<close>

text \<open>\<open>steps ts p\<close> feeds all tokens to the parser; none may come after the value is complete.\<close>

fun steps :: "tok list \<Rightarrow> pstate \<Rightarrow> pstate option" where
  "steps [] p = Some p"
| "steps (t # ts) p = (case parse_step t p of None \<Rightarrow> None | Some p' \<Rightarrow> steps ts p')"

lemma steps_append: "steps (ts @ us) p = (case steps ts p of None \<Rightarrow> None | Some p' \<Rightarrow> steps us p')"
  by (induction ts arbitrary: p) (simp_all split: option.split)

lemma feed_step: "parse_step t p = Some p' \<Longrightarrow> feed (t # ts) p = feed ts p'"
  by (cases p; cases "fst p") (auto simp del: parse_step.simps(1-6))

lemma steps_feed: "steps ts p = Some p' \<Longrightarrow> feed ts p = Some p'"
  by (induction ts arbitrary: p) (auto simp: feed_step simp del: feed.simps(2) split: option.splits)

lemma steps_parse_tokens: "steps ts p = Some p' \<Longrightarrow> parse_tokens ts p = parse_tokens [] p'"
  by (induction ts arbitrary: p) (auto split: option.splits)

lemma json_toks_value: "steps (json_toks v) (WantValueOrClose, st) = steps (json_toks v) (WantValue, st)"
  by (cases v) simp_all

lemma steps_json:
  "json_depth v + length st \<le> maxNestingDepth \<Longrightarrow> steps (json_toks v) (WantValue, st) = deliver (json_text v) st"
  "elements_depth vs + length st < maxNestingDepth \<Longrightarrow> vs \<noteq> [] \<Longrightarrow>
    steps (elements_toks vs) (WantValue, FArr acc # st) = Some (AfterValue, FArr (acc @ elements_text vs) # st)"
  "members_depth kvs + length st < maxNestingDepth \<Longrightarrow> kvs \<noteq> [] \<Longrightarrow>
    steps (members_toks kvs) (WantKey, FObj macc # st) = Some (AfterValue, FObj (macc @ members_text kvs) # st)"
proof (induction v and vs and kvs arbitrary: st and acc st and macc st rule: encode_json_encode_elements_encode_members.induct)
  case (5 vs)
  have first: "steps (elements_toks vs) (WantValueOrClose, FArr [] # st) = steps (elements_toks vs) (WantValue, FArr [] # st)"
    if "vs \<noteq> []" using that json_toks_value by (cases vs) (simp_all add: steps_append)
  with 5 show ?case
    by (cases "vs = []") (simp_all add: push_frame_def steps_append split: option.split)
next
  case (6 kvs)
  have first: "steps (members_toks kvs) (WantKeyOrClose, FObj [] # st) = steps (members_toks kvs) (WantKey, FObj [] # st)"
    if "kvs \<noteq> []" using that by (cases kvs) (auto simp: steps_append)
  with 6 show ?case
    by (cases "kvs = []") (simp_all add: push_frame_def steps_append split: option.split)
next
  case (8 v vs)
  then show ?case by (cases "vs = []") (simp_all add: steps_append)
next
  case (10 k v kvs)
  then show ?case by (cases "kvs = []") (simp_all add: steps_append)
qed (simp_all split: option.split)

text \<open>
  A container is decoded from its own text, whatever follows it, as the value with its strings
  replaced by their texts; a text that is one value is parsed to it.
\<close>

fun is_container :: "jvalue \<Rightarrow> bool" where
  "is_container (JArray vs) = True"
| "is_container (JObject kvs) = True"
| "is_container _ = False"

lemma scan_run_container:
  assumes "is_container v" and "json_numbers v"
  shows "scan_run Between (encode_json v) = Some (json_toks v, Between)"
  using assms scan_run_json(2,3) by (cases v) (simp_all add: dispatch_punctuation)

lemma Decode_encode_json:
  assumes "is_container v" and "json_numbers v" and "json_depth v \<le> maxNestingDepth"
  shows "Decode (encode_json v @ rest) = Some (json_text v)"
proof -
  have "steps (json_toks v) (WantValue, []) = Some (Finished (json_text v), [])"
    using steps_json(1) [of v "[]"] assms(3) by simp
  then show ?thesis
    by (simp add: Decode_def decode_stream_scan_run [OF scan_run_container [OF assms(1,2)]] steps_feed)
qed

lemma parse_json_encode_json:
  assumes "is_container v" and "json_numbers v" and "json_depth v \<le> maxNestingDepth"
  shows "parse_json (encode_json v) = Some (json_text v)"
proof -
  have "steps (json_toks v) (WantValue, []) = Some (Finished (json_text v), [])"
    using steps_json(1) [of v "[]"] assms(3) by simp
  moreover have "scan Between (encode_json v) = Some (json_toks v)"
    using scan_scan_run [OF scan_run_container [OF assms(1,2)], of "[]"] by simp
  ultimately show ?thesis by (simp add: parse_json_def steps_parse_tokens)
qed

subsection \<open>Numbers\<close>

lemma dec_digits_first:
  "0 < n \<Longrightarrow> \<exists>c ds. dec_digits n = c # ds \<and> digit19 c \<and> dispatch c = Some ([], InNumber NInt [c]) \<and> list_all is_digit ds"
proof (induction n rule: dec_digits.induct)
  case (1 n)
  have leading: "list_all (\<lambda>n. digit19 (hextable ! n) \<and> dispatch (hextable ! n) = Some ([], InNumber NInt [hextable ! n])) [1..<10]"
    by code_simp
  show ?case
  proof (cases "n < 10")
    case True
    with 1 leading show ?thesis by (simp add: dec_digits.simps [of n] list_all_iff)
  next
    case False
    then have "0 < n div 10" "n mod 10 < 10" by (simp_all add: div_greater_zero_iff)
    with 1(1) [OF False] False is_digit_hextable show ?thesis by (auto simp: dec_digits.simps [of n])
  qed
qed

lemma scan_run_digits: "list_all is_digit ds \<Longrightarrow> scan_run (InNumber NInt u) ds = Some ([], InNumber NInt (u @ ds))"
  by (induction ds arbitrary: u) (simp_all add: number_next_def)

lemma number_text_Itoa: "number_text (Itoa i)"
proof (cases "i = 0")
  case True
  then show ?thesis
    by (simp add: Itoa_def number_text_def dec_digits.simps [of 0] hextable_def dispatch_def code_def number_ends_def)
next
  case False
  obtain c ds where d: "dec_digits (nat \<bar>i\<bar>) = c # ds" "digit19 c" "dispatch c = Some ([], InNumber NInt [c])" "list_all is_digit ds"
    using dec_digits_first [of "nat \<bar>i\<bar>"] False by auto
  have minus: "dispatch (CHR ''-'') = Some ([], InNumber NNeg ''-'')" by (simp add: dispatch_def code_def)
  from d(2) have "c \<noteq> CHR ''0''" by (auto simp: digit19_def code_def)
  with d False minus show ?thesis
    by (cases "i < 0") (simp_all add: Itoa_def number_text_def scan_run_digits number_ends_def number_next_def)
qed

end
