(* ===== verification/Go_Date.thy ===== *)
theory Go_Date
  imports Go_Strings
begin

text \<open>
  The calendar behind \<open>Time.Format(time.RFC3339)\<close> for a time in UTC: the steps of package time from
  a number of days to year, month and day, and that they are inverse to counting the days of a
  date. A time counts nanoseconds from 1970.
\<close>

subsection \<open>Dates\<close>

definition isLeap :: "int \<Rightarrow> bool" where
  "isLeap y \<longleftrightarrow> y mod 4 = 0 \<and> (y mod 100 \<noteq> 0 \<or> y mod 400 = 0)"

text \<open>From days since the first of January of the year 1 to the year and the day in it.\<close>

definition year_of_days :: "int \<Rightarrow> int \<times> int" where
  "year_of_days days =
     (let n400 = days div 146097; d = days mod 146097;
          n = d div 36524; n100 = n - n div 4; d = d - 36524 * n100;
          n4 = d div 1461; d = d mod 1461;
          n = d div 365; n1 = n - n div 4
      in (400 * n400 + 100 * n100 + 4 * n4 + n1 + 1, d - 365 * n1))"

definition daysBefore :: "nat list" where
  "daysBefore = [0, 31, 59, 90, 120, 151, 181, 212, 243, 273, 304, 334, 365]"

text \<open>From the day in the year, counted from zero, to month and day, counted from one.\<close>

definition month_of_day :: "bool \<Rightarrow> nat \<Rightarrow> nat \<times> nat" where
  "month_of_day leap yday =
     (if leap \<and> yday = 59 then (2, 29)
      else
        let day = (if leap \<and> 59 < yday then yday - 1 else yday);
            m = day div 31
        in if daysBefore ! (m + 1) \<le> day then (m + 2, day - daysBefore ! (m + 1) + 1)
           else (m + 1, day - daysBefore ! m + 1))"

definition date_of_days :: "int \<Rightarrow> int \<times> nat \<times> nat" where
  "date_of_days days =
     (case year_of_days days of (y, yday) \<Rightarrow> (y, month_of_day (isLeap y) (nat yday)))"

definition days_before_year :: "int \<Rightarrow> int" where
  "days_before_year y = 365 * (y - 1) + (y - 1) div 4 - (y - 1) div 100 + (y - 1) div 400"

definition days_of_date :: "int \<times> nat \<times> nat \<Rightarrow> int" where
  "days_of_date dt =
     (case dt of (y, m, d) \<Rightarrow>
        days_before_year y + int (daysBefore ! (m - 1) + (if isLeap y \<and> 2 < m then 1 else 0)) + int d - 1)"

lemma days_before_digits:
  fixes a b c e :: int
  assumes "0 \<le> b" "b \<le> 3" "0 \<le> c" "c \<le> 24" "0 \<le> e" "e \<le> 3"
  shows "days_before_year (400 * a + 100 * b + 4 * c + e + 1) = 146097 * a + 36524 * b + 1461 * c + 365 * e"
proof -
  let ?y = "400 * a + 100 * b + 4 * c + e"
  have "?y div 4 = 100 * a + 25 * b + c" using assms by (intro int_div_pos_eq [of _ _ _ e]) auto
  moreover have "?y div 100 = 4 * a + b" using assms by (intro int_div_pos_eq [of _ _ _ "4 * c + e"]) auto
  moreover have "?y div 400 = a" using assms by (intro int_div_pos_eq [of _ _ _ "100 * b + 4 * c + e"]) auto
  ultimately show ?thesis by (simp add: days_before_year_def)
qed

lemma leap_digits:
  fixes a b c :: int
  assumes "0 \<le> b" "b \<le> 3" "0 \<le> c" "c \<le> 24" "c = 24 \<longrightarrow> b = 3"
  shows "isLeap (400 * a + 100 * b + 4 * c + 3 + 1)"
proof -
  let ?y = "400 * a + 100 * b + 4 * c + 3 + 1"
  have "?y mod 4 = 0" by (intro int_mod_pos_eq [of _ _ "100 * a + 25 * b + c + 1"]) auto
  moreover have "?y mod 100 = 4 * c + 4" if "c \<noteq> 24" using assms that by (intro int_mod_pos_eq [of _ _ "4 * a + b"]) auto
  moreover have "?y mod 400 = 0" if "c = 24" using assms that by (intro int_mod_pos_eq [of _ _ "a + 1"]) auto
  ultimately show ?thesis using assms(3) by (cases "c = 24") (simp_all add: isLeap_def)
qed

text \<open>A division whose last part may be one longer than the others.\<close>

lemma long_last_part:
  fixes d :: int
  assumes "0 \<le> d" "d \<le> 4 * p" "0 < p"
  defines "n \<equiv> d div p - d div p div 4"
  shows "0 \<le> n" "n \<le> 3" "0 \<le> d - p * n" "d - p * n \<le> p" "n < 3 \<Longrightarrow> d - p * n < p"
proof -
  define q where "q = d div p"
  have q: "p * q + d mod p = d" "0 \<le> d mod p" "d mod p < p" using assms(3) by (simp_all add: q_def)
  have "p * q \<le> p * 4" using q(1,2) assms(2) by linarith
  then have "q \<le> 4" using assms(3) by simp
  moreover have "0 \<le> q" using assms(1,3) by (simp add: q_def pos_imp_zdiv_nonneg_iff)
  ultimately have "q = 0 \<or> q = 1 \<or> q = 2 \<or> q = 3 \<or> q = 4" by linarith
  moreover have n: "n = q - q div 4" by (simp add: n_def q_def)
  ultimately show "0 \<le> n" "n \<le> 3" "0 \<le> d - p * n" "d - p * n \<le> p" "n < 3 \<Longrightarrow> d - p * n < p"
    using q assms(2) by (elim disjE; simp)+
qed

lemma year_of_days_inverse:
  assumes "year_of_days days = (y, yday)"
  shows "days_before_year y + yday = days" and "0 \<le> yday" and "yday < (if isLeap y then 366 else 365)"
proof -
  define d1 where "d1 = days mod 146097"
  define b where "b = d1 div 36524 - d1 div 36524 div 4"
  define d2 where "d2 = d1 - 36524 * b"
  define c where "c = d2 div 1461"
  define d3 where "d3 = d2 mod 1461"
  define e where "e = d3 div 365 - d3 div 365 div 4"
  have eq: "y = 400 * (days div 146097) + 100 * b + 4 * c + e + 1" "yday = d3 - 365 * e"
  proof -
    have "year_of_days days = (400 * (days div 146097) + 100 * b + 4 * c + e + 1, d3 - 365 * e)"
      unfolding year_of_days_def Let_def e_def d3_def c_def d2_def b_def d1_def by (rule refl)
    with assms show "y = 400 * (days div 146097) + 100 * b + 4 * c + e + 1" "yday = d3 - 365 * e" by simp_all
  qed
  have d1: "0 \<le> d1" "d1 \<le> 4 * 36524" "days = 146097 * (days div 146097) + d1"
    using pos_mod_bound [of 146097 days] by (simp_all add: d1_def)
  note b = long_last_part [OF d1(1,2), folded b_def, simplified, folded d2_def]
  have c: "d2 = 1461 * c + d3" "0 \<le> d3" "d3 \<le> 4 * 365"
    using pos_mod_bound [of 1461 d2] by (simp_all add: c_def d3_def)
  have "1461 * c < 1461 * 25" using b(4) c(1,2) by linarith
  moreover have "0 \<le> d2" using b(3) by (simp add: d2_def)
  ultimately have c24: "0 \<le> c" "c \<le> 24" by (simp_all add: c_def pos_imp_zdiv_nonneg_iff)
  have short: "d3 < 1460" if "b < 3" "c = 24" using b(5) c(1) that by simp
  note e = long_last_part [OF c(2,3), folded e_def, simplified, folded eq(2)]
  show "days_before_year y + yday = days"
    unfolding eq(1) days_before_digits [OF b(1,2) c24(1,2) e(1,2)] using d1(3) c(1) eq(2) d2_def by linarith
  show "0 \<le> yday" using e(3) eq(2) by simp
  have "isLeap y" if "e = 3" "c = 24 \<longrightarrow> b = 3"
    unfolding eq(1) that(1) by (rule leap_digits [OF b(1,2) c24(1,2) that(2)])
  moreover have "yday < 365" if "e = 3" "c = 24" "b \<noteq> 3" using that short b(2) eq(2) by simp
  moreover have top: "yday \<le> 365" "yday < 365 \<or> e = 3" using e(2,4,5) eq(2) by linarith+
  ultimately have "yday < 365 \<or> isLeap y" by blast
  with top(1) show "yday < (if isLeap y then 366 else 365)" by auto
qed

lemma month_of_plain_day:
  assumes "day < 365"
  shows "case month_of_day False day of (m, d) \<Rightarrow> 1 \<le> m \<and> m \<le> 12 \<and> 1 \<le> d \<and> d \<le> 31 \<and> daysBefore ! (m - 1) + d = day + 1 \<and>
    (2 < m) = (59 \<le> day)"
proof -
  obtain k r where day: "day = 31 * k + r" "r < 31" using mult_div_mod_eq [of 31 day] by (metis mod_less_divisor zero_less_numeral)
  with assms have "k < 12" by linarith
  then have "k = 0 \<or> k = 1 \<or> k = 2 \<or> k = 3 \<or> k = 4 \<or> k = 5 \<or> k = 6 \<or> k = 7 \<or> k = 8 \<or> k = 9 \<or> k = 10 \<or> k = 11"
    by presburger
  moreover have "day div 31 = k" using day by simp
  then have "month_of_day False day =
      (if daysBefore ! (k + 1) \<le> day then (k + 2, day - daysBefore ! (k + 1) + 1) else (k + 1, day - daysBefore ! k + 1))"
    by (simp add: month_of_day_def Let_def)
  ultimately show ?thesis
    using day assms by (elim disjE) (simp_all add: daysBefore_def, linarith+)
qed

lemma month_of_day_inverse:
  assumes "yday < (if leap then 366 else 365)"
  shows "case month_of_day leap yday of (m, d) \<Rightarrow>
    1 \<le> m \<and> m \<le> 12 \<and> 1 \<le> d \<and> d \<le> 31 \<and> daysBefore ! (m - 1) + (if leap \<and> 2 < m then 1 else 0) + d = yday + 1"
proof -
  consider "\<not> leap" | "leap" "yday < 59" | "leap" "yday = 59" | "leap" "59 < yday" by linarith
  then show ?thesis
  proof cases
    case 1
    with assms month_of_plain_day [of yday] show ?thesis by auto
  next
    case 2
    with month_of_plain_day [of yday] show ?thesis by (auto simp: month_of_day_def)
  next
    case 3
    then show ?thesis by (simp add: month_of_day_def daysBefore_def)
  next
    case 4
    with assms have "month_of_day leap yday = month_of_day False (yday - 1)" by (simp add: month_of_day_def)
    moreover have "yday - 1 < 365" "59 \<le> yday - 1" "yday - 1 + 1 = yday" using 4 assms by auto
    ultimately show ?thesis using month_of_plain_day [of "yday - 1"] 4(1) by auto
  qed
qed

text \<open>The date of a day counts that many days, and its month and day are in range.\<close>

lemma date_of_days_inverse:
  assumes "date_of_days days = (y, m, d)"
  shows "days_of_date (y, m, d) = days" and "1 \<le> m \<and> m \<le> 12 \<and> 1 \<le> d \<and> d \<le> 31"
proof -
  obtain yday where y: "year_of_days days = (y, yday)" "month_of_day (isLeap y) (nat yday) = (m, d)"
    using assms by (auto simp: date_of_days_def split: prod.splits)
  note year = year_of_days_inverse [OF y(1)]
  have "nat yday < (if isLeap y then 366 else 365)" using year(2,3) by (auto split: if_splits)
  from month_of_day_inverse [OF this] y(2)
  have "1 \<le> m \<and> m \<le> 12 \<and> 1 \<le> d \<and> d \<le> 31" "daysBefore ! (m - 1) + (if isLeap y \<and> 2 < m then 1 else 0) + d = nat yday + 1"
    by (simp_all only: prod.case)
  then show "days_of_date (y, m, d) = days" and "1 \<le> m \<and> m \<le> 12 \<and> 1 \<le> d \<and> d \<le> 31"
    using year(1,2) unfolding days_of_date_def prod.case by (linarith, blast)
qed

subsection \<open>RFC 3339\<close>

definition appendInt :: "int \<Rightarrow> nat \<Rightarrow> string" where
  "appendInt x width =
     (let ds = dec_digits (nat \<bar>x\<bar>) in (if x < 0 then ''-'' else '''') @ replicate (width - length ds) CHR ''0'' @ ds)"

definition format_RFC3339 :: "time \<Rightarrow> string" where
  "format_RFC3339 t =
     (let secs = t div Second; sod = secs mod 86400 in
      case date_of_days (secs div 86400 + 719162) of
        (y, m, d) \<Rightarrow>
          appendInt y 4 @ ''-'' @ appendInt (int m) 2 @ ''-'' @ appendInt (int d) 2 @ ''T'' @
          appendInt (sod div 3600) 2 @ '':'' @ appendInt (sod mod 3600 div 60) 2 @ '':'' @ appendInt (sod mod 60) 2 @ ''Z'')"

lemma format_epoch: "format_RFC3339 0 = ''1970-01-01T00:00:00Z''"
proof -
  have "date_of_days 719162 = (1970, 1, 1)"
    by (simp add: date_of_days_def year_of_days_def isLeap_def month_of_day_def daysBefore_def)
  moreover have "dec_digits 1970 = ''1970''" "dec_digits 1 = ''1''" "dec_digits 0 = ''0''"
    by (simp_all add: dec_digits.simps [of 1970] dec_digits.simps [of 197] dec_digits.simps [of 19] dec_digits.simps [of 1]
        dec_digits.simps [of "Suc 0"] dec_digits.simps [of 0] hextable_def)
  ultimately show ?thesis by (simp add: format_RFC3339_def appendInt_def)
qed

end
