(* ===== verification/Response_Text.thy ===== *)
theory Response_Text
  imports Json_Text Go_Date Go_Http "HOL-Library.Char_ord" "HOL-Library.List_Lexorder"
begin

text \<open>
  The bytes of a response: the field names and the order that the struct tags of
  pkg/vaultresponse/types.go give a body, the text of \<open>json.Encoder.Encode\<close> and what the client
  receives. The keys of a map are written in the order of their bytes.
\<close>

subsection \<open>The response types as JSON\<close>

definition json_int :: "int \<Rightarrow> jvalue" where
  "json_int i = JNumber (Itoa i)"

definition json_strings :: "string list \<Rightarrow> jvalue" where
  "json_strings xs = JArray (map JString xs)"

definition json_strmap :: "strmap \<Rightarrow> jvalue" where
  "json_strmap m = JObject (map (\<lambda>k. (k, JString (the (m k)))) (sorted_list_of_set (dom m)))"

definition json_ErrorResponse :: "ErrorResponse \<Rightarrow> jvalue" where
  "json_ErrorResponse r = JObject [(''errors'', json_strings (er_Errors r))]"

definition json_HealthResponse :: "HealthResponse \<Rightarrow> jvalue" where
  "json_HealthResponse r = JObject
     [(''initialized'', JBool (hr_Initialized r)), (''sealed'', JBool (hr_Sealed r)), (''standby'', JBool (hr_Standby r)),
      (''performance_standby'', JBool (hr_PerformanceStandby r)),
      (''replication_performance_mode'', JString (hr_ReplicationPerformanceMode r)),
      (''replication_dr_mode'', JString (hr_ReplicationDRMode r)), (''server_time_utc'', json_int (hr_ServerTimeUTC r)),
      (''version'', JString (hr_Version r)), (''cluster_name'', JString (hr_ClusterName r)), (''cluster_id'', JString (hr_ClusterID r))]"

definition json_SealStatusResponse :: "SealStatusResponse \<Rightarrow> jvalue" where
  "json_SealStatusResponse r = JObject
     [(''type'', JString (ss_Type r)), (''initialized'', JBool (ss_Initialized r)), (''sealed'', JBool (ss_Sealed r)),
      (''t'', json_int (ss_T r)), (''n'', json_int (ss_N r)), (''progress'', json_int (ss_Progress r)),
      (''nonce'', JString (ss_Nonce r)), (''version'', JString (ss_Version r)), (''build_date'', JString (ss_BuildDate r)),
      (''migration'', JBool (ss_Migration r)), (''cluster_name'', JString (ss_ClusterName r)),
      (''cluster_id'', JString (ss_ClusterID r)), (''recovery_seal'', JBool (ss_RecoverySeal r)),
      (''storage_type'', JString (ss_StorageType r))]"

definition json_Auth :: "Auth \<Rightarrow> jvalue" where
  "json_Auth a = JObject
     [(''client_token'', JString (au_ClientToken a)), (''accessor'', JString (au_Accessor a)),
      (''policies'', json_strings (au_Policies a)), (''token_policies'', json_strings (au_TokenPolicies a)),
      (''metadata'', json_strmap (au_Metadata a)), (''lease_duration'', json_int (au_LeaseDuration a)),
      (''renewable'', JBool (au_Renewable a)), (''entity_id'', JString (au_EntityID a)),
      (''token_type'', JString (au_TokenType a)), (''orphan'', JBool (au_Orphan a))]"

definition json_AuthResponse :: "AuthResponse \<Rightarrow> jvalue" where
  "json_AuthResponse r = JObject
     [(''request_id'', JString (ar_RequestID r)), (''lease_id'', JString (ar_LeaseID r)), (''renewable'', JBool (ar_Renewable r)),
      (''lease_duration'', json_int (ar_LeaseDuration r)), (''data'', ar_Data r), (''wrap_info'', ar_WrapInfo r),
      (''warnings'', ar_Warnings r), (''auth'', case ar_Auth r of None \<Rightarrow> JNull | Some a \<Rightarrow> json_Auth a)]"

definition json_SecretMetadata :: "SecretMetadata \<Rightarrow> jvalue" where
  "json_SecretMetadata m = JObject
     [(''created_time'', JString (format_RFC3339 (sm_CreatedTime m))), (''custom_metadata'', sm_CustomMetadata m),
      (''deletion_time'', JString (sm_DeletionTime m)), (''destroyed'', JBool (sm_Destroyed m)), (''version'', json_int (sm_Version m))]"

definition json_SecretData :: "SecretData \<Rightarrow> jvalue" where
  "json_SecretData d = JObject
     [(''data'', case sd_Data d of None \<Rightarrow> JNull | Some m \<Rightarrow> json_strmap m), (''metadata'', json_SecretMetadata (sd_Metadata d))]"

definition json_SecretResponse :: "SecretResponse \<Rightarrow> jvalue" where
  "json_SecretResponse r = JObject
     [(''request_id'', JString (sr_RequestID r)), (''lease_id'', JString (sr_LeaseID r)), (''renewable'', JBool (sr_Renewable r)),
      (''lease_duration'', json_int (sr_LeaseDuration r)), (''data'', json_SecretData (sr_Data r)), (''wrap_info'', sr_WrapInfo r),
      (''warnings'', sr_Warnings r), (''auth'', sr_Auth r)]"

subsection \<open>Bodies and responses\<close>

text \<open>\<open>Encoder.Encode\<close> ends a value with a newline.\<close>

definition Encode :: "jvalue \<Rightarrow> string" where
  "Encode v = encode_json v @ [CHR 0x0A]"

definition html_char :: "char \<Rightarrow> string" where
  "html_char c =
     (if c = CHR ''&'' then ''&amp;'' else if c = CHR ''<'' then ''&lt;'' else if c = CHR ''>'' then ''&gt;''
      else if c = CHR 0x22 then ''&#34;'' else if c = CHR 0x27 then ''&#39;'' else [c])"

definition redirect_page :: "string \<Rightarrow> string" where
  "redirect_page url = ''<a href='' @ [CHR 0x22] @ concat (map html_char url) @ [CHR 0x22] @ ''>Temporary Redirect</a>.'' @ [CHR 0x0A, CHR 0x0A]"

fun body_text :: "body \<Rightarrow> string" where
  "body_text (BError r) = Encode (json_ErrorResponse r)"
| "body_text (BHealth r) = Encode (json_HealthResponse r)"
| "body_text (BSeal r) = Encode (json_SealStatusResponse r)"
| "body_text (BAuth r) = Encode (json_AuthResponse r)"
| "body_text (BSecret r) = Encode (json_SecretResponse r)"
| "body_text (BText s) = s"
| "body_text (BRedirect url) = redirect_page url"

text \<open>
  The text of the body as the server sends it: nothing in answer to HEAD or with the status 204;
  a handler that wrote nothing is answered by an empty 200.
\<close>

definition sent_status :: "ResponseWriter \<Rightarrow> nat" where
  "sent_status w = (case response_status w of Some st \<Rightarrow> st | None \<Rightarrow> 200)"

definition sent_text :: "string \<Rightarrow> ResponseWriter \<Rightarrow> string" where
  "sent_text mth w = (if mth = ''HEAD'' \<or> sent_status w = 204 then '''' else concat (map body_text (rw_body w)))"

subsection \<open>Reading the bodies back\<close>

lemmas json_defs = json_ErrorResponse_def json_HealthResponse_def json_SealStatusResponse_def json_Auth_def json_AuthResponse_def
  json_SecretMetadata_def json_SecretData_def json_SecretResponse_def

lemma elements_strings [simp]:
  "elements_numbers (map JString xs)" "elements_depth (map JString xs) = 0" "elements_text (map JString xs) = map (JString \<circ> utf8_text) xs"
  by (induction xs) simp_all

lemma members_strings [simp]:
  "members_numbers (map (\<lambda>k. (k, JString (f k))) ks)" "members_depth (map (\<lambda>k. (k, JString (f k))) ks) = 0"
  "members_text (map (\<lambda>k. (k, JString (f k))) ks) = map (\<lambda>k. (utf8_text k, JString (utf8_text (f k)))) ks"
  by (induction ks) simp_all

lemma json_leaves [simp]:
  "json_numbers (json_int i)" "json_depth (json_int i) = 0" "json_text (json_int i) = json_int i"
  "json_numbers (json_strings xs)" "json_depth (json_strings xs) = 1" "json_text (json_strings xs) = json_strings (map utf8_text xs)"
  "json_numbers (json_strmap m)" "json_depth (json_strmap m) = 1"
  by (simp_all add: json_int_def json_strings_def json_strmap_def number_text_Itoa)

lemma utf8_text_ascii: "ascii s \<Longrightarrow> utf8_text s = s"
  by (simp add: utf8_text_valid valid_utf8_ascii)

lemma Decode_Encode:
  assumes "is_container v" and "json_numbers v" and "json_depth v \<le> maxNestingDepth"
  shows "Decode (Encode v) = Some (json_text v)"
  by (simp add: Encode_def Decode_encode_json assms)

end
