(* ===== verification/Json_Valid.thy ===== *)
theory Json_Valid
  imports Json_Text
begin

text \<open>
  Strings that come out of the JSON decoder are UTF-8: runes are encoded as sequences that are read
  back as one rune, and every key and value of a decoded map is made of runes.
\<close>

subsection \<open>Encoded runes\<close>

lemma code_char_of: "n < 256 \<Longrightarrow> code (char_of n) = n"
  by (simp add: code_def)

text \<open>What \<open>EncodeRune\<close> writes is read as one rune, whatever follows: by the length of the encoding.\<close>

lemma DecodeRune_width_two:
  fixes x y :: nat
  assumes "2 \<le> x" "x < 32" "y < 64"
  shows "snd (DecodeRune ([char_of (192 + x), char_of (128 + y)] @ t)) = 2"
proof -
  have "rune_len (192 + x) = 2" "second_ok (192 + x) (128 + y)" using assms by (auto simp: rune_len_def second_ok_def is_cont_def)
  with assms show ?thesis by (simp add: DecodeRune_def decode_codes_def code_char_of)
qed

lemma DecodeRune_width_three:
  fixes x y z :: nat
  assumes "x < 16" "second_ok (224 + x) (128 + y)" "y < 64" "z < 64"
  shows "snd (DecodeRune ([char_of (224 + x), char_of (128 + y), char_of (128 + z)] @ t)) = 3"
proof -
  have "rune_len (224 + x) = 3" "is_cont (128 + z)" using assms by (auto simp: rune_len_def is_cont_def)
  with assms show ?thesis by (simp add: DecodeRune_def decode_codes_def code_char_of)
qed

lemma DecodeRune_width_four:
  fixes x y z u :: nat
  assumes "x < 5" "second_ok (240 + x) (128 + y)" "y < 64" "z < 64" "u < 64"
  shows "snd (DecodeRune ([char_of (240 + x), char_of (128 + y), char_of (128 + z), char_of (128 + u)] @ t)) = 4"
proof -
  have "rune_len (240 + x) = 4" "is_cont (128 + z)" "is_cont (128 + u)" using assms by (auto simp: rune_len_def is_cont_def)
  with assms show ?thesis by (simp add: DecodeRune_def decode_codes_def code_char_of)
qed

text \<open>The second byte of a longer encoding is neither overlong nor part of a surrogate nor past the last rune.\<close>

lemma three_second_ok:
  assumes "2048 \<le> r" "\<not> (55296 \<le> r \<and> r \<le> 57343)" "r < 65536"
  shows "second_ok (224 + r div 64 div 64) (128 + r div 64 mod 64)" and "r div 64 div 64 < 16"
proof -
  define q x y where "q = r div 64" and "x = q div 64" and "y = q mod 64"
  have q: "q = 64 * x + y" "y < 64" "x < 16" "32 \<le> q" "r mod 64 < 64" using assms by (simp_all add: q_def x_def y_def)
  have surr: "y < 32" if "x = 13"
  proof (rule ccontr)
    have r: "r = 64 * q + r mod 64" by (simp add: q_def)
    assume "\<not> y < 32"
    then have "55296 \<le> r" "r \<le> 57343" using that q(1,2,5) r by linarith+
    with assms(2) show False by simp
  qed
  have "second_ok (224 + x) (128 + y)" using q surr by (auto simp: second_ok_def is_cont_def)
  with q(3) show "second_ok (224 + r div 64 div 64) (128 + r div 64 mod 64)" "r div 64 div 64 < 16"
    unfolding x_def y_def q_def by - assumption+
qed

lemma four_second_ok:
  assumes "65536 \<le> r" "r \<le> 1114111"
  shows "second_ok (240 + r div 64 div 64 div 64) (128 + r div 64 div 64 mod 64)" and "r div 64 div 64 div 64 < 5"
proof -
  define q x y where "q = r div 64 div 64" and "x = q div 64" and "y = q mod 64"
  have "16 \<le> q" "q < 272" using assms unfolding q_def
    by (simp_all flip: div_mult2_eq add: div_less_iff_less_mult less_eq_div_iff_mult_less_eq)
  moreover have xy: "q = 64 * x + y" "y < 64" by (simp_all add: x_def y_def)
  ultimately have q: "x < 5" "x = 0 \<Longrightarrow> 16 \<le> y" "x = 4 \<Longrightarrow> y < 16" by linarith+
  have "second_ok (240 + x) (128 + y)" using q xy by (auto simp: second_ok_def is_cont_def)
  with q(1) show "second_ok (240 + r div 64 div 64 div 64) (128 + r div 64 div 64 mod 64)" "r div 64 div 64 div 64 < 5"
    unfolding x_def y_def q_def by - assumption+
qed

lemma EncodeRune_width:
  assumes "\<not> r < 128"
  shows "snd (DecodeRune (EncodeRune r @ t)) = length (EncodeRune r) \<and> 1 < length (EncodeRune r)"
proof -
  have low: "m mod 64 < 64" for m :: nat by simp
  consider (two) "r < 2048" | (bad) "2048 \<le> r" "1114111 < r \<or> (55296 \<le> r \<and> r \<le> 57343)"
    | (three) "2048 \<le> r" "\<not> (55296 \<le> r \<and> r \<le> 57343)" "r < 65536" | (four) "65536 \<le> r" "r \<le> 1114111" by linarith
  then show ?thesis
  proof cases
    case two
    then have e: "EncodeRune r = [char_of (192 + r div 64), char_of (128 + r mod 64)]"
      using assms by (simp add: EncodeRune_def utf8_bytes_def)
    have "2 \<le> r div 64" "r div 64 < 32" using assms two by simp_all
    then show ?thesis unfolding e by (simp only: DecodeRune_width_two low list.size) simp
  next
    case bad
    then have e: "EncodeRune r = [char_of (224 + 15 :: nat), char_of (128 + 63 :: nat), char_of (128 + 61 :: nat)]"
      by (auto simp: EncodeRune_def utf8_bytes_def)
    have "second_ok (224 + 15) (128 + 63)" by (simp add: second_ok_def is_cont_def)
    then show ?thesis unfolding e by (subst DecodeRune_width_three) simp_all
  next
    case three
    then have e: "EncodeRune r = [char_of (224 + r div 64 div 64), char_of (128 + r div 64 mod 64), char_of (128 + r mod 64)]"
      by (auto simp: EncodeRune_def utf8_bytes_def div_sextets)
    show ?thesis unfolding e by (simp only: DecodeRune_width_three three_second_ok [OF three] low list.size) simp
  next
    case four
    then have e: "EncodeRune r = [char_of (240 + r div 64 div 64 div 64), char_of (128 + r div 64 div 64 mod 64),
        char_of (128 + r div 64 mod 64), char_of (128 + r mod 64)]"
      by (simp add: EncodeRune_def utf8_bytes_def div_sextets)
    show ?thesis unfolding e by (simp only: DecodeRune_width_four four_second_ok [OF four] low list.size) simp
  qed
qed

lemma valid_EncodeRune: "valid_utf8 t \<Longrightarrow> valid_utf8 (EncodeRune r @ t)"
proof (cases "r < 128")
  case True
  then have "EncodeRune r = [char_of r]" "code (char_of r) = r" by (simp_all add: EncodeRune_def utf8_bytes_def code_char_of)
  moreover assume "valid_utf8 t"
  ultimately show ?thesis using True DecodeRune_ascii [of "char_of r # t"] by (simp add: valid_utf8.simps [of "char_of r # t"])
next
  case False
  moreover assume "valid_utf8 t"
  ultimately show ?thesis
    using EncodeRune_width [of r t] EncodeRune_nonempty [of r] by (simp add: valid_utf8.simps [of "EncodeRune r @ t"])
qed

lemma valid_EncodeRunes: "valid_utf8 t \<Longrightarrow> valid_utf8 (concat (map EncodeRune rs) @ t)"
  by (induction rs) (simp_all add: valid_EncodeRune)

lemma valid_unquote: "valid_utf8 (unquote us)"
proof (induction us rule: unquote.induct)
  case (2 c us)
  then show ?case unfolding unquote.simps by (rule valid_EncodeRunes)
next
  case (3 n us)
  then show ?case using valid_EncodeRune [of "[]"] by (auto simp: valid_EncodeRune split: list.split sunit.split)
qed (simp add: valid_utf8.simps)

subsection \<open>Decoded values\<close>

text \<open>Every string that the decoder hands on is valid, so a decoded map is.\<close>

fun json_valid :: "jvalue \<Rightarrow> bool" where
  "json_valid (JString s) = valid_utf8 s"
| "json_valid (JArray vs) = list_all json_valid vs"
| "json_valid (JObject kvs) = list_all (\<lambda>(k, v). valid_utf8 k \<and> json_valid v) kvs"
| "json_valid JNull = True"
| "json_valid (JBool b) = True"
| "json_valid (JNumber t) = True"

definition tok_valid :: "tok \<Rightarrow> bool" where
  "tok_valid t = (case t of TStr s \<Rightarrow> valid_utf8 s | TVal v \<Rightarrow> json_valid v | _ \<Rightarrow> True)"

definition mode_valid :: "mode \<Rightarrow> bool" where
  "mode_valid m = (case m of InLiteral _ t \<Rightarrow> tok_valid t | _ \<Rightarrow> True)"

lemma dispatch_valid: "dispatch c = Some (ts, m) \<Longrightarrow> list_all tok_valid ts \<and> mode_valid m"
  by (auto simp: dispatch_def tok_valid_def mode_valid_def split: if_splits)

lemma scan_step_valid:
  "scan_step m c = Some (ts, m') \<Longrightarrow> mode_valid m \<Longrightarrow> list_all tok_valid ts \<and> mode_valid m'"
  by (cases m)
    (auto simp: mode_valid_def tok_valid_def valid_unquote dest!: dispatch_valid split: if_splits option.splits)

lemma scan_valid: "scan m s = Some ts \<Longrightarrow> mode_valid m \<Longrightarrow> list_all tok_valid ts"
proof (induction m s arbitrary: ts rule: scan.induct)
  case (1 m)
  then show ?case by (auto simp: tok_valid_def split: mode.splits if_splits)
next
  case (2 m c s)
  then show ?case by (fastforce dest: scan_step_valid split: option.splits)
qed

definition frame_valid :: "frame \<Rightarrow> bool" where
  "frame_valid f =
     (case f of FArr vs \<Rightarrow> json_valid (JArray vs) | FObj kvs \<Rightarrow> json_valid (JObject kvs) | FKey kvs k \<Rightarrow> json_valid (JObject kvs) \<and> valid_utf8 k)"

definition pstate_valid :: "pstate \<Rightarrow> bool" where
  "pstate_valid p = (list_all frame_valid (snd p) \<and> (case fst p of Finished v \<Rightarrow> json_valid v | _ \<Rightarrow> True))"

lemma deliver_valid: "deliver v st = Some p \<Longrightarrow> json_valid v \<Longrightarrow> list_all frame_valid st \<Longrightarrow> pstate_valid p"
  by (cases "(v, st)" rule: deliver.cases) (auto simp: pstate_valid_def frame_valid_def)

lemma close_frame_valid: "close_frame t st = Some p \<Longrightarrow> list_all frame_valid st \<Longrightarrow> pstate_valid p"
  by (cases "(t, st)" rule: close_frame.cases) (auto simp: frame_valid_def intro: deliver_valid)

lemma begin_value_valid: "begin_value t st = Some p \<Longrightarrow> tok_valid t \<Longrightarrow> list_all frame_valid st \<Longrightarrow> pstate_valid p"
  by (cases t) (auto simp: tok_valid_def push_frame_def pstate_valid_def frame_valid_def split: if_splits dest: deliver_valid)

lemma object_key_valid: "object_key t st = Some p \<Longrightarrow> tok_valid t \<Longrightarrow> list_all frame_valid st \<Longrightarrow> pstate_valid p"
  by (cases "(t, st)" rule: object_key.cases) (auto simp: tok_valid_def pstate_valid_def frame_valid_def)

lemma parse_step_valid: "parse_step t p = Some p' \<Longrightarrow> tok_valid t \<Longrightarrow> pstate_valid p \<Longrightarrow> pstate_valid p'"
proof -
  assume a: "parse_step t p = Some p'" "tok_valid t" "pstate_valid p"
  obtain ph st where p: "p = (ph, st)" by fastforce
  with a(3) have "list_all frame_valid st" by (simp add: pstate_valid_def)
  with a p show ?thesis
    by (cases ph)
      (auto simp: pstate_valid_def split: if_splits list.splits frame.splits
        dest: begin_value_valid close_frame_valid object_key_valid)
qed

lemma parse_tokens_valid: "parse_tokens ts p = Some v \<Longrightarrow> list_all tok_valid ts \<Longrightarrow> pstate_valid p \<Longrightarrow> json_valid v"
  by (induction ts p rule: parse_tokens.induct) (auto simp: pstate_valid_def [of "(Finished _, _)"] split: option.splits dest: parse_step_valid)

lemma parse_json_valid: "parse_json s = Some v \<Longrightarrow> json_valid v"
proof -
  assume "parse_json s = Some v"
  then obtain ts where "scan Between s = Some ts" "parse_tokens ts (WantValue, []) = Some v"
    by (auto simp: parse_json_def split: option.splits)
  moreover from this(1) have "list_all tok_valid ts" by (rule scan_valid) (simp add: mode_valid_def)
  ultimately show ?thesis using parse_tokens_valid [of ts "(WantValue, [])" v] by (simp add: pstate_valid_def)
qed

definition valid_map :: "strmap \<Rightarrow> bool" where
  "valid_map m \<longleftrightarrow> finite (dom m) \<and> (\<forall>k v. m k = Some v \<longrightarrow> valid_utf8 k \<and> valid_utf8 v)"

lemma valid_map_update: "valid_map m \<Longrightarrow> valid_utf8 k \<Longrightarrow> valid_utf8 v \<Longrightarrow> valid_map (m(k \<mapsto> v))"
  by (simp add: valid_map_def)

lemma valid_Nil [simp]: "valid_utf8 []"
  by (simp add: valid_utf8.simps)

lemma store_members_valid:
  "store_members kvs m = Some m' \<Longrightarrow> json_valid (JObject kvs) \<Longrightarrow> valid_map m \<Longrightarrow> valid_map m'"
  by (induction kvs m rule: store_members.induct) (simp_all add: valid_map_update)

lemma Unmarshal_map_valid: "Unmarshal_map s = Some (Some m) \<Longrightarrow> valid_map m"
  by (auto simp: Unmarshal_map_def split: option.splits jvalue.splits dest!: parse_json_valid elim!: store_members_valid)
    (simp_all add: valid_map_def)

lemma store_fields_valid:
  "store_fields fields kvs r = Some r' \<Longrightarrow> json_valid (JObject kvs) \<Longrightarrow> (\<And>f. valid_utf8 (r f)) \<Longrightarrow> valid_utf8 (r' f)"
proof (induction fields kvs r rule: store_fields.induct)
  case (2 fields k v kvs r)
  then show ?case by (auto simp: fun_upd_def split: option.splits jvalue.splits)
qed simp

lemma Unmarshal_strings_valid: "Unmarshal_strings fields s = Some r \<Longrightarrow> valid_utf8 (r f)"
  by (auto simp: Unmarshal_strings_def split: option.splits jvalue.splits dest!: parse_json_valid elim!: store_fields_valid)

end
