(* ===== verification/Inject_Client.thy ===== *)
theory Inject_Client
  imports Go_Json_Encode Go_Time
begin

text \<open>
  The HTTP side of cmd/vault-inject/main.go: the client, its two requests and the retry loop. The
  network is an argument: what building a request for a URL and sending it give, in a state of
  the remote side that each exchange may change. The texts of JSON errors are arguments as well.
\<close>

subsection \<open>Retrying\<close>

text \<open>\<open>isRetryable\<close> on an error given by its text; it is only called on an error.\<close>

definition isRetryable :: "string \<Rightarrow> bool" where
  "isRetryable err \<longleftrightarrow> \<not> Contains err ''HTTP 4''"

text \<open>
  An attempt maps a state to an error, or none, and a state. The delay is a signed 64-bit number
  of nanoseconds, so the shift wraps around. The result also lists the delays slept.
\<close>

function retry_loop ::
  "int \<Rightarrow> 64 word \<Rightarrow> ('s \<Rightarrow> string option \<times> 's) \<Rightarrow> int \<Rightarrow> string option \<Rightarrow> 's \<Rightarrow> 64 word list \<Rightarrow> string option \<times> 's \<times> 64 word list" where
  "retry_loop maxAttempts base fn i err s slept =
     (if i < maxAttempts then
        case fn s of
          (None, s) \<Rightarrow> (None, s, slept)
        | (Some err, s) \<Rightarrow>
            if \<not> isRetryable err then (Some err, s, slept)
            else retry_loop maxAttempts base fn (i + 1) (Some err) s
                   (if i < maxAttempts - 1 then slept @ [push_bit (nat i) base] else slept)
      else (err, s, slept))"
  by pat_completeness auto
termination
  by (relation "measure (\<lambda>(maxAttempts, base, fn, i, err, s, slept). nat (maxAttempts - i))") auto

declare retry_loop.simps [simp del]

definition withRetry ::
  "int \<Rightarrow> 64 word \<Rightarrow> ('s \<Rightarrow> string option \<times> 's) \<Rightarrow> 's \<Rightarrow> string option \<times> 's \<times> 64 word list" where
  "withRetry maxAttempts base fn s = retry_loop maxAttempts base fn 0 None s []"

subsection \<open>The client\<close>

record vaultClient =
  vc_addr :: string
  vc_token :: string
  vc_MinVersion :: "16 word"
  vc_InsecureSkipVerify :: bool
  vc_RootCAs :: "string option"
  vc_Timeout :: duration

text \<open>\<open>has_certs\<close> is what \<open>AppendCertsFromPEM\<close> says of a file; without a pool the system's roots count.\<close>

definition newClient ::
  "(string \<Rightarrow> string + string) \<Rightarrow> (string \<Rightarrow> bool) \<Rightarrow> string \<Rightarrow> bool \<Rightarrow> string \<Rightarrow> string + vaultClient" where
  "newClient ReadFile has_certs addr skipVerify caCertPath =
     (let client = (\<lambda>pool. \<lparr>vc_addr = TrimRightByte addr CHR ''/'', vc_token = '''', vc_MinVersion = 0x0303,
                      vc_InsecureSkipVerify = skipVerify, vc_RootCAs = pool, vc_Timeout = 30 * Second\<rparr>)
      in
      if caCertPath \<noteq> '''' \<and> \<not> skipVerify then
        case ReadFile caCertPath of
          Inl err \<Rightarrow> Inl (''read CA cert '' @ caCertPath @ '': '' @ err)
        | Inr pem \<Rightarrow>
            if \<not> has_certs pem then Inl (''parse CA cert '' @ caCertPath @ '': no valid certificates found'')
            else Inr (client (Some pem))
      else Inr (client None))"

subsection \<open>Exchanges\<close>

text \<open>
  The context of a request: every request lives under the timeout of the login, a read also under
  its own.
\<close>

record http_ctx =
  cx_login :: duration
  cx_read :: "duration option"

record http_request =
  hq_Method :: string
  hq_URL :: string
  hq_Header :: strmap
  hq_Body :: string

record http_response =
  rp_StatusCode :: int
  rp_Body :: string

record 's http_client =
  hx_NewRequest :: "string \<Rightarrow> string option"
  hx_Do :: "vaultClient \<Rightarrow> http_ctx \<Rightarrow> http_request \<Rightarrow> 's \<Rightarrow> (string + http_response) \<times> 's"
  hx_decode_error :: "http_response \<Rightarrow> string"

text \<open>
  Storing decoded JSON: into a slice of strings, where a null element keeps what is there, and
  into the two response structs, where null changes nothing and members are taken in order.
\<close>

fun store_elements :: "jvalue list \<Rightarrow> string list \<Rightarrow> string list option" where
  "store_elements [] old = Some []"
| "store_elements (JString s # vs) old = map_option ((#) s) (store_elements vs (tl old))"
| "store_elements (JNull # vs) old = map_option ((#) (if old = [] then '''' else hd old)) (store_elements vs (tl old))"
| "store_elements (_ # vs) old = None"

fun store_slice :: "jvalue \<Rightarrow> string list \<Rightarrow> string list option" where
  "store_slice JNull old = Some []"
| "store_slice (JArray vs) old = store_elements vs old"
| "store_slice _ old = None"

record loginResponse =
  ln_ClientToken :: string
  ln_Errors :: "string list"

fun store_auth :: "jvalue \<Rightarrow> string \<Rightarrow> string option" where
  "store_auth JNull old = Some old"
| "store_auth (JObject kvs) old = map_option (\<lambda>f. f ''client_token'') (store_fields [''client_token''] kvs (\<lambda>_. old))"
| "store_auth _ old = None"

fun store_login :: "(string \<times> jvalue) list \<Rightarrow> loginResponse \<Rightarrow> loginResponse option" where
  "store_login [] r = Some r"
| "store_login ((k, v) # kvs) r =
     (case field_of [''auth'', ''errors''] k of
        None \<Rightarrow> store_login kvs r
      | Some f \<Rightarrow>
          if f = ''auth'' then
            (case store_auth v (ln_ClientToken r) of
               None \<Rightarrow> None
             | Some t \<Rightarrow> store_login kvs (r\<lparr>ln_ClientToken := t\<rparr>))
          else
            (case store_slice v (ln_Errors r) of
               None \<Rightarrow> None
             | Some es \<Rightarrow> store_login kvs (r\<lparr>ln_Errors := es\<rparr>)))"

definition decode_loginResponse :: "string \<Rightarrow> loginResponse option" where
  "decode_loginResponse s =
     (let zero = \<lparr>ln_ClientToken = '''', ln_Errors = []\<rparr> in
      case Decode s of
        Some JNull \<Rightarrow> Some zero
      | Some (JObject kvs) \<Rightarrow> store_login kvs zero
      | _ \<Rightarrow> None)"

definition Marshal_login :: "string \<Rightarrow> string \<Rightarrow> string" where
  "Marshal_login role jwt =
     ''{'' @ appendString ''role'' @ '':'' @ appendString role @ '','' @ appendString ''jwt'' @ '':'' @ appendString jwt @ ''}''"

definition inject_login :: "'s http_client \<Rightarrow> http_ctx \<Rightarrow> vaultClient \<Rightarrow> string \<Rightarrow> string \<Rightarrow> 's \<Rightarrow> (string + string) \<times> 's" where
  "inject_login hx ctx c role jwt s =
     (let body = Marshal_login role jwt; url = vc_addr c @ ''/v1/auth/kubernetes/login'' in
      case hx_NewRequest hx url of
        Some err \<Rightarrow> (Inl err, s)
      | None \<Rightarrow>
      let req = \<lparr>hq_Method = ''POST'', hq_URL = url, hq_Header = [''Content-Type'' \<mapsto> ''application/json''], hq_Body = body\<rparr> in
      case hx_Do hx c ctx req s of
        (Inl err, s) \<Rightarrow> (Inl (''login request: '' @ err), s)
      | (Inr resp, s) \<Rightarrow>
      case decode_loginResponse (rp_Body resp) of
        None \<Rightarrow> (Inl (''decode login response: '' @ hx_decode_error hx resp), s)
      | Some res \<Rightarrow>
      if rp_StatusCode resp \<noteq> 200 then
        if ln_Errors res \<noteq> []
        then (Inl (''login failed (HTTP '' @ Itoa (rp_StatusCode resp) @ ''): '' @ Join (ln_Errors res) ''; ''), s)
        else (Inl (''login failed with HTTP '' @ Itoa (rp_StatusCode resp)), s)
      else if ln_ClientToken res = '''' then (Inl ''login response contained no client_token'', s)
      else (Inr (ln_ClientToken res), s))"

record secretResponse =
  rs_Data :: "strmap option"
  rs_Errors :: "string list"

fun store_data :: "(string \<times> jvalue) list \<Rightarrow> strmap option \<Rightarrow> strmap option option" where
  "store_data [] d = Some d"
| "store_data ((k, v) # kvs) d =
     (case field_of [''data''] k of
        None \<Rightarrow> store_data kvs d
      | Some _ \<Rightarrow>
          (case v of
             JNull \<Rightarrow> store_data kvs None
           | JObject ms \<Rightarrow>
               (case store_members ms (case d of Some m \<Rightarrow> m | None \<Rightarrow> Map.empty) of
                  None \<Rightarrow> None
                | Some m \<Rightarrow> store_data kvs (Some m))
           | _ \<Rightarrow> None))"

fun store_secret :: "(string \<times> jvalue) list \<Rightarrow> secretResponse \<Rightarrow> secretResponse option" where
  "store_secret [] r = Some r"
| "store_secret ((k, v) # kvs) r =
     (case field_of [''data'', ''errors''] k of
        None \<Rightarrow> store_secret kvs r
      | Some f \<Rightarrow>
          if f = ''data'' then
            (case v of
               JNull \<Rightarrow> store_secret kvs r
             | JObject ms \<Rightarrow>
                 (case store_data ms (rs_Data r) of
                    None \<Rightarrow> None
                  | Some d \<Rightarrow> store_secret kvs (r\<lparr>rs_Data := d\<rparr>))
             | _ \<Rightarrow> None)
          else
            (case store_slice v (rs_Errors r) of
               None \<Rightarrow> None
             | Some es \<Rightarrow> store_secret kvs (r\<lparr>rs_Errors := es\<rparr>)))"

definition decode_secretResponse :: "string \<Rightarrow> secretResponse option" where
  "decode_secretResponse s =
     (let zero = \<lparr>rs_Data = None, rs_Errors = []\<rparr> in
      case Decode s of
        Some JNull \<Rightarrow> Some zero
      | Some (JObject kvs) \<Rightarrow> store_secret kvs zero
      | _ \<Rightarrow> None)"

definition readSecret :: "'s http_client \<Rightarrow> http_ctx \<Rightarrow> vaultClient \<Rightarrow> string \<Rightarrow> 's \<Rightarrow> (string + strmap) \<times> 's" where
  "readSecret hx ctx c path s =
     (let url = vc_addr c @ ''/v1/'' @ path in
      case hx_NewRequest hx url of
        Some err \<Rightarrow> (Inl err, s)
      | None \<Rightarrow>
      let req = \<lparr>hq_Method = ''GET'', hq_URL = url, hq_Header = [''X-Vault-Token'' \<mapsto> vc_token c], hq_Body = ''''\<rparr> in
      case hx_Do hx c ctx req s of
        (Inl err, s) \<Rightarrow> (Inl (''secret read request: '' @ err), s)
      | (Inr resp, s) \<Rightarrow>
      if rp_StatusCode resp = 404 then (Inl (''secret not found: '' @ path), s)
      else
      case decode_secretResponse (rp_Body resp) of
        None \<Rightarrow> (Inl (''decode secret response: '' @ hx_decode_error hx resp), s)
      | Some res \<Rightarrow>
      if rp_StatusCode resp \<noteq> 200 then
        if rs_Errors res \<noteq> []
        then (Inl (''read '' @ path @ '' failed (HTTP '' @ Itoa (rp_StatusCode resp) @ ''): '' @ Join (rs_Errors res) ''; ''), s)
        else (Inl (''read '' @ path @ '' failed with HTTP '' @ Itoa (rp_StatusCode resp)), s)
      else
      case rs_Data res of
        None \<Rightarrow> (Inl (''secret '' @ path @ '' has no data''), s)
      | Some data \<Rightarrow> (Inr data, s))"


subsection \<open>What the retry loop does\<close>

definition transient :: "string option \<Rightarrow> bool" where
  "transient res \<longleftrightarrow> (\<exists>err. res = Some err \<and> isRetryable err)"

text \<open>The state before attempt number \<open>j\<close>, and what that attempt returns.\<close>

definition attempt_state :: "('s \<Rightarrow> string option \<times> 's) \<Rightarrow> 's \<Rightarrow> nat \<Rightarrow> 's" where
  "attempt_state fn s j = ((\<lambda>s. snd (fn s)) ^^ j) s"

definition attempt :: "('s \<Rightarrow> string option \<times> 's) \<Rightarrow> 's \<Rightarrow> nat \<Rightarrow> string option" where
  "attempt fn s j = fst (fn (attempt_state fn s j))"

lemma attempt_state_0 [simp]: "attempt_state fn s 0 = s"
  by (simp add: attempt_state_def)

lemma attempt_state_Suc: "attempt_state fn s (Suc j) = attempt_state fn (snd (fn s)) j"
  unfolding attempt_state_def funpow_Suc_right by simp

lemma attempt_Suc: "attempt fn s (Suc j) = attempt fn (snd (fn s)) j"
  by (simp add: attempt_def attempt_state_Suc)

lemma attempt_0: "attempt fn s 0 = fst (fn s)"
  by (simp add: attempt_def)

lemma retry_loop_attempts:
  assumes "maxAttempts = int i + int k"
  shows "\<exists>n\<le>k. retry_loop maxAttempts base fn (int i) err s slept =
      (if n = 0 then err else attempt fn s (n - 1), attempt_state fn s n, slept @ map (\<lambda>j. push_bit (i + j) base) [0..<n - 1]) \<and>
    (\<forall>j<n - 1. transient (attempt fn s j)) \<and> (n < k \<longrightarrow> 0 < n \<and> \<not> transient (attempt fn s (n - 1)))"
  using assms
proof (induction k arbitrary: i err s slept)
  case 0
  then show ?case by (intro exI [of _ 0]) (simp add: retry_loop.simps)
next
  case (Suc k)
  obtain e s1 where fn: "fn s = (e, s1)" by (cases "fn s")
  have more: "int i < maxAttempts" "int i < maxAttempts - 1 \<longleftrightarrow> k \<noteq> 0" using Suc.prems by auto
  show ?case
  proof (cases "transient e")
    case False
    then have "retry_loop maxAttempts base fn (int i) err s slept = (e, s1, slept)"
      using more fn by (cases e) (simp_all add: retry_loop.simps [of maxAttempts base fn "int i"] transient_def)
    then show ?thesis
      using False by (intro exI [of _ 1]) (simp add: attempt_0 attempt_state_Suc [of _ _ 0] fn)
  next
    case True
    then obtain m where e: "e = Some m" "isRetryable m" by (auto simp: transient_def)
    let ?slept = "if k = 0 then slept else slept @ [push_bit i base]"
    have step: "retry_loop maxAttempts base fn (int i) err s slept = retry_loop maxAttempts base fn (int (Suc i)) e s1 ?slept"
      using more fn e by (simp add: retry_loop.simps [of maxAttempts base fn "int i"] add.commute)
    from Suc.IH [of "Suc i" e s1 ?slept] Suc.prems obtain n where n: "n \<le> k"
      "retry_loop maxAttempts base fn (int (Suc i)) e s1 ?slept =
        (if n = 0 then e else attempt fn s1 (n - 1), attempt_state fn s1 n, ?slept @ map (\<lambda>j. push_bit (Suc i + j) base) [0..<n - 1])"
      "\<forall>j<n - 1. transient (attempt fn s1 j)" "n < k \<longrightarrow> 0 < n \<and> \<not> transient (attempt fn s1 (n - 1))"
      by auto
    have "attempt fn s (Suc j) = attempt fn s1 j" "attempt_state fn s (Suc j) = attempt_state fn s1 j" for j
      by (simp_all add: attempt_Suc attempt_state_Suc fn)
    note shift = this attempt_0 [of fn s, unfolded fn fst_conv]
    show ?thesis
    proof (cases n)
      case 0
      with n shift step show ?thesis by (intro exI [of _ 1]) auto
    next
      case (Suc n')
      have "\<forall>j<Suc n'. transient (attempt fn s j)"
        using n(3) True Suc shift by (auto simp: less_Suc_eq_0_disj)
      moreover have "[push_bit i base] @ map (\<lambda>j. push_bit (Suc i + j) base) [0..<n'] = map (\<lambda>j. push_bit (i + j) base) [0..<Suc n']"
        by (simp only: map_upt_Suc add_Suc_shift append_Cons append_Nil add_0_right)
      ultimately show ?thesis
        using n Suc shift step by (intro exI [of _ "Suc n"]) (auto simp del: upt_Suc)
    qed
  qed
qed

lemma withRetry_calls:
  "\<exists>n \<le> nat maxAttempts. withRetry maxAttempts base fn s =
      (if n = 0 then None else attempt fn s (n - 1), attempt_state fn s n, map (\<lambda>j. push_bit j base) [0..<n - 1]) \<and>
    (\<forall>j<n - 1. transient (attempt fn s j)) \<and> (n < nat maxAttempts \<longrightarrow> 0 < n \<and> \<not> transient (attempt fn s (n - 1)))"
proof (cases "0 \<le> maxAttempts")
  case True
  then show ?thesis
    using retry_loop_attempts [of maxAttempts 0 "nat maxAttempts" base fn None s "[]"] by (simp add: withRetry_def)
next
  case False
  then show ?thesis by (intro exI [of _ 0]) (simp add: withRetry_def retry_loop.simps)
qed

text \<open>
  C40. The retry loop ends, and it makes only the attempts it should. For every number of attempts
  and every function, \<open>withRetry\<close> calls the function some \<open>n\<close> times, at most the given number, and
  returns what the last call returned. All calls but the last failed with an error that may be
  retried; it stops before the number is used up only when the last call succeeded or failed for
  good; and between the calls it sleeps exactly \<open>n - 1\<close> times, doubling the delay.
\<close>

theorem withRetry_attempts:
  "\<exists>n \<le> nat maxAttempts. withRetry maxAttempts base fn s =
      (if n = 0 then None else attempt fn s (n - 1), attempt_state fn s n, map (\<lambda>j. push_bit j base) [0..<n - 1]) \<and>
    (\<forall>j<n - 1. transient (attempt fn s j)) \<and> (n < nat maxAttempts \<longrightarrow> 0 < n \<and> \<not> transient (attempt fn s (n - 1)))"
  by (rule withRetry_calls)

theorem withRetry_attempts_witness:
  "withRetry 3 500000000 (\<lambda>n. (Some ''connection refused'', Suc n)) (0 :: nat) =
     (Some ''connection refused'', 3, [500000000, 1000000000])"
proof -
  let ?fn = "\<lambda>n :: nat. (Some ''connection refused'', Suc n)"
  have att: "attempt ?fn 0 j = Some ''connection refused''" for j by (simp add: attempt_def)
  have st: "attempt_state ?fn 0 j = j" for j by (induction j) (simp_all add: attempt_state_def)
  have "transient (Some ''connection refused'')" by (simp add: transient_def isRetryable_def HasPrefix_def)
  with withRetry_attempts [of 3 "500000000" ?fn 0] att have
    "withRetry 3 500000000 ?fn 0 = (Some ''connection refused'', 3, map (\<lambda>j. push_bit j 500000000) [0..<2])"
    by (auto simp: st le_less)
  then show ?thesis by (simp add: upt_rec push_bit_eq_mult)
qed

end
