(* ===== verification/Vault_Inject.thy ===== *)
theory Vault_Inject
  imports Inject_Client Gateway_World
begin

text \<open>
  The rest of cmd/vault-inject/main.go: resolving the environment and the run of the command up to
  \<open>exec\<close>. The fetch function is an argument of \<open>resolveEnviron\<close>, as in the code; it threads the state
  of the remote side. The debug log is kept whole, whether or not the level lets it through. The
  order in which \<open>range\<close> visits the keys of a secret is an argument, by the position of its path.
\<close>

subsection \<open>Resolving the environment\<close>

definition vaultEnvVars :: "string list" where
  "vaultEnvVars =
     [''VAULT_ADDR'', ''VAULT_ROLE'', ''VAULT_TOKEN'', ''VAULT_SKIP_VERIFY'', ''VAULT_CACERT'', ''VAULT_NAMESPACE'',
      ''VAULT_AUTH_METHOD'', ''VAULT_PATH'', ''VAULT_CLIENT_TIMEOUT'', ''VAULT_IGNORE_MISSING_SECRETS'', ''VAULT_ENV_FROM_PATH'',
      ''VAULT_ENV_PASSTHROUGH'', ''VAULT_REVOKE_TOKEN'', ''VAULT_JSON_LOG'', ''VAULT_LOG_LEVEL'', ''VAULT_JWT_FILE'',
      ''VAULT_CACERT_RELOAD'', ''VAULT_LOGIN_TIMEOUT'', ''VAULT_READ_TIMEOUT'']"

type_synonym 's fetchFunc = "string \<Rightarrow> 's \<Rightarrow> (string + strmap) \<times> 's"

record 's resolver =
  rv_remote :: 's
  rv_cache :: "string \<rightharpoonup> strmap"
  rv_log :: "log_entry list"

definition log_debug :: "string \<Rightarrow> (string \<times> string) list \<Rightarrow> 's resolver \<Rightarrow> 's resolver" where
  "log_debug msg attrs st = st\<lparr>rv_log := rv_log st @ [\<lparr>l_level = LevelDebug, l_msg = msg, l_attrs = attrs\<rparr>]\<rparr>"

definition cached :: "'s fetchFunc \<Rightarrow> string \<Rightarrow> 's resolver \<Rightarrow> (string + strmap) \<times> 's resolver" where
  "cached fetch path st =
     (case rv_cache st path of
        Some data \<Rightarrow> (Inr data, st)
      | None \<Rightarrow>
      case fetch path (rv_remote st) of
        (Inl err, s) \<Rightarrow> (Inl err, st\<lparr>rv_remote := s\<rparr>)
      | (Inr data, s) \<Rightarrow> (Inr data, st\<lparr>rv_remote := s, rv_cache := (rv_cache st)(path \<mapsto> data)\<rparr>))"

text \<open>
  One round of the loop over the environment: an error to return, nothing for a stripped variable,
  or what is appended to the new environment.
\<close>

definition resolve_var :: "'s fetchFunc \<Rightarrow> bool \<Rightarrow> string \<Rightarrow> 's resolver \<Rightarrow> (string + string option) \<times> 's resolver" where
  "resolve_var fetch ignoreMissing kv st =
     (case IndexByte kv CHR ''='' of
        None \<Rightarrow> (Inr (Some kv), st)
      | Some idx \<Rightarrow>
      let k = take idx kv; v = drop (Suc idx) kv in
      if k \<in> set vaultEnvVars then (Inr None, st)
      else if \<not> HasPrefix v ''vault:'' then (Inr (Some kv), st)
      else
      let parts = SplitN2 (TrimPrefix v ''vault:'') CHR ''#''; path = hd parts in
      if length parts < 2 then (Inr (Some kv), st)
      else
      let key = parts ! 1 in
      case cached fetch path st of
        (Inl err, st) \<Rightarrow>
          if ignoreMissing then (Inr (Some kv), log_debug ''secret not found, ignoring'' [(''path'', path)] st)
          else (Inl (''read secret '' @ quoted path @ '': '' @ err), st)
      | (Inr data, st) \<Rightarrow>
      case data key of
        None \<Rightarrow>
          if ignoreMissing then (Inr (Some kv), log_debug ''key not found, ignoring'' [(''path'', path), (''key'', key)] st)
          else (Inl (''key '' @ quoted key @ '' not found in secret '' @ quoted path), st)
      | Some val \<Rightarrow>
          (Inr (Some (k @ ''='' @ val)), log_debug ''resolved env var'' [(''name'', k), (''path'', path), (''key'', key)] st))"

fun environ_loop :: "'s fetchFunc \<Rightarrow> bool \<Rightarrow> string list \<Rightarrow> string list \<Rightarrow> 's resolver \<Rightarrow> (string + string list) \<times> 's resolver" where
  "environ_loop fetch ignoreMissing [] newEnv st = (Inr newEnv, st)"
| "environ_loop fetch ignoreMissing (kv # environ) newEnv st =
     (case resolve_var fetch ignoreMissing kv st of
        (Inl err, st) \<Rightarrow> (Inl err, st)
      | (Inr out, st) \<Rightarrow>
          environ_loop fetch ignoreMissing environ (case out of None \<Rightarrow> newEnv | Some kv' \<Rightarrow> newEnv @ [kv']) st)"

fun inject_loop :: "string \<Rightarrow> strmap \<Rightarrow> string list \<Rightarrow> string list \<Rightarrow> 's resolver \<Rightarrow> string list \<times> 's resolver" where
  "inject_loop path data [] newEnv st = (newEnv, st)"
| "inject_loop path data (k # ks) newEnv st =
     (case data k of
        None \<Rightarrow> inject_loop path data ks newEnv st
      | Some v \<Rightarrow>
          inject_loop path data ks (newEnv @ [k @ ''='' @ v])
            (log_debug ''injecting from-path key'' [(''path'', path), (''key'', k)] st))"

fun from_loop ::
  "'s fetchFunc \<Rightarrow> bool \<Rightarrow> string list list \<Rightarrow> string list \<Rightarrow> string list \<Rightarrow> 's resolver \<Rightarrow> (string + string list) \<times> 's resolver" where
  "from_loop fetch ignoreMissing orders [] newEnv st = (Inr newEnv, st)"
| "from_loop fetch ignoreMissing orders (p # fromPaths) newEnv st =
     (let path = TrimSpace p in
      if path = '''' then from_loop fetch ignoreMissing (tl orders) fromPaths newEnv st
      else
      case cached fetch path st of
        (Inl err, st) \<Rightarrow>
          if ignoreMissing
          then from_loop fetch ignoreMissing (tl orders) fromPaths newEnv (log_debug ''from-path not found, ignoring'' [(''path'', path)] st)
          else (Inl (''read from-path '' @ quoted path @ '': '' @ err), st)
      | (Inr data, st) \<Rightarrow>
      case inject_loop path data (hd orders) newEnv st of
        (newEnv, st) \<Rightarrow> from_loop fetch ignoreMissing (tl orders) fromPaths newEnv st)"

definition resolveEnviron ::
  "'s fetchFunc \<Rightarrow> string list list \<Rightarrow> string list \<Rightarrow> string list \<Rightarrow> bool \<Rightarrow> 's \<Rightarrow> (string + string list) \<times> 's resolver" where
  "resolveEnviron fetch orders environ fromPaths ignoreMissing s =
     (case environ_loop fetch ignoreMissing environ [] \<lparr>rv_remote = s, rv_cache = Map.empty, rv_log = []\<rparr> of
        (Inl err, st) \<Rightarrow> (Inl err, st)
      | (Inr newEnv, st) \<Rightarrow> from_loop fetch ignoreMissing orders fromPaths newEnv st)"

subsection \<open>The command\<close>

text \<open>\<open>os.Getenv\<close> on the process environment: the first entry with the name counts.\<close>

definition env_name :: "string \<Rightarrow> string option" where
  "env_name kv = map_option (\<lambda>i. take i kv) (IndexByte kv CHR ''='')"

definition Getenv :: "string list \<Rightarrow> string \<Rightarrow> string" where
  "Getenv environ k =
     (case find (\<lambda>kv. env_name kv = Some k) environ of
        None \<Rightarrow> ''''
      | Some kv \<Rightarrow> drop (Suc (length k)) kv)"

definition getenv :: "string list \<Rightarrow> string \<Rightarrow> string \<Rightarrow> string" where
  "getenv environ key fallback = (let v = Getenv environ key in if v \<noteq> '''' then v else fallback)"

definition splitCSV :: "string \<Rightarrow> string list" where
  "splitCSV s = (if s = '''' then [] else Split s CHR '','')"

text \<open>
  \<open>strings.EqualFold\<close> with the ASCII word true, and \<open>strings.ToLower\<close> compared with debug: the
  letters of both words have no case variants outside ASCII.
\<close>

definition lower_ascii :: "char \<Rightarrow> char" where
  "lower_ascii c = (if 65 \<le> code c \<and> code c \<le> 90 then char_of (code c + 32) else c)"

definition equal_fold :: "string \<Rightarrow> string \<Rightarrow> bool" where
  "equal_fold a b \<longleftrightarrow> map lower_ascii a = map lower_ascii b"

definition defaultAddr :: string where
  "defaultAddr = ''https://vault-gateway.vault-system.svc.cluster.local:8200''"

definition defaultRole :: string where
  "defaultRole = ''default-role''"

definition defaultJWTFile :: string where
  "defaultJWTFile = ''/var/run/secrets/kubernetes.io/serviceaccount/token''"

definition timeout_override :: "(nat \<Rightarrow> nat \<Rightarrow> nat \<Rightarrow> nat) \<Rightarrow> string \<Rightarrow> duration \<Rightarrow> duration" where
  "timeout_override fr v d =
     (if v \<noteq> '''' then (case ParseDuration fr v of Inr d' \<Rightarrow> d' | Inl _ \<Rightarrow> d) else d)"

text \<open>\<open>filepath.Clean\<close> and \<open>filepath.Join\<close> of a cleaned directory and a name.\<close>

fun clean_relative :: "bool \<Rightarrow> string list \<Rightarrow> string list \<Rightarrow> string list" where
  "clean_relative rooted [] acc = rev acc"
| "clean_relative rooted (s # ss) acc =
     (if s = '''' \<or> s = ''.'' then clean_relative rooted ss acc
      else if s = ''..'' then
        if acc \<noteq> [] \<and> hd acc \<noteq> ''..'' then clean_relative rooted ss (tl acc)
        else if rooted then clean_relative rooted ss acc
        else clean_relative rooted ss (''..'' # acc)
      else clean_relative rooted ss (s # acc))"

definition filepath_Clean :: "string \<Rightarrow> string" where
  "filepath_Clean p =
     (let rooted = HasPrefix p ''/'';
          out = Join (clean_relative rooted (Split p CHR ''/'') []) ''/''
      in if rooted then ''/'' @ out else if out = '''' then ''.'' else out)"

definition filepath_Join :: "string \<Rightarrow> string \<Rightarrow> string" where
  "filepath_Join dir name = filepath_Clean (dir @ ''/'' @ name)"

text \<open>What the operating system answers to the steps of the copy; \<open>Inl\<close> and \<open>Some\<close> are errors.\<close>

record copy_env =
  cp_Executable :: "string + string"
  cp_Open :: "string \<Rightarrow> string + string"
  cp_MkdirAll :: "string \<Rightarrow> string option"
  cp_OpenFile :: "string \<Rightarrow> string option"
  cp_Copy :: "string option"
  cp_Close :: "string option"

text \<open>On success, the path written and the bytes of the executable that are its content.\<close>

definition copyBinary :: "copy_env \<Rightarrow> string list \<Rightarrow> string + (string \<times> string)" where
  "copyBinary cp args =
     (let dest = (if 3 \<le> length args then filepath_Clean (args ! 2) else ''/vault'') in
      case cp_Executable cp of
        Inl err \<Rightarrow> Inl (''resolve executable path: '' @ err)
      | Inr self \<Rightarrow>
      case cp_Open cp self of
        Inl err \<Rightarrow> Inl (''open binary: '' @ err)
      | Inr src \<Rightarrow>
      case cp_MkdirAll cp dest of
        Some err \<Rightarrow> Inl (''create destination dir: '' @ err)
      | None \<Rightarrow>
      let destPath = filepath_Join dest ''vault-env'' in
      case cp_OpenFile cp destPath of
        Some err \<Rightarrow> Inl (''create destination file: '' @ err)
      | None \<Rightarrow>
      case cp_Copy cp of
        Some err \<Rightarrow> Inl (''copy binary: '' @ err)
      | None \<Rightarrow>
      case cp_Close cp of
        Some err \<Rightarrow> Inl (''close destination file: '' @ err)
      | None \<Rightarrow> Inr (destPath, src))"

datatype inject_outcome =
    Failed string
  | Copied string string
  | Exec string "string list" "string list"

record inject_env =
  ie_args :: "string list"
  ie_environ :: "string list"
  ie_ReadFile :: "string \<Rightarrow> string + string"
  ie_has_certs :: "string \<Rightarrow> bool"
  ie_LookPath :: "string \<Rightarrow> string option"
  ie_fraction :: "nat \<Rightarrow> nat \<Rightarrow> nat \<Rightarrow> nat"
  ie_orders :: "string list list"
  ie_copy :: copy_env

definition log_level :: "string list \<Rightarrow> level" where
  "log_level environ = (if map lower_ascii (Getenv environ ''VAULT_LOG_LEVEL'') = ''debug'' then LevelDebug else LevelInfo)"

text \<open>One login attempt; the token variable of the closure is part of the state.\<close>

definition login_attempt ::
  "'s http_client \<Rightarrow> http_ctx \<Rightarrow> vaultClient \<Rightarrow> string \<Rightarrow> string \<Rightarrow> string \<times> 's \<Rightarrow> string option \<times> (string \<times> 's)" where
  "login_attempt hx ctx c role jwt st =
     (case inject_login hx ctx c role jwt (snd st) of
        (Inl err, s) \<Rightarrow> (Some err, ('''', s))
      | (Inr tok, s) \<Rightarrow> (None, (tok, s)))"

text \<open>The run up to \<open>exec\<close>: the outcome, the remote side afterwards and the delays slept.\<close>

definition inject_run :: "'s http_client \<Rightarrow> inject_env \<Rightarrow> 's \<Rightarrow> inject_outcome \<times> 's \<times> 64 word list" where
  "inject_run hx ie s =
     (let args = ie_args ie; environ = ie_environ ie in
      if 2 \<le> length args \<and> args ! 1 = ''copy'' then
        (case copyBinary (ie_copy ie) args of
           Inl err \<Rightarrow> (Failed err, s, [])
         | Inr (dest, content) \<Rightarrow> (Copied dest content, s, []))
      else if length args < 2 then
        (Failed (''usage: vault-env <command> [args...]'' @ [CHR 0x0A] @ ''       vault-env copy <destination-dir>''), s, [])
      else
      let loginTimeout = timeout_override (ie_fraction ie) (Getenv environ ''VAULT_LOGIN_TIMEOUT'') (30 * Second);
          readTimeout = timeout_override (ie_fraction ie) (Getenv environ ''VAULT_READ_TIMEOUT'') (15 * Second);
          addr = getenv environ ''VAULT_ADDR'' defaultAddr;
          role = getenv environ ''VAULT_ROLE'' defaultRole;
          jwtFile = getenv environ ''VAULT_JWT_FILE'' defaultJWTFile;
          skipVerify = equal_fold (Getenv environ ''VAULT_SKIP_VERIFY'') ''true'';
          caCert = Getenv environ ''VAULT_CACERT'';
          ignoreMissing = equal_fold (Getenv environ ''VAULT_IGNORE_MISSING_SECRETS'') ''true'';
          fromPaths = splitCSV (Getenv environ ''VAULT_ENV_FROM_PATH'')
      in
      case newClient (ie_ReadFile ie) (ie_has_certs ie) addr skipVerify caCert of
        Inl err \<Rightarrow> (Failed (''build http client: '' @ err), s, [])
      | Inr cl \<Rightarrow>
      case ie_ReadFile ie jwtFile of
        Inl err \<Rightarrow> (Failed (''read service account token '' @ jwtFile @ '': '' @ err), s, [])
      | Inr jwtBytes \<Rightarrow>
      case withRetry 3 500000000 (login_attempt hx \<lparr>cx_login = loginTimeout, cx_read = None\<rparr> cl role (TrimSpace jwtBytes)) ('''', s) of
        (Some err, (_, s), slept) \<Rightarrow> (Failed (''vault login: '' @ err), s, slept)
      | (None, (tok, s), slept) \<Rightarrow>
      let cl = cl\<lparr>vc_token := tok\<rparr> in
      case resolveEnviron (readSecret hx \<lparr>cx_login = loginTimeout, cx_read = Some readTimeout\<rparr> cl) (ie_orders ie)
             environ fromPaths ignoreMissing s of
        (Inl err, st) \<Rightarrow> (Failed err, rv_remote st, slept)
      | (Inr newEnv, st) \<Rightarrow>
      case ie_LookPath ie (args ! 1) of
        None \<Rightarrow> (Failed (''command not found: '' @ args ! 1), rv_remote st, slept)
      | Some binary \<Rightarrow> (Exec binary (drop 1 args) newEnv, rv_remote st, slept))"

text \<open>
  The process: status and standard error of \<open>main\<close>, or the program it has become. The first argument
  is the error that the system call reports, if it fails.
\<close>

datatype inject_end = InjectExited nat string | Became string "string list" "string list"

definition inject_main :: "(string \<Rightarrow> string option) \<Rightarrow> 's http_client \<Rightarrow> inject_env \<Rightarrow> 's \<Rightarrow> inject_end" where
  "inject_main exec_error hx ie s =
     (let fatal = (\<lambda>err. InjectExited 1 (''vault-env: '' @ err @ [CHR 0x0A])) in
      case fst (inject_run hx ie s) of
        Failed err \<Rightarrow> fatal err
      | Copied _ _ \<Rightarrow> InjectExited 0 ''''
      | Exec binary argv env' \<Rightarrow>
          (case exec_error binary of Some err \<Rightarrow> fatal err | None \<Rightarrow> Became binary argv env'))"

end
