(* ===== verification/Gateway_Exchange.thy ===== *)
theory Gateway_Exchange
  imports Response_Text Json_Valid Vault_Inject Route_Properties
begin

text \<open>
  vault-env against the gateway: the requests of the client are served by the server, and the client
  decodes the bytes of the responses.
\<close>

subsection \<open>Decoding what the gateway encodes\<close>

definition valid_keys :: "strmap \<Rightarrow> bool" where
  "valid_keys m \<longleftrightarrow> finite (dom m) \<and> (\<forall>k \<in> dom m. valid_utf8 k)"

definition text_map :: "strmap \<Rightarrow> strmap" where
  "text_map m = (\<lambda>k. map_option utf8_text (m k))"

lemma dom_text_map [simp]: "dom (text_map m) = dom m"
  by (auto simp: text_map_def)

lemma valid_map_text: "valid_map m \<Longrightarrow> valid_keys m \<and> text_map m = m"
proof -
  assume m: "valid_map m"
  have "text_map m k = m k" for k
    using m by (cases "m k") (auto simp: text_map_def valid_map_def utf8_text_valid)
  then show ?thesis using m by (auto simp: valid_keys_def valid_map_def)
qed

lemma store_members_map:
  "set ks \<subseteq> dom m \<Longrightarrow> store_members (map (\<lambda>k. (k, JString (the (m k)))) ks) m0 = Some (m0 ++ m |` set ks)"
proof (induction ks arbitrary: m0)
  case (Cons k ks)
  then obtain v where v: "m k = Some v" by auto
  have "m0(k \<mapsto> v) ++ m |` set ks = m0 ++ m |` set (k # ks)"
    using v by (auto simp: fun_eq_iff map_add_def restrict_map_def split: option.split)
  with Cons v show ?case by simp
qed simp

lemma json_text_strmap:
  assumes "valid_keys m"
  shows "json_text (json_strmap m) = json_strmap (text_map m)"
proof -
  have "utf8_text k = k" "utf8_text (the (m k)) = the (text_map m k)" if "k \<in> dom m" for k
    using assms that by (auto simp: valid_keys_def utf8_text_valid text_map_def)
  with assms show ?thesis by (simp add: json_strmap_def valid_keys_def)
qed

lemma store_strmap:
  assumes "finite (dom m)"
  shows "\<exists>kvs. json_strmap m = JObject kvs \<and> store_members kvs Map.empty = Some m"
proof -
  have "m |` dom m = m" by (auto simp: fun_eq_iff restrict_map_def domIff)
  with assms store_members_map [of "sorted_list_of_set (dom m)" m Map.empty] show ?thesis by (simp add: json_strmap_def)
qed

lemma field_names:
  "utf8_text ''errors'' = ''errors''" "utf8_text ''request_id'' = ''request_id''" "utf8_text ''lease_id'' = ''lease_id''"
  "utf8_text ''renewable'' = ''renewable''" "utf8_text ''lease_duration'' = ''lease_duration''" "utf8_text ''data'' = ''data''"
  "utf8_text ''wrap_info'' = ''wrap_info''" "utf8_text ''warnings'' = ''warnings''" "utf8_text ''auth'' = ''auth''"
  "utf8_text ''metadata'' = ''metadata''" "utf8_text ''role'' = ''role''" "utf8_text ''jwt'' = ''jwt''"
  "utf8_text ''client_token'' = ''client_token''" "utf8_text ''accessor'' = ''accessor''" "utf8_text ''policies'' = ''policies''"
  "utf8_text ''token_policies'' = ''token_policies''" "utf8_text ''entity_id'' = ''entity_id''" "utf8_text ''token_type'' = ''token_type''"
  "utf8_text ''orphan'' = ''orphan''"
  by (simp_all add: utf8_text_ascii ascii_def code_def)

lemma foldName_letters: "ascii s \<Longrightarrow> foldName s = map (\<lambda>c. foldRune (code c)) s"
  by (simp add: foldName_def runes_char_ascii ascii_def)

lemma field_of_other:
  "ascii k \<Longrightarrow> list_all ascii fs \<Longrightarrow>
    list_all (\<lambda>f. map (\<lambda>c. foldRune (code c)) k \<noteq> map (\<lambda>c. foldRune (code c)) f) fs \<Longrightarrow> field_of fs k = None"
  by (auto simp: field_of_def find_None_iff list_all_iff foldName_letters)

lemma secret_fields:
  "list_all (\<lambda>k. field_of [''data'', ''errors''] k = None)
    [''request_id'', ''lease_id'', ''renewable'', ''lease_duration'', ''wrap_info'', ''warnings'', ''auth'']"
  "field_of [''data''] ''metadata'' = None"
  by (simp_all add: field_of_other ascii_def foldRune_def code_def)

lemma login_fields_of:
  "list_all (\<lambda>k. field_of [''auth'', ''errors''] k = None)
    [''request_id'', ''lease_id'', ''renewable'', ''lease_duration'', ''wrap_info'', ''warnings'', ''data'']"
  "list_all (\<lambda>k. field_of [''client_token''] k = None)
    [''accessor'', ''policies'', ''token_policies'', ''metadata'', ''lease_duration'', ''renewable'', ''entity_id'', ''token_type'', ''orphan'']"
  by (simp_all add: field_of_other ascii_def foldRune_def code_def)

text \<open>The client finds the data of a secret response, and the token of a login response.\<close>

lemma decode_secret_text:
  assumes "sd_Data (sr_Data r) = Some m" and "valid_keys m"
    and "sr_WrapInfo r = JNull" "sr_Warnings r = JNull" "sr_Auth r = JNull" "sm_CustomMetadata (sd_Metadata (sr_Data r)) = JNull"
  shows "decode_secretResponse (Encode (json_SecretResponse r)) = Some \<lparr>rs_Data = Some (text_map m), rs_Errors = []\<rparr>"
proof -
  let ?v = "json_SecretResponse r"
  have "Decode (Encode ?v) = Some (json_text ?v)"
    by (rule Decode_Encode) (simp_all add: json_defs assms)
  moreover obtain kvs where "json_strmap (text_map m) = JObject kvs" "store_members kvs Map.empty = Some (text_map m)"
    using store_strmap [of "text_map m"] assms(2) by (auto simp: valid_keys_def)
  ultimately show ?thesis
    using secret_fields json_text_strmap [OF assms(2)]
    by (simp add: decode_secretResponse_def json_defs field_names assms(1,3-) field_of_def [of _ "''data''"])
qed

lemma decode_login_text:
  assumes "ar_Auth r = Some a" and "valid_utf8 (au_ClientToken a)"
    and "ar_Data r = JNull" "ar_WrapInfo r = JNull" "ar_Warnings r = JNull"
  shows "decode_loginResponse (Encode (json_AuthResponse r)) = Some \<lparr>ln_ClientToken = au_ClientToken a, ln_Errors = []\<rparr>"
proof -
  let ?v = "json_AuthResponse r"
  have "Decode (Encode ?v) = Some (json_text ?v)"
    by (rule Decode_Encode) (simp_all add: json_defs assms)
  then show ?thesis
    using login_fields_of
    by (simp add: decode_loginResponse_def json_defs field_names assms utf8_text_valid field_of_def [of _ "''auth''"] field_of_def [of _ "''client_token''"])
qed

lemma store_strings: "store_elements (map (JString \<circ> f) xs) old = Some (map f xs)"
  by (induction xs arbitrary: old) simp_all

lemma decode_error_text:
  "decode_loginResponse (Encode (json_ErrorResponse r)) = Some \<lparr>ln_ClientToken = '''', ln_Errors = map utf8_text (er_Errors r)\<rparr>"
  "decode_secretResponse (Encode (json_ErrorResponse r)) = Some \<lparr>rs_Data = None, rs_Errors = map utf8_text (er_Errors r)\<rparr>"
proof -
  let ?v = "json_ErrorResponse r"
  have "Decode (Encode ?v) = Some (json_text ?v)"
    by (rule Decode_Encode) (simp_all add: json_defs)
  then show
    "decode_loginResponse (Encode ?v) = Some \<lparr>ln_ClientToken = '''', ln_Errors = map utf8_text (er_Errors r)\<rparr>"
    "decode_secretResponse (Encode ?v) = Some \<lparr>rs_Data = None, rs_Errors = map utf8_text (er_Errors r)\<rparr>"
    by (simp_all add: decode_loginResponse_def decode_secretResponse_def json_defs json_strings_def field_names
        store_strings field_of_def)
qed

text \<open>The gateway reads the login of the client.\<close>

lemma Marshal_login_json: "Marshal_login role jwt = encode_json (JObject [(''role'', JString role), (''jwt'', JString jwt)])"
  by (simp add: Marshal_login_def)

lemma decode_login_request:
  assumes "valid_utf8 role" and "valid_utf8 jwt"
  shows "decode_login (Marshal_login role jwt) = Some \<lparr>lr_JWT = jwt, lr_Role = role\<rparr>"
proof -
  have "parse_json (Marshal_login role jwt) = Some (JObject [(''role'', JString role), (''jwt'', JString jwt)])"
    unfolding Marshal_login_json
    by (subst parse_json_encode_json) (simp_all add: field_names utf8_text_valid assms)
  then show ?thesis by (simp add: decode_login_def Unmarshal_strings_def field_of_def)
qed

text \<open>
  The fields of every login the gateway decodes are UTF-8, so the role can be a label of a metric:
  Prometheus panics on a label value that is not.
\<close>

lemma login_fields_valid: "decode_login body = Some req \<Longrightarrow> valid_utf8 (lr_Role req) \<and> valid_utf8 (lr_JWT req)"
  by (auto simp: decode_login_def dest: Unmarshal_strings_valid)

subsection \<open>The gateway as the remote side\<close>

text \<open>
  The request that reaches the server, for an address that is a scheme and a host and a URL without
  escapes, query and fragment. The headers that the transport adds are none the gateway reads.
\<close>

definition client_request :: "string \<Rightarrow> vaultClient \<Rightarrow> http_request \<Rightarrow> Request" where
  "client_request peer c q =
     (let path = drop (length (vc_addr c)) (hq_URL q) in
      \<lparr>req_Method = hq_Method q, req_Path = path, req_EscapedPath = path, req_RawQuery = '''',
       req_Header = (\<lambda>k. case hq_Header q k of Some v \<Rightarrow> v | None \<Rightarrow> ''''), req_RemoteAddr = peer,
       req_Body = Inr (hq_Body q), req_PathValue = '''', req_ctx = None\<rparr>)"

text \<open>
  Each exchange is one request served, with its own clock and random numbers; when there are no more
  of these, nobody answers. Building a request and the texts of JSON errors stay arguments.
\<close>

definition gateway_http ::
  "(string \<Rightarrow> string option) \<Rightarrow> (http_response \<Rightarrow> string) \<Rightarrow> string \<Rightarrow> 'l Middleware \<Rightarrow>
   ((mw_env \<times> env) list \<times> 'l server_state) http_client" where
  "gateway_http new_request decode_error peer m =
     \<lparr>hx_NewRequest = new_request,
      hx_Do = (\<lambda>c ctx q st.
        case st of
          ([], g) \<Rightarrow> (Inl ''connection refused'', st)
        | ((me, ev) # es, g) \<Rightarrow>
            (case serve m me ev (client_request peer c q) new_response g of
               (None, w, g') \<Rightarrow> (Inr \<lparr>rp_StatusCode = int (sent_status w), rp_Body = sent_text (hq_Method q) w\<rparr>, (es, g'))
             | (Some _, w, g') \<Rightarrow> (Inl ''EOF'', (es, g')))),
      hx_decode_error = decode_error\<rparr>"

lemma json_response:
  assumes "rw_sent w = None" and "rw_body w = []"
  shows "sent_status (writeJSON st b w) = st" "mth \<noteq> ''HEAD'' \<Longrightarrow> st \<noteq> 204 \<Longrightarrow> sent_text mth (writeJSON st b w) = body_text b"
  using assms by (simp_all add: sent_text_def sent_status_def response_status_def writeJSON_def)

lemma hex_is_ascii: "ascii (EncodeToString b)"
proof -
  have "list_all (\<lambda>c. code c < 128) hextable" by (simp add: hextable_def code_def)
  then show ?thesis using EncodeToString_digits [of b] by (auto simp: ascii_def list_all_iff)
qed

lemma login_url: "route ''POST'' ''/v1/auth/kubernetes/login'' = ToLogin"
  by code_simp

text \<open>
  What the middleware hands to the router for a request of the client, and what an exchange gives
  when the handler answers it with a JSON body.
\<close>

definition delivered :: "vaultClient \<Rightarrow> http_request \<Rightarrow> 'l server_state \<Rightarrow> Request \<Rightarrow> ResponseWriter \<Rightarrow> 'l server_state \<Rightarrow> bool" where
  "delivered c q g r0 w0 g0 \<longleftrightarrow> rw_sent w0 = None \<and> rw_body w0 = [] \<and> req_Method r0 = hq_Method q \<and>
     req_EscapedPath r0 = drop (length (vc_addr c)) (hq_URL q) \<and>
     (\<forall>k v. hq_Header q k = Some v \<longrightarrow> req_Header r0 k = v) \<and> req_Body r0 = Inr (hq_Body q) \<and>
     g_handlers g0 = g_handlers g \<and> g_world g0 = g_world g"

lemma exchange:
  fixes m :: "'l Middleware"
  assumes "\<not> rl_Enabled (mw_rateLimit m)" and "0 < mw_maxBodyBytes m \<longrightarrow> int (length (hq_Body q)) \<le> mw_maxBodyBytes m"
    and "hq_Method q \<noteq> ''OPTIONS''" "hq_Method q \<noteq> ''HEAD''" "st \<noteq> 204"
    and handler: "\<And>r0 w0. \<And>g0 :: 'l server_state. delivered c q g r0 w0 g0 \<Longrightarrow>
      \<exists>b h wd. NewRouter ev r0 w0 g0 = (None, writeJSON st b w0, g0\<lparr>g_handlers := h, g_world := wd\<rparr>) \<and> P b h (w_heap wd)"
  shows "\<exists>b g'. hx_Do (gateway_http nr de peer m) c ctx q ((me, ev) # es, g) =
      (Inr \<lparr>rp_StatusCode = int st, rp_Body = body_text b\<rparr>, (es, g')) \<and> P b (g_handlers g') (w_heap (g_world g'))"
proof -
  let ?r = "client_request peer c q"
  have "\<not> rate_limited m me ?r g" "\<not> preflight m ?r"
    using assms(1,3) by (simp_all add: rate_limited_def preflight_def client_request_def Let_def)
  from chain_reaches [OF this, of new_response]
  obtain r0 w0 and g0 :: "'l server_state" and tell fail_w fail_g where reach: "rw_sent w0 = rw_sent new_response" "rw_body w0 = rw_body new_response"
      "req_Method r0 = req_Method ?r" "req_EscapedPath r0 = req_EscapedPath ?r" "req_Header r0 = req_Header ?r"
      "req_Body r0 = (if 0 < mw_maxBodyBytes m then MaxBytesReader (mw_maxBodyBytes m) (req_Body ?r) else req_Body ?r)"
      "g_handlers g0 = g_handlers g" "g_world g0 = g_world g" "\<And>w1 wd. w_heap (tell w1 wd) = w_heap wd"
      "\<And>h. Chain m me h ?r new_response g =
        (case h r0 w0 g0 of
           (None, w1, g1) \<Rightarrow> (None, w1, upd_world (tell w1) g1)
         | (Some x, w1, g1) \<Rightarrow> (None, fail_w w1, upd_world (fail_g x) g1))"
    by blast
  have "delivered c q g r0 w0 g0"
    using reach(1-8) assms(2) by (auto simp: delivered_def new_response_def client_request_def MaxBytesReader_def Let_def)
  from this handler [OF this] obtain b h wd where w0: "rw_sent w0 = None" "rw_body w0 = []"
    and run: "NewRouter ev r0 w0 g0 = (None, writeJSON st b w0, g0\<lparr>g_handlers := h, g_world := wd\<rparr>)" "P b h (w_heap wd)"
    by (auto simp: delivered_def)
  let ?g = "upd_world (tell (writeJSON st b w0)) (g0\<lparr>g_handlers := h, g_world := wd\<rparr>)"
  have "serve m me ev ?r new_response g = (None, writeJSON st b w0, ?g)" using reach(10) run(1) by (simp add: serve_def)
  moreover have "g_handlers ?g = h" "w_heap (g_world ?g) = w_heap wd" using reach(9) by (simp_all add: upd_world_def)
  ultimately show ?thesis
    using run(2) assms(4,5) json_response [OF w0] by (intro exI [of _ b] exI [of _ ?g]) (simp add: gateway_http_def)
qed

subsection \<open>Login\<close>

definition login_request :: "vaultClient \<Rightarrow> string \<Rightarrow> string \<Rightarrow> http_request" where
  "login_request c role jwt =
     \<lparr>hq_Method = ''POST'', hq_URL = vc_addr c @ ''/v1/auth/kubernetes/login'', hq_Header = [''Content-Type'' \<mapsto> ''application/json''],
      hq_Body = Marshal_login role jwt\<rparr>"

text \<open>A login that can be answered: the URL parses, the body is not too large, both fields are there.\<close>

definition login_possible :: "(string \<Rightarrow> string option) \<Rightarrow> 'l Middleware \<Rightarrow> vaultClient \<Rightarrow> string \<Rightarrow> string \<Rightarrow> bool" where
  "login_possible nr m c role jwt \<longleftrightarrow> nr (vc_addr c @ ''/v1/auth/kubernetes/login'') = None \<and> \<not> rl_Enabled (mw_rateLimit m) \<and>
     (0 < mw_maxBodyBytes m \<longrightarrow> int (length (Marshal_login role jwt)) \<le> mw_maxBodyBytes m) \<and>
     valid_utf8 role \<and> valid_utf8 jwt \<and> role \<noteq> '''' \<and> jwt \<noteq> ''''"

lemma delivered_login:
  assumes "delivered c (login_request c role jwt) g r0 w0 g0" and "login_possible nr m c role jwt"
  shows "login_fields r0 = Some \<lparr>lr_JWT = jwt, lr_Role = role\<rparr>"
    and "K8sLoginHandler ev r0 w0 (g_handlers g) (g_world g) = (None, w1, h, wd) \<Longrightarrow>
      NewRouter ev r0 w0 g0 = (None, w1, g0\<lparr>g_handlers := h, g_world := wd\<rparr>)"
  using assms
  by (simp_all add: delivered_def login_request_def login_possible_def login_fields_def decode_login_request NewRouter_def
      lift_handler_def login_url)

lemma gateway_login:
  assumes "login_possible nr m c role jwt"
    and "reviewed ev (g_handlers g) \<lparr>lr_JWT = jwt, lr_Role = role\<rparr> = Inr i"
    and "CheckBinding (h_rbac (g_handlers g)) role (id_Namespace i) (id_ServiceAccount i)"
    and "IssueToken (ev_rnd1 ev) (ev_rnd2 ev) (ev_clock ev 1) (i\<lparr>id_Role := role\<rparr>)
           (ttlForRole (g_handlers g) role) (h_tokens (g_handlers g)) = (Inr (tok, acc), toks)" and "tok \<noteq> ''''"
  shows "\<exists>g'. inject_login (gateway_http nr de peer m) ctx c role jwt ((me, ev) # es, g) = (Inr tok, (es, g')) \<and>
    g_handlers g' = (g_handlers g)\<lparr>h_tokens := toks\<rparr> \<and> w_heap (g_world g') = w_heap (g_world g)"
proof -
  let ?P = "\<lambda>b h hp. decode_loginResponse (body_text b) = Some \<lparr>ln_ClientToken = tok, ln_Errors = []\<rparr> \<and>
    h = (g_handlers g)\<lparr>h_tokens := toks\<rparr> \<and> hp = w_heap (g_world g)"
  have "ascii tok" using assms(4) by (auto simp: IssueToken_ok randomHex_def hex_is_ascii)
  then have reply: "decode_loginResponse (body_text (auth_body r req i' ttl tok acc')) = Some \<lparr>ln_ClientToken = tok, ln_Errors = []\<rparr>"
    for r req i' ttl acc' by (simp add: auth_body_def decode_login_text valid_utf8_ascii)
  have "\<exists>b g'. hx_Do (gateway_http nr de peer m) c ctx (login_request c role jwt) ((me, ev) # es, g) =
      (Inr \<lparr>rp_StatusCode = int 200, rp_Body = body_text b\<rparr>, (es, g')) \<and> ?P b (g_handlers g') (w_heap (g_world g'))"
  proof (rule exchange)
    fix r0 w0 g0
    assume d: "delivered c (login_request c role jwt) g r0 w0 g0"
    from Login_bound [where rw = w0 and w = "g_world g", OF delivered_login(1) [OF d assms(1)] assms(2)] assms(3,4)
    obtain wd where "K8sLoginHandler ev r0 w0 (g_handlers g) (g_world g) =
        (None, writeJSON 200 (auth_body r0 \<lparr>lr_JWT = jwt, lr_Role = role\<rparr> i (ttlForRole (g_handlers g) role) tok acc) w0,
         (g_handlers g)\<lparr>h_tokens := toks\<rparr>, wd)" "w_heap wd = w_heap (g_world g)"
      by auto
    with delivered_login(2) [OF d assms(1)] reply
    show "\<exists>b h wd. NewRouter ev r0 w0 g0 = (None, writeJSON 200 b w0, g0\<lparr>g_handlers := h, g_world := wd\<rparr>) \<and> ?P b h (w_heap wd)"
      by blast
  qed (use assms(1) in \<open>simp_all add: login_request_def login_possible_def\<close>)
  with assms(1,5) show ?thesis
    by (auto simp: inject_login_def login_request_def login_possible_def gateway_http_def Let_def)
qed

text \<open>A login that the gateway refuses, because the token does not verify or the role is not bound to its owner.\<close>

lemma gateway_denies:
  assumes "login_possible nr m c role jwt"
    and "\<nexists>i. reviewed ev (g_handlers g) \<lparr>lr_JWT = jwt, lr_Role = role\<rparr> = Inr i \<and>
           CheckBinding (h_rbac (g_handlers g)) role (id_Namespace i) (id_ServiceAccount i)"
  shows "\<exists>g'. inject_login (gateway_http nr de peer m) ctx c role jwt ((me, ev) # es, g) =
      (Inl ''login failed (HTTP 403): permission denied'', (es, g')) \<and> g_handlers g' = g_handlers g"
proof -
  let ?P = "\<lambda>b h (hp :: mheap). b = BError \<lparr>er_Errors = [''permission denied'']\<rparr> \<and> h = g_handlers g"
  have "\<exists>b g'. hx_Do (gateway_http nr de peer m) c ctx (login_request c role jwt) ((me, ev) # es, g) =
      (Inr \<lparr>rp_StatusCode = int 403, rp_Body = body_text b\<rparr>, (es, g')) \<and> ?P b (g_handlers g') (w_heap (g_world g'))"
  proof (rule exchange)
    fix r0 w0 g0
    assume d: "delivered c (login_request c role jwt) g r0 w0 g0"
    have "\<exists>wd. K8sLoginHandler ev r0 w0 (g_handlers g) (g_world g) = (None, writePermissionDenied w0, g_handlers g, wd)"
      using Login_unreviewed [OF delivered_login(1) [OF d assms(1)]] Login_unbound [OF delivered_login(1) [OF d assms(1)]] assms(2)
      by (cases "reviewed ev (g_handlers g) \<lparr>lr_JWT = jwt, lr_Role = role\<rparr>") fastforce+
    with delivered_login(2) [OF d assms(1)]
    show "\<exists>b h wd. NewRouter ev r0 w0 g0 = (None, writeJSON 403 b w0, g0\<lparr>g_handlers := h, g_world := wd\<rparr>) \<and> ?P b h (w_heap wd)"
      by (fastforce simp: writePermissionDenied_def writeError_def msgPermissionDenied_def)
  qed (use assms(1) in \<open>simp_all add: login_request_def login_possible_def\<close>)
  moreover have "utf8_text ''permission denied'' = ''permission denied''" by (simp add: utf8_text_ascii ascii_def code_def)
  moreover have "Itoa 403 = ''403''"
    by (simp add: Itoa_def dec_digits.simps [of 403] dec_digits.simps [of 40] dec_digits.simps [of 4] hextable_def)
  ultimately show ?thesis
    using assms(1)
    by (auto simp: inject_login_def login_request_def login_possible_def gateway_http_def decode_error_text Let_def)
qed

subsection \<open>Reading\<close>

lemma valid_path_relative: "Validate p = Inr () \<Longrightarrow> TrimPrefix p ''/'' = p"
  by (cases p) (auto simp: Validate_ok_iff segments_def plain_segment_def TrimPrefix_def HasPrefix_def)

text \<open>The data a backend has to offer for a path: what it holds for it, or what its remote side answers.\<close>

definition offers :: "remotes \<Rightarrow> time \<Rightarrow> mheap \<Rightarrow> backend \<Rightarrow> string \<Rightarrow> strmap \<Rightarrow> bool" where
  "offers rs now hp b p d \<longleftrightarrow>
     (case backend_view b hp now p of
        Present m \<Rightarrow> m = d
      | Absent \<Rightarrow> False
      | Miss \<Rightarrow> backend_answer rs b p = Value (Some d))"

lemma offered_is_read:
  assumes "backend_ok b (w_heap w)" and "offers rs t1 (w_heap w) b p d" and "d \<noteq> Map.empty"
  shows "\<exists>a b' w'. backend_GetSecret rs t1 t2 p b w = (Inr (Some a), b', w') \<and> cells (w_heap w') a = d"
proof -
  obtain res b' w' where get: "backend_GetSecret rs t1 t2 p b w = (res, b', w')" by (cases "backend_GetSecret rs t1 t2 p b w") auto
  from be.result [OF assms(1) get] assms(2) obtain v where v: "res = Inr v" "deref (w_heap w') v = d"
    by (auto simp: offers_def result_ok_def alloc_deref_def split: answer.splits)
  with assms(3) obtain a where "v = Some a" by (cases v) (auto simp: deref_def)
  with v get show ?thesis by (auto simp: deref_def)
qed

definition read_request :: "vaultClient \<Rightarrow> string \<Rightarrow> http_request" where
  "read_request c p =
     \<lparr>hq_Method = ''GET'', hq_URL = vc_addr c @ ''/v1/secret/data/'' @ p, hq_Header = [''X-Vault-Token'' \<mapsto> vc_token c], hq_Body = ''''\<rparr>"

lemma gateway_read:
  assumes "nr (vc_addr c @ ''/v1/secret/data/'' @ p) = None" and "\<not> rl_Enabled (mw_rateLimit m)" and "Validate p = Inr ()"
    and "VerifyToken (ev_clock ev 1) (vc_token c) (h_tokens (g_handlers g)) = Some i"
    and "CheckAccess (h_rbac (g_handlers g)) (Some i) p" and "h_backend (g_handlers g) = Some b"
    and "backend_ok b (w_heap (g_world g))" and "offers (ev_remotes ev) (ev_clock ev 2) (w_heap (g_world g)) b p d"
    and "valid_map d" and "d \<noteq> Map.empty"
  shows "\<exists>g'. readSecret (gateway_http nr de peer m) ctx c (''secret/data/'' @ p) ((me, ev) # es, g) = (Inr d, (es, g'))"
proof -
  let ?P = "\<lambda>b (h :: Handlers) (hp :: mheap). decode_secretResponse (body_text b) = Some \<lparr>rs_Data = Some d, rs_Errors = []\<rparr>"
  obtain a b' w1 where get: "backend_GetSecret (ev_remotes ev) (ev_clock ev 2) (ev_clock ev 3) p b (g_world g) = (Inr (Some a), b', w1)"
    "cells (w_heap w1) a = d"
    using offered_is_read [OF assms(7,8,10)] by blast
  have "\<exists>b g'. hx_Do (gateway_http nr de peer m) c ctx (read_request c p) ((me, ev) # es, g) =
      (Inr \<lparr>rp_StatusCode = int 200, rp_Body = body_text b\<rparr>, (es, g')) \<and> ?P b (g_handlers g') (w_heap (g_world g'))"
  proof (rule exchange)
    fix r0 w0 g0
    assume "delivered c (read_request c p) g r0 w0 g0"
    then have r0: "req_Method r0 = ''GET''" "req_EscapedPath r0 = ''/v1/secret/data/'' @ p" "req_Header r0 ''X-Vault-Token'' = vc_token c"
      "g_handlers g0 = g_handlers g" "g_world g0 = g_world g"
      by (auto simp: delivered_def read_request_def)
    let ?r = "r0\<lparr>req_PathValue := p\<rparr>"
    have path: "read_path ?r = p" using assms(3) by (simp add: read_path_def valid_path_relative)
    have "authorized ev ?r (g_handlers g) i" using assms(4,5) r0(3) by (simp add: authorized_def path)
    then obtain h wd where "SecretReadHandler ev ?r w0 (g_handlers g) (g_world g) = (None, writeJSON 200 (secret_body ev ?r (Some d)) w0, h, wd)"
      using SecretRead_authorized [of ?r ev "g_handlers g" i w0 "g_world g"] assms(3,6) get by (simp add: path Let_def)
    moreover have "decode_secretResponse (body_text (secret_body ev ?r (Some d))) = Some \<lparr>rs_Data = Some d, rs_Errors = []\<rparr>"
      using valid_map_text [OF assms(9)] by (simp add: secret_body_def decode_secret_text)
    moreover have "route ''GET'' (''/v1/secret/data/'' @ p) = ToSecret p" using route_valid_path [OF assms(3)] by (simp add: getLike_def)
    ultimately show "\<exists>b h wd. NewRouter ev r0 w0 g0 = (None, writeJSON 200 b w0, g0\<lparr>g_handlers := h, g_world := wd\<rparr>) \<and> ?P b h (w_heap wd)"
      using r0 by (auto simp: NewRouter_def lift_handler_def)
  qed (use assms(2) in \<open>simp_all add: read_request_def\<close>)
  with assms(1) show ?thesis
    by (auto simp: readSecret_def read_request_def gateway_http_def Let_def)
qed

end
