(* ===== verification/Inject_Properties.thy ===== *)
theory Inject_Properties
  imports Vault_Inject Api_Handlers
begin

text \<open>
  What vault-env promises: the environment it hands to the application, how often it asks for a
  secret, and that the gateway reads its login request as it was meant.
\<close>

subsection \<open>References\<close>

text \<open>What a variable refers to, if it is neither configuration nor a plain value.\<close>

definition env_reference :: "string \<Rightarrow> (string \<times> string \<times> string) option" where
  "env_reference kv =
     (case IndexByte kv CHR ''='' of
        None \<Rightarrow> None
      | Some idx \<Rightarrow>
          let k = take idx kv; v = drop (Suc idx) kv in
          if k \<in> set vaultEnvVars \<or> \<not> HasPrefix v ''vault:'' then None
          else (case SplitN2 (TrimPrefix v ''vault:'') CHR ''#'' of [path, key] \<Rightarrow> Some (k, path, key) | _ \<Rightarrow> None))"

definition is_config :: "string \<Rightarrow> bool" where
  "is_config kv \<longleftrightarrow> (\<exists>k. env_name kv = Some k \<and> k \<in> set vaultEnvVars)"

lemma env_reference_syntax:
  assumes "CHR ''='' \<notin> set k" and "CHR ''#'' \<notin> set path" and "k \<notin> set vaultEnvVars"
  shows "env_reference (k @ ''=vault:'' @ path @ ''#'' @ key) = Some (k, path, key)"
proof -
  have "SplitN2 (path @ CHR ''#'' # key) CHR ''#'' = [path, key]" using assms by (simp add: SplitN2_two)
  moreover have "HasPrefix (''vault:'' @ path @ CHR ''#'' # key) ''vault:''"
    "TrimPrefix (''vault:'' @ path @ CHR ''#'' # key) ''vault:'' = path @ CHR ''#'' # key"
    by (rule HasPrefix_append, rule TrimPrefix_append)
  ultimately show ?thesis using assms by (simp add: env_reference_def)
qed

lemma env_reference_name:
  assumes "env_reference kv = Some (k, p, key)"
  shows "k \<notin> set vaultEnvVars" and "CHR ''='' \<notin> set k"
  using assms
  by (auto simp: env_reference_def Let_def dest: IndexByte_Some split: option.splits if_splits list.splits)

lemma reference_not_config: "env_reference kv = Some r \<Longrightarrow> \<not> is_config kv"
  by (auto simp: env_reference_def is_config_def env_name_def Let_def split: option.splits if_splits)

lemma resolve_config: "is_config kv \<Longrightarrow> resolve_var fetch ign kv st = (Inr None, st)"
  by (auto simp: is_config_def env_name_def resolve_var_def Let_def)

lemma resolve_plain: "\<not> is_config kv \<Longrightarrow> env_reference kv = None \<Longrightarrow> resolve_var fetch ign kv st = (Inr (Some kv), st)"
proof -
  assume a: "\<not> is_config kv" "env_reference kv = None"
  show ?thesis
  proof (cases "IndexByte kv CHR ''=''")
    case (Some idx)
    let ?v = "drop (Suc idx) kv"
    obtain parts where parts: "SplitN2 (TrimPrefix ?v ''vault:'') CHR ''#'' = parts" by blast
    then consider a where "parts = [a]" | a b where "parts = [a, b]" by (auto simp: SplitN2_def split: option.splits)
    then show ?thesis
      using a Some parts
      by cases (auto simp: resolve_var_def env_reference_def is_config_def env_name_def Let_def split: if_splits)
  qed (simp add: resolve_var_def del: IndexByte_None)
qed

lemma resolve_reference:
  assumes "env_reference kv = Some (k, path, key)"
  shows "resolve_var fetch ign kv st =
    (case cached fetch path st of
       (Inl err, st) \<Rightarrow>
         if ign then (Inr (Some kv), log_debug ''secret not found, ignoring'' [(''path'', path)] st)
         else (Inl (''read secret '' @ quoted path @ '': '' @ err), st)
     | (Inr data, st) \<Rightarrow>
     case data key of
       None \<Rightarrow>
         if ign then (Inr (Some kv), log_debug ''key not found, ignoring'' [(''path'', path), (''key'', key)] st)
         else (Inl (''key '' @ quoted key @ '' not found in secret '' @ quoted path), st)
     | Some val \<Rightarrow>
         (Inr (Some (k @ ''='' @ val)), log_debug ''resolved env var'' [(''name'', k), (''path'', path), (''key'', key)] st))"
proof -
  obtain idx where idx: "IndexByte kv CHR ''='' = Some idx" "k = take idx kv" "k \<notin> set vaultEnvVars"
      "HasPrefix (drop (Suc idx) kv) ''vault:''" "SplitN2 (TrimPrefix (drop (Suc idx) kv) ''vault:'') CHR ''#'' = [path, key]"
    using assms by (auto simp: env_reference_def Let_def split: option.splits if_splits list.splits)
  then show ?thesis by (simp add: resolve_var_def Let_def split: prod.split sum.split option.split)
qed

subsection \<open>What ends up in the cache\<close>

definition answered :: "'s fetchFunc \<Rightarrow> (string \<rightharpoonup> strmap) \<Rightarrow> bool" where
  "answered fetch c \<longleftrightarrow> (\<forall>p d. c p = Some d \<longrightarrow> (\<exists>s s'. fetch p s = (Inr d, s')))"

lemma rv_cache_log [simp]: "rv_cache (log_debug msg attrs st) = rv_cache st" "rv_remote (log_debug msg attrs st) = rv_remote st"
  by (simp_all add: log_debug_def)

lemma cached_step:
  assumes "cached fetch p st = (res, st')"
  shows "rv_cache st \<subseteq>\<^sub>m rv_cache st'" and "answered fetch (rv_cache st) \<Longrightarrow> answered fetch (rv_cache st')"
    and "res = Inr d \<Longrightarrow> rv_cache st' p = Some d"
proof -
  have "rv_cache st \<subseteq>\<^sub>m rv_cache st' \<and> (answered fetch (rv_cache st) \<longrightarrow> answered fetch (rv_cache st')) \<and>
    (res = Inr d \<longrightarrow> rv_cache st' p = Some d)"
  proof (cases "rv_cache st p")
    case None
    obtain r s where f: "fetch p (rv_remote st) = (r, s)" by (cases "fetch p (rv_remote st)")
    have "answered fetch ((rv_cache st)(p \<mapsto> d'))" if "answered fetch (rv_cache st)" "r = Inr d'" for d'
      using that f unfolding answered_def by (metis fun_upd_apply option.inject)
    with f None assms show ?thesis
      by (cases r) (auto simp: cached_def map_le_def)
  qed (use assms in \<open>auto simp: cached_def\<close>)
  then show "rv_cache st \<subseteq>\<^sub>m rv_cache st'" and "answered fetch (rv_cache st) \<Longrightarrow> answered fetch (rv_cache st')"
    and "res = Inr d \<Longrightarrow> rv_cache st' p = Some d" by auto
qed

lemma map_le_value: "c \<subseteq>\<^sub>m c' \<Longrightarrow> c p = Some d \<Longrightarrow> c' p = Some d"
  by (auto simp: map_le_def dom_def)

text \<open>What a resolved variable looks like, and which variables may stay as they are.\<close>

definition resolved :: "(string \<rightharpoonup> strmap) \<Rightarrow> string \<Rightarrow> string \<Rightarrow> bool" where
  "resolved c kv out \<longleftrightarrow>
     (\<exists>k p key d v. env_reference kv = Some (k, p, key) \<and> c p = Some d \<and> d key = Some v \<and> out = k @ ''='' @ v)"

definition settled :: "bool \<Rightarrow> (string \<rightharpoonup> strmap) \<Rightarrow> string \<Rightarrow> string \<Rightarrow> bool" where
  "settled ign c kv out \<longleftrightarrow> (if env_reference kv = None then out = kv else resolved c kv out \<or> (ign \<and> out = kv))"

lemma settled_mono: "c \<subseteq>\<^sub>m c' \<Longrightarrow> settled ign c kv out \<Longrightarrow> settled ign c' kv out"
  by (auto simp: settled_def resolved_def dest: map_le_value split: if_splits)

lemma settled_list_mono: "c \<subseteq>\<^sub>m c' \<Longrightarrow> list_all2 (settled ign c) kvs outs \<Longrightarrow> list_all2 (settled ign c') kvs outs"
  by (auto elim: list_all2_mono dest: settled_mono)

lemma settled_not_config:
  assumes "settled ign c kv out" and "\<not> is_config kv"
  shows "\<not> is_config out"
proof (cases "out = kv")
  case False
  with assms(1) obtain k p key v where ref: "env_reference kv = Some (k, p, key)" and out: "out = k @ ''='' @ v"
    by (auto simp: settled_def resolved_def split: if_splits)
  have "env_name out = Some k" using env_reference_name [OF ref] by (simp add: out env_name_def)
  with env_reference_name [OF ref] show ?thesis by (simp add: is_config_def)
qed (use assms in simp)

lemma resolve_var_step:
  assumes "resolve_var fetch ign kv st = (r, st')"
  shows "rv_cache st \<subseteq>\<^sub>m rv_cache st'" and "answered fetch (rv_cache st) \<Longrightarrow> answered fetch (rv_cache st')"
    and "r = Inr out \<Longrightarrow> if is_config kv then out = None else (\<exists>o'. out = Some o' \<and> settled ign (rv_cache st') kv o')"
    and "ign \<Longrightarrow> \<exists>out. r = Inr out"
proof -
  have "rv_cache st \<subseteq>\<^sub>m rv_cache st' \<and> (answered fetch (rv_cache st) \<longrightarrow> answered fetch (rv_cache st')) \<and>
    (r = Inr out \<longrightarrow> (if is_config kv then out = None else (\<exists>o'. out = Some o' \<and> settled ign (rv_cache st') kv o'))) \<and>
    (ign \<longrightarrow> (\<exists>out. r = Inr out))"
  proof (cases "env_reference kv")
    case None
    show ?thesis
      using assms None resolve_config [of kv fetch ign st] resolve_plain [of kv fetch ign st]
      by (cases "is_config kv") (auto simp: settled_def)
  next
    case (Some ref)
    obtain k p key where ref: "ref = (k, p, key)" by (cases ref)
    obtain res st1 where c: "cached fetch p st = (res, st1)" by (cases "cached fetch p st")
    note step = cached_step [OF c]
    note eq = resolve_reference [OF Some [unfolded ref], of fetch ign st, unfolded c assms]
    have nc: "\<not> is_config kv" using reference_not_config [OF Some] .
    show ?thesis
    proof (cases res)
      case (Inl err)
      with eq step(1,2) nc Some show ?thesis by (auto simp: settled_def split: if_splits)
    next
      case (Inr d)
      with step(3) have "rv_cache st1 p = Some d" by simp
      with eq step(1,2) nc Some ref Inr show ?thesis
        by (cases "d key") (auto simp: settled_def resolved_def split: if_splits)
    qed
  qed
  then show "rv_cache st \<subseteq>\<^sub>m rv_cache st'" and "answered fetch (rv_cache st) \<Longrightarrow> answered fetch (rv_cache st')"
    and "r = Inr out \<Longrightarrow> if is_config kv then out = None else (\<exists>o'. out = Some o' \<and> settled ign (rv_cache st') kv o')"
    and "ign \<Longrightarrow> \<exists>out. r = Inr out" by auto
qed

definition kept :: "string list \<Rightarrow> string list" where
  "kept environ = filter (\<lambda>kv. \<not> is_config kv) environ"

lemma environ_loop_result:
  assumes "environ_loop fetch ign environ acc st = (r, st')"
  shows "rv_cache st \<subseteq>\<^sub>m rv_cache st' \<and> (answered fetch (rv_cache st) \<longrightarrow> answered fetch (rv_cache st')) \<and>
    (\<forall>env'. r = Inr env' \<longrightarrow> (\<exists>own. env' = acc @ own \<and> list_all2 (settled ign (rv_cache st')) (kept environ) own)) \<and>
    (ign \<longrightarrow> (\<exists>env'. r = Inr env'))"
  using assms
proof (induction environ arbitrary: acc st)
  case Nil
  then show ?case by (auto simp: kept_def)
next
  case (Cons kv environ)
  obtain r1 st1 where v: "resolve_var fetch ign kv st = (r1, st1)" by (cases "resolve_var fetch ign kv st")
  note step = resolve_var_step [OF v]
  show ?case
  proof (cases r1)
    case (Inl err)
    with Cons.prems v step(1,2,4) show ?thesis by auto
  next
    case (Inr out)
    let ?acc = "case out of None \<Rightarrow> acc | Some kv' \<Rightarrow> acc @ [kv']"
    from Cons.IH [of ?acc st1] Cons.prems v Inr
    have IH: "rv_cache st1 \<subseteq>\<^sub>m rv_cache st'" "answered fetch (rv_cache st1) \<longrightarrow> answered fetch (rv_cache st')"
      "\<forall>env'. r = Inr env' \<longrightarrow> (\<exists>own. env' = ?acc @ own \<and> list_all2 (settled ign (rv_cache st')) (kept environ) own)"
      "ign \<longrightarrow> (\<exists>env'. r = Inr env')" by auto
    have "\<exists>own. env' = acc @ own \<and> list_all2 (settled ign (rv_cache st')) (kept (kv # environ)) own" if r: "r = Inr env'" for env'
    proof -
      from IH(3) r obtain own where own: "env' = ?acc @ own" "list_all2 (settled ign (rv_cache st')) (kept environ) own" by blast
      show ?thesis
      proof (cases "is_config kv")
        case True
        with step(3) [OF Inr] own show ?thesis by (auto simp: kept_def)
      next
        case False
        with step(3) [OF Inr] obtain o' where "out = Some o'" "settled ign (rv_cache st1) kv o'" by auto
        with own False settled_mono [OF IH(1)] show ?thesis
          by (intro exI [of _ "o' # own"]) (auto simp: kept_def)
      qed
    qed
    with IH(1,2,4) step(1,2) show ?thesis by (auto intro: map_le_trans)
  qed
qed


subsection \<open>Keys injected from whole paths\<close>

definition entries :: "strmap \<Rightarrow> string list \<Rightarrow> string list" where
  "entries d ks = concat (map (\<lambda>k. case d k of None \<Rightarrow> [] | Some v \<Rightarrow> [k @ ''='' @ v]) ks)"

fun injected :: "(string \<rightharpoonup> strmap) \<Rightarrow> string list list \<Rightarrow> string list \<Rightarrow> string list" where
  "injected c orders [] = []"
| "injected c orders (p # ps) =
     (if TrimSpace p = '''' then [] else entries (the (c (TrimSpace p))) (hd orders)) @ injected c (tl orders) ps"

definition from_entry :: "(string \<rightharpoonup> strmap) \<Rightarrow> string list \<Rightarrow> string \<Rightarrow> bool" where
  "from_entry c fromPaths kv \<longleftrightarrow>
     (\<exists>p\<in>set fromPaths. \<exists>d k v. c (TrimSpace p) = Some d \<and> d k = Some v \<and> kv = k @ ''='' @ v)"

lemma inject_loop_result:
  "inject_loop path d ks acc st = (env', st') \<Longrightarrow> env' = acc @ entries d ks \<and> rv_cache st' = rv_cache st \<and> rv_remote st' = rv_remote st"
proof (induction ks arbitrary: acc st)
  case (Cons k ks)
  then show ?case by (cases "d k") (fastforce simp: entries_def)+
qed (simp add: entries_def)

lemma entries_from: "c (TrimSpace p) = Some d \<Longrightarrow> kv \<in> set (entries d ks) \<Longrightarrow> from_entry c (p # ps) kv"
proof -
  assume a: "c (TrimSpace p) = Some d" "kv \<in> set (entries d ks)"
  from a(2) obtain k where "kv \<in> set (case d k of None \<Rightarrow> [] | Some v \<Rightarrow> [k @ ''='' @ v])"
    unfolding entries_def set_concat set_map by blast
  then obtain v where "d k = Some v" "kv = k @ ''='' @ v" by (cases "d k") auto
  with a(1) show ?thesis unfolding from_entry_def by (intro bexI [of _ p]) auto
qed

lemma from_entry_Cons: "from_entry c ps kv \<Longrightarrow> from_entry c (p # ps) kv"
  by (auto simp: from_entry_def)

lemma injected_path:
  assumes "c (TrimSpace p) = Some d" and "TrimSpace p \<noteq> ''''" and "acc1 = acc @ entries d (hd orders)"
    and "\<exists>inj. env' = acc1 @ inj \<and> (\<forall>kv\<in>set inj. from_entry c ps kv) \<and> (\<not> ign \<longrightarrow> inj = injected c (tl orders) ps)"
  shows "\<exists>inj. env' = acc @ inj \<and> (\<forall>kv\<in>set inj. from_entry c (p # ps) kv) \<and> (\<not> ign \<longrightarrow> inj = injected c orders (p # ps))"
proof -
  from assms(4) obtain rest where "env' = acc1 @ rest" "\<forall>kv\<in>set rest. from_entry c ps kv"
    "\<not> ign \<longrightarrow> rest = injected c (tl orders) ps" by blast
  with assms(1-3) show ?thesis
    by (intro exI [of _ "entries d (hd orders) @ rest"]) (auto intro: entries_from from_entry_Cons)
qed

lemma from_loop_result:
  assumes "from_loop fetch ign orders fromPaths acc st = (r, st')"
  shows "rv_cache st \<subseteq>\<^sub>m rv_cache st' \<and> (answered fetch (rv_cache st) \<longrightarrow> answered fetch (rv_cache st')) \<and>
    (\<forall>env'. r = Inr env' \<longrightarrow> (\<exists>inj. env' = acc @ inj \<and> (\<forall>kv\<in>set inj. from_entry (rv_cache st') fromPaths kv) \<and>
      (\<not> ign \<longrightarrow> inj = injected (rv_cache st') orders fromPaths))) \<and>
    (ign \<longrightarrow> (\<exists>env'. r = Inr env'))"
  using assms
proof (induction fromPaths arbitrary: orders acc st)
  case Nil
  then show ?case by auto
next
  case (Cons p fromPaths)
  show ?case
  proof (cases "TrimSpace p = ''''")
    case True
    with Cons.prems have "from_loop fetch ign (tl orders) fromPaths acc st = (r, st')" by simp
    from Cons.IH [OF this] True show ?thesis by (fastforce intro: from_entry_Cons)
  next
    case False
    obtain res st1 where c: "cached fetch (TrimSpace p) st = (res, st1)" by (cases "cached fetch (TrimSpace p) st")
    note step = cached_step [OF c]
    show ?thesis
    proof (cases res)
      case (Inl err)
      show ?thesis
      proof (cases ign)
        case True
        let ?st = "log_debug ''from-path not found, ignoring'' [(''path'', TrimSpace p)] st1"
        have "from_loop fetch ign (tl orders) fromPaths acc ?st = (r, st')" using Cons.prems False c Inl True by simp
        from Cons.IH [OF this] step(1,2) True show ?thesis by (fastforce intro: from_entry_Cons map_le_trans)
      next
        case False
        with Cons.prems \<open>TrimSpace p \<noteq> ''''\<close> c Inl step(1,2) show ?thesis by auto
      qed
    next
      case (Inr d)
      obtain acc1 st2 where i: "inject_loop (TrimSpace p) d (hd orders) acc st1 = (acc1, st2)"
        by (cases "inject_loop (TrimSpace p) d (hd orders) acc st1")
      note inj = inject_loop_result [OF i]
      have "from_loop fetch ign (tl orders) fromPaths acc1 st2 = (r, st')" using Cons.prems False c Inr i by simp
      note IH = Cons.IH [OF this]
      have here: "rv_cache st' (TrimSpace p) = Some d"
        using IH inj step(3) [OF Inr] by (auto intro: map_le_value)
      have "\<exists>injs. env' = acc @ injs \<and> (\<forall>kv\<in>set injs. from_entry (rv_cache st') (p # fromPaths) kv) \<and>
          (\<not> ign \<longrightarrow> injs = injected (rv_cache st') orders (p # fromPaths))" if "r = Inr env'" for env'
        by (rule injected_path [where c = "rv_cache st'", OF here False]) (use inj IH that in auto)+
      with IH inj step(1,2) show ?thesis by (auto intro: map_le_trans)
    qed
  qed
qed

text \<open>
  C35. Without ignoring of missing secrets, vault-env hands the application exactly the environment
  the references describe, or none. On success the new environment is the old one in order, with
  every gateway setting removed and every reference \<open>NAME=vault:path#key\<close> replaced by \<open>NAME=value\<close>,
  followed by all pairs of the listed paths; every value is the one stored under the key in an
  answer of the gateway for that path, and no reference is left unresolved.
\<close>

theorem environment_is_resolved:
  assumes "resolveEnviron fetch orders environ fromPaths False s = (Inr env', st')"
  shows "\<exists>own. env' = own @ injected (rv_cache st') orders fromPaths \<and>
    list_all2 (\<lambda>kv out. if env_reference kv = None then out = kv else resolved (rv_cache st') kv out) (kept environ) own \<and>
    (\<forall>p d. rv_cache st' p = Some d \<longrightarrow> (\<exists>s1 s2. fetch p s1 = (Inr d, s2)))"
proof -
  let ?st = "\<lparr>rv_remote = s, rv_cache = Map.empty, rv_log = []\<rparr>"
  obtain r1 st1 where e: "environ_loop fetch False environ [] ?st = (r1, st1)" by (cases "environ_loop fetch False environ [] ?st")
  with assms obtain own where r1: "r1 = Inr own" by (cases r1) (auto simp: resolveEnviron_def)
  with assms e have f: "from_loop fetch False orders fromPaths own st1 = (Inr env', st')" by (simp add: resolveEnviron_def)
  note own = environ_loop_result [OF e] and rest = from_loop_result [OF f]
  have "list_all2 (settled False (rv_cache st')) (kept environ) own"
    using own rest r1 by (auto intro: settled_list_mono)
  moreover have "settled False c = (\<lambda>kv out. if env_reference kv = None then out = kv else resolved c kv out)" for c
    by (intro ext) (simp only: settled_def HOL.simp_thms)
  moreover have "answered fetch (rv_cache st')" using own rest by (auto simp: answered_def)
  ultimately show ?thesis using rest by (auto simp: answered_def)
qed

lemma resolve_result:
  assumes "resolveEnviron fetch orders environ fromPaths ign s = (r, st')"
  shows "(ign \<longrightarrow> (\<exists>env'. r = Inr env')) \<and>
    (\<forall>env'. r = Inr env' \<longrightarrow> (\<exists>own inj. env' = own @ inj \<and> (\<forall>kv\<in>set own. \<not> is_config kv) \<and>
      list_all2 (\<lambda>kv out. out = kv \<or> resolved (rv_cache st') kv out) (kept environ) own \<and>
      (\<forall>kv\<in>set inj. from_entry (rv_cache st') fromPaths kv)))"
proof -
  let ?st = "\<lparr>rv_remote = s, rv_cache = Map.empty, rv_log = []\<rparr>"
  obtain r1 st1 where e: "environ_loop fetch ign environ [] ?st = (r1, st1)" by (cases "environ_loop fetch ign environ [] ?st")
  note own = environ_loop_result [OF e]
  show ?thesis
  proof (cases r1)
    case (Inl err)
    with assms e own show ?thesis by (auto simp: resolveEnviron_def)
  next
    case (Inr env1)
    with assms e have f: "from_loop fetch ign orders fromPaths env1 st1 = (r, st')" by (simp add: resolveEnviron_def)
    note rest = from_loop_result [OF f]
    have all: "list_all2 (settled ign (rv_cache st')) (kept environ) env1"
      using own rest Inr by (auto intro: settled_list_mono)
    then have "list_all2 (\<lambda>kv out. out = kv \<or> resolved (rv_cache st') kv out) (kept environ) env1"
      by (rule list_all2_mono) (auto simp: settled_def split: if_splits)
    moreover have "\<forall>out\<in>set env1. \<not> is_config out"
    proof
      fix out assume "out \<in> set env1"
      with all obtain kv where "kv \<in> set (kept environ)" "settled ign (rv_cache st') kv out"
        by (metis in_set_conv_nth list_all2_conv_all_nth)
      then show "\<not> is_config out" by (auto simp: kept_def dest: settled_not_config)
    qed
    ultimately show ?thesis using rest by blast
  qed
qed

text \<open>
  In both modes the application never sees the gateway settings of its own environment: every
  variable that comes from the old environment has a name outside the stripped list, is the
  original or the resolved form of a kept variable, in the original order; everything else is a
  pair of a secret fetched for one of the listed paths. When missing secrets are ignored, resolving
  never fails.
\<close>

theorem settings_do_not_leak:
  assumes "resolveEnviron fetch orders environ fromPaths ign s = (r, st')"
  shows "(ign \<longrightarrow> (\<exists>env'. r = Inr env')) \<and>
    (\<forall>env'. r = Inr env' \<longrightarrow> (\<exists>own inj. env' = own @ inj \<and> (\<forall>kv\<in>set own. \<not> is_config kv) \<and>
      list_all2 (\<lambda>kv out. out = kv \<or> resolved (rv_cache st') kv out) (kept environ) own \<and>
      (\<forall>kv\<in>set inj. from_entry (rv_cache st') fromPaths kv)))"
  using resolve_result [OF assms] .

subsection \<open>How often a path is fetched\<close>

text \<open>A fetch function that records its calls and whether they succeeded.\<close>

definition traced :: "'s fetchFunc \<Rightarrow> ('s \<times> (string \<times> bool) list) fetchFunc" where
  "traced fetch p st =
     (case fetch p (fst st) of
        (Inl err, s) \<Rightarrow> (Inl err, (s, snd st @ [(p, False)]))
      | (Inr d, s) \<Rightarrow> (Inr d, (s, snd st @ [(p, True)])))"

definition calls :: "('s \<times> (string \<times> bool) list) resolver \<Rightarrow> (string \<times> bool) list" where
  "calls st = snd (rv_remote st)"

definition wins :: "('s \<times> (string \<times> bool) list) resolver \<Rightarrow> string list" where
  "wins st = map fst (filter snd (calls st))"

definition once :: "('s \<times> (string \<times> bool) list) resolver \<Rightarrow> bool" where
  "once st \<longleftrightarrow> distinct (wins st) \<and> set (wins st) \<subseteq> dom (rv_cache st)"

definition flawless :: "('s \<times> (string \<times> bool) list) resolver \<Rightarrow> bool" where
  "flawless st \<longleftrightarrow> list_all snd (calls st)"

text \<open>In strict mode a failed call is the last one.\<close>

definition orderly :: "bool \<Rightarrow> 'e + 'a \<Rightarrow> ('s \<times> (string \<times> bool) list) resolver \<Rightarrow> bool" where
  "orderly ign r st \<longleftrightarrow>
     once st \<and> (\<not> ign \<longrightarrow> (case r of Inr _ \<Rightarrow> flawless st | Inl _ \<Rightarrow> distinct (map fst (calls st))))"

lemma flawless_wins: "flawless st \<Longrightarrow> wins st = map fst (calls st)"
  by (simp add: flawless_def wins_def list_all_iff)

lemma log_debug_calls [simp]: "once (log_debug m a st) = once st" "flawless (log_debug m a st) = flawless st" "calls (log_debug m a st) = calls st"
  by (simp_all add: once_def flawless_def wins_def calls_def)

lemma cached_traced:
  assumes "cached (traced fetch) p st = (r, st')" and "once st" and "ign \<or> flawless st"
  shows "orderly ign r st'"
proof (cases "rv_cache st p")
  case (Some d)
  with assms show ?thesis by (auto simp: cached_def orderly_def)
next
  case None
  then have new: "p \<notin> set (wins st)" using assms(2) by (auto simp: once_def)
  obtain res s where f: "fetch p (fst (rv_remote st)) = (res, s)" by (cases "fetch p (fst (rv_remote st))")
  show ?thesis
  proof (cases res)
    case (Inl err)
    with None f assms(1) have r: "r = Inl err" and st': "st' = st\<lparr>rv_remote := (s, calls st @ [(p, False)])\<rparr>"
      by (auto simp: cached_def traced_def calls_def)
    have "wins st' = wins st" by (simp add: st' wins_def calls_def)
    moreover have "distinct (map fst (calls st'))" if "\<not> ign"
    proof -
      from that assms(2,3) have "distinct (map fst (calls st))" "p \<notin> set (map fst (calls st))"
        using flawless_wins [of st] new by (auto simp: once_def)
      then show ?thesis by (simp add: st' calls_def)
    qed
    ultimately show ?thesis using assms(2) r by (simp add: orderly_def once_def st')
  next
    case (Inr d)
    with None f assms(1) have r: "r = Inr d"
      and st': "st' = st\<lparr>rv_remote := (s, calls st @ [(p, True)]), rv_cache := (rv_cache st)(p \<mapsto> d)\<rparr>"
      by (auto simp: cached_def traced_def calls_def)
    have "wins st' = wins st @ [p]" by (simp add: st' wins_def calls_def)
    with assms(2,3) new r show ?thesis by (auto simp: orderly_def once_def flawless_def st' calls_def)
  qed
qed

lemma orderly_error: "orderly ign (Inr a) st \<Longrightarrow> orderly ign (Inl e) st"
  using flawless_wins [of st] by (auto simp: orderly_def once_def)

lemma resolve_traced:
  assumes "resolve_var (traced fetch) ign kv st = (r, st')" and "once st" and "ign \<or> flawless st"
  shows "orderly ign r st'"
proof (cases "env_reference kv")
  case None
  with assms resolve_config [of kv "traced fetch" ign st] resolve_plain [of kv "traced fetch" ign st] show ?thesis
    by (cases "is_config kv") (auto simp: orderly_def)
next
  case (Some ref)
  obtain k p key where ref: "ref = (k, p, key)" by (cases ref)
  obtain res st1 where c: "cached (traced fetch) p st = (res, st1)" by (cases "cached (traced fetch) p st")
  note eq = resolve_reference [OF Some [unfolded ref], of "traced fetch" ign st, unfolded c assms(1)]
  note ok = cached_traced [OF c assms(2,3)]
  show ?thesis
  proof (cases res)
    case (Inl err)
    with eq ok show ?thesis by (auto simp: orderly_def split: if_splits)
  next
    case (Inr d)
    with eq ok orderly_error [of ign d st1] show ?thesis
      by (cases "d key") (auto simp: orderly_def split: if_splits)
  qed
qed

lemma environ_traced:
  assumes "environ_loop (traced fetch) ign environ acc st = (r, st')" and "once st" and "ign \<or> flawless st"
  shows "orderly ign r st'"
  using assms
proof (induction environ arbitrary: acc st)
  case (Cons kv environ)
  obtain r1 st1 where v: "resolve_var (traced fetch) ign kv st = (r1, st1)" by (cases "resolve_var (traced fetch) ign kv st")
  note ok = resolve_traced [OF v Cons.prems(2,3)]
  show ?case
  proof (cases r1)
    case (Inr out)
    with ok have "once st1" "ign \<or> flawless st1" by (auto simp: orderly_def)
    with Cons.IH [of _ st1] Cons.prems(1) v Inr show ?thesis by auto
  qed (use ok v Cons.prems(1) in \<open>auto simp: orderly_def\<close>)
qed (auto simp: orderly_def)

lemma from_traced:
  assumes "from_loop (traced fetch) ign orders fromPaths acc st = (r, st')" and "once st" and "ign \<or> flawless st"
  shows "orderly ign r st'"
  using assms
proof (induction fromPaths arbitrary: orders acc st)
  case (Cons p fromPaths)
  show ?case
  proof (cases "TrimSpace p = ''''")
    case True
    with Cons show ?thesis by auto
  next
    case False
    obtain res st1 where c: "cached (traced fetch) (TrimSpace p) st = (res, st1)" by (cases "cached (traced fetch) (TrimSpace p) st")
    note ok = cached_traced [OF c Cons.prems(2,3)]
    show ?thesis
    proof (cases res)
      case (Inl err)
      show ?thesis
      proof (cases ign)
        case True
        with ok have "once (log_debug ''from-path not found, ignoring'' [(''path'', TrimSpace p)] st1)" by (simp add: orderly_def)
        from Cons.IH [OF _ this] Cons.prems(1) False c Inl True show ?thesis by auto
      qed (use ok Cons.prems(1) False c Inl in \<open>auto simp: orderly_def\<close>)
    next
      case (Inr d)
      obtain acc1 st2 where i: "inject_loop (TrimSpace p) d (hd orders) acc st1 = (acc1, st2)"
        by (cases "inject_loop (TrimSpace p) d (hd orders) acc st1")
      have "once st2" "ign \<or> flawless st2"
        using inject_loop_result [OF i] ok Inr by (auto simp: orderly_def once_def flawless_def wins_def calls_def)
      from Cons.IH [OF _ this] Cons.prems(1) False c Inr i show ?thesis by auto
    qed
  qed
qed (auto simp: orderly_def)

text \<open>
  C37. Secrets are fetched sparingly: whatever the environment refers to, each path is fetched with
  success at most once; and unless missing secrets are ignored, each path is fetched at most once
  at all, since the first failure ends the run.
\<close>

theorem each_path_fetched_once:
  assumes "resolveEnviron (traced fetch) orders environ fromPaths ign (s, []) = (r, st')"
  shows "distinct (map fst (filter snd (snd (rv_remote st')))) \<and> (\<not> ign \<longrightarrow> distinct (map fst (snd (rv_remote st'))))"
proof -
  let ?st = "\<lparr>rv_remote = (s, []), rv_cache = Map.empty, rv_log = []\<rparr>"
  have start: "once ?st" "ign \<or> flawless ?st" by (simp_all add: once_def flawless_def wins_def calls_def)
  obtain r1 st1 where e: "environ_loop (traced fetch) ign environ [] ?st = (r1, st1)" by (cases "environ_loop (traced fetch) ign environ [] ?st")
  note ok = environ_traced [OF e start]
  have "orderly ign r st'"
  proof (cases r1)
    case (Inr env1)
    with ok have "once st1" "ign \<or> flawless st1" by (auto simp: orderly_def)
    with from_traced [of fetch ign orders fromPaths env1 st1] assms e Inr show ?thesis by (simp add: resolveEnviron_def)
  qed (use ok assms e in \<open>auto simp: resolveEnviron_def orderly_def\<close>)
  then show ?thesis
    using flawless_wins [of st'] by (cases r) (auto simp: orderly_def once_def wins_def calls_def)
qed


subsection \<open>A run\<close>

definition demo_fetch :: "unit fetchFunc" where
  "demo_fetch p s = (if p = ''secret/data/db'' then (Inr [''pw'' \<mapsto> ''hunter2''], s) else (Inl ''secret not found'', s))"

definition demo_environ :: "string list" where
  "demo_environ = [''VAULT_TOKEN=t'', ''PW=vault:secret/data/db#pw'', ''HOME=/root'']"

lemma demo_resolves:
  "\<exists>st. resolveEnviron demo_fetch [] demo_environ [] False () = (Inr [''PW=hunter2'', ''HOME=/root''], st)"
proof -
  have "fst (resolveEnviron demo_fetch [] demo_environ [] False ()) = Inr [''PW=hunter2'', ''HOME=/root'']"
    by (simp add: resolveEnviron_def demo_environ_def resolve_var_def vaultEnvVars_def HasPrefix_def TrimPrefix_def SplitN2_def
        cached_def demo_fetch_def Let_def)
  then show ?thesis by (metis prod.collapse)
qed

theorem environment_is_resolved_witness:
  "\<exists>st own. [''PW=hunter2'', ''HOME=/root''] = own @ injected (rv_cache st) [] [] \<and>
     resolveEnviron demo_fetch [] demo_environ [] False () = (Inr [''PW=hunter2'', ''HOME=/root''], st)"
proof -
  obtain st where run: "resolveEnviron demo_fetch [] demo_environ [] False () = (Inr [''PW=hunter2'', ''HOME=/root''], st)"
    using demo_resolves by blast
  from environment_is_resolved [OF run] run show ?thesis by blast
qed

theorem settings_do_not_leak_witness:
  "\<exists>st own inj. [''PW=hunter2'', ''HOME=/root''] = own @ inj \<and> (\<forall>kv\<in>set own. \<not> is_config kv) \<and>
     resolveEnviron demo_fetch [] demo_environ [] False () = (Inr [''PW=hunter2'', ''HOME=/root''], st)"
proof -
  obtain st where run: "resolveEnviron demo_fetch [] demo_environ [] False () = (Inr [''PW=hunter2'', ''HOME=/root''], st)"
    using demo_resolves by blast
  from settings_do_not_leak [OF run] run show ?thesis by blast
qed

theorem each_path_fetched_once_witness:
  "distinct (map fst (snd (rv_remote (snd (resolveEnviron (traced demo_fetch) [] demo_environ [''secret/data/db''] False ((), []))))))"
proof -
  obtain r st where run: "resolveEnviron (traced demo_fetch) [] demo_environ [''secret/data/db''] False ((), []) = (r, st)"
    by (cases "resolveEnviron (traced demo_fetch) [] demo_environ [''secret/data/db''] False ((), [])")
  from each_path_fetched_once [OF run] run show ?thesis by simp
qed

text \<open>
  Two limits of these properties, by example: while missing secrets are ignored, a path that
  fails is asked for once per reference; and a secret of a listed path may bring back a variable
  with the name of a stripped setting.
\<close>

lemma failing_path_is_refetched:
  "map fst (snd (rv_remote (snd (resolveEnviron (traced demo_fetch) [] [''A=vault:gone#k'', ''B=vault:gone#k''] [] True ((), []))))) =
     [''gone'', ''gone'']"
  by (simp add: resolveEnviron_def resolve_var_def vaultEnvVars_def HasPrefix_def TrimPrefix_def SplitN2_def cached_def
      demo_fetch_def traced_def log_debug_def Let_def)

definition token_fetch :: "unit fetchFunc" where
  "token_fetch p s = (Inr [''VAULT_TOKEN'' \<mapsto> ''root''], s)"

lemma listed_path_may_set_a_setting:
  "fst (resolveEnviron token_fetch [[''VAULT_TOKEN'']] [''VAULT_TOKEN=t''] [''p''] False ()) = Inr [''VAULT_TOKEN=root'']"
proof -
  have "TrimSpace ''p'' = ''p''" by (rule TrimSpace_visible) (simp_all add: code_def IsSpace_def)
  then show ?thesis
    by (simp add: resolveEnviron_def resolve_var_def vaultEnvVars_def cached_def token_fetch_def Let_def)
qed


subsection \<open>The whole command\<close>

lemma login_attempt_token:
  assumes "login_attempt hx ctx c role jwt st = (None, (tok, s'))"
  shows "inject_login hx ctx c role jwt (snd st) = (Inr tok, s')" and "tok \<noteq> ''''"
proof -
  show login: "inject_login hx ctx c role jwt (snd st) = (Inr tok, s')"
    using assms by (auto simp: login_attempt_def split: prod.splits sum.splits)
  then show "tok \<noteq> ''''"
    by (auto simp: inject_login_def Let_def split: option.splits prod.splits sum.splits if_splits)
qed

lemma three_attempts:
  assumes "withRetry 3 500000000 fn s = (None, s', slept)"
  shows "\<exists>s1. fn s1 = (None, s')" and "\<exists>n\<le>2. slept = take n [500000000, 1000000000]"
proof -
  obtain n where n: "n \<le> 3" "(None, s', slept) = (if n = 0 then None else attempt fn s (n - 1), attempt_state fn s n, map (\<lambda>j. push_bit j 500000000) [0..<n - 1])"
      "n < 3 \<longrightarrow> 0 < n"
    using withRetry_calls [of 3 500000000 fn s] assms by auto
  then obtain m where m: "n = Suc m" by (cases n) auto
  with n have "fn (attempt_state fn s m) = (None, s')"
    by (simp add: attempt_def attempt_state_def prod_eq_iff)
  then show "\<exists>s1. fn s1 = (None, s')" by blast
  have "m = 0 \<or> m = 1 \<or> m = 2" using m n(1) by auto
  then show "\<exists>n\<le>2. slept = take n [500000000, 1000000000]"
    using n(2) m by (intro exI [of _ m]) (auto simp: upt_rec push_bit_eq_mult)
qed



definition demo_http :: "unit http_client" where
  "demo_http =
     \<lparr>hx_NewRequest = (\<lambda>_. None),
      hx_Do = (\<lambda>_ _ _ s. (Inr \<lparr>rp_StatusCode = 200, rp_Body = ''{\"auth\":{\"client_token\":\"t\"}}''\<rparr>, s)),
      hx_decode_error = (\<lambda>_. ''EOF'')\<rparr>"

definition demo_inject :: inject_env where
  "demo_inject =
     \<lparr>ie_args = [''vault-env'', ''app'', ''-v''], ie_environ = [''VAULT_ROLE=app'', ''HOME=/root''],
      ie_ReadFile = (\<lambda>_. Inr ''jwt''), ie_has_certs = (\<lambda>_. True), ie_LookPath = (\<lambda>_. Some ''/bin/app''),
      ie_fraction = (\<lambda>_ _ _. 0), ie_orders = [],
      ie_copy = \<lparr>cp_Executable = Inl ''none'', cp_Open = (\<lambda>_. Inl ''none''), cp_MkdirAll = (\<lambda>_. None),
                 cp_OpenFile = (\<lambda>_. None), cp_Copy = None, cp_Close = None\<rparr>\<rparr>"

lemma demo_login_response: "decode_loginResponse ''{\"auth\":{\"client_token\":\"t\"}}'' = Some \<lparr>ln_ClientToken = ''t'', ln_Errors = []\<rparr>"
  by code_simp

lemma demo_execs: "inject_run demo_http demo_inject () = (Exec ''/bin/app'' [''app'', ''-v''] [''HOME=/root''], (), [])"
proof -
  have login: "inject_login demo_http ctx c role jwt () = (Inr ''t'', ())" for ctx c role jwt
    by (simp add: inject_login_def demo_http_def demo_login_response Let_def)
  have attempt: "withRetry 3 500000000 (login_attempt demo_http ctx c role jwt) ('''', ()) = (None, (''t'', ()), [])" for ctx c role jwt
    by (simp add: withRetry_def retry_loop.simps login_attempt_def login)
  have env: "Getenv [''VAULT_ROLE=app'', ''HOME=/root''] k = (if k = ''VAULT_ROLE'' then ''app'' else if k = ''HOME'' then ''/root'' else '''')" for k
    by (auto simp: Getenv_def env_name_def)
  have "resolveEnviron fetch [] [''VAULT_ROLE=app'', ''HOME=/root''] [] False () =
      (Inr [''HOME=/root''], \<lparr>rv_remote = (), rv_cache = Map.empty, rv_log = []\<rparr>)" for fetch
    by (simp add: resolveEnviron_def resolve_var_def vaultEnvVars_def HasPrefix_def)
  then show ?thesis
    by (simp add: inject_run_def demo_inject_def env getenv_def newClient_def attempt splitCSV_def equal_fold_def Let_def)
qed


end
