(* ===== verification/Exchange_Properties.thy ===== *)
theory Exchange_Properties
  imports Gateway_Exchange Inject_Properties
begin

text \<open>
  What the two programs promise together: vault-env started next to a gateway that grants its login
  and its read ends up executing the application with the secret in its environment, byte for byte.
\<close>

subsection \<open>Resolving references to one path\<close>

definition substituted :: "strmap \<Rightarrow> string \<Rightarrow> string" where
  "substituted d kv = (case env_reference kv of None \<Rightarrow> kv | Some (k, path, key) \<Rightarrow> k @ ''='' @ the (d key))"

definition refers_only :: "string \<Rightarrow> strmap \<Rightarrow> string list \<Rightarrow> bool" where
  "refers_only path d environ \<longleftrightarrow>
     (\<forall>kv \<in> set environ. case env_reference kv of None \<Rightarrow> True | Some (k, p, key) \<Rightarrow> p = path \<and> key \<in> dom d)"

lemma one_path_loop:
  assumes "fetch path s = (Inr d, s')" and "refers_only path d environ"
    and "rv_cache st = Map.empty \<and> rv_remote st = s \<or> rv_cache st = [path \<mapsto> d]"
  shows "\<exists>st'. environ_loop fetch ign environ acc st = (Inr (acc @ map (substituted d) (kept environ)), st')"
  using assms(2,3)
proof (induction environ arbitrary: acc st)
  case Nil
  then show ?case by (simp add: kept_def)
next
  case (Cons kv environ)
  have later: "refers_only path d environ" using Cons.prems(1) by (simp add: refers_only_def)
  show ?case
  proof (cases "env_reference kv")
    case None
    with Cons.IH [OF later Cons.prems(2), of acc] Cons.IH [OF later Cons.prems(2), of "acc @ [kv]"] show ?thesis
      by (cases "is_config kv") (auto simp: resolve_config resolve_plain kept_def substituted_def)
  next
    case (Some ref)
    then obtain k key val where ref: "env_reference kv = Some (k, path, key)" "d key = Some val"
      using Cons.prems(1) by (cases ref) (auto simp: refers_only_def)
    have "\<exists>st1. cached fetch path st = (Inr d, st1) \<and> rv_cache st1 = [path \<mapsto> d]"
      using Cons.prems(2) assms(1) by (elim disjE conjE) (simp_all add: cached_def fun_upd_def)
    then obtain st2 where "resolve_var fetch ign kv st = (Inr (Some (k @ ''='' @ val)), st2)" "rv_cache st2 = [path \<mapsto> d]"
      using ref by (force simp: resolve_reference)
    with Cons.IH [OF later, of st2 "acc @ [k @ ''='' @ val]"] ref reference_not_config [OF ref(1)] show ?thesis
      by (auto simp: kept_def substituted_def)
  qed
qed

subsection \<open>Granted logins and reads\<close>

text \<open>What the gateway needs for a login to be granted, and for a read with the token it gave.\<close>

definition login_granted :: "env \<Rightarrow> Handlers \<Rightarrow> string \<Rightarrow> string \<Rightarrow> Identity \<Rightarrow> string \<Rightarrow> bool" where
  "login_granted ev h role jwt i tok \<longleftrightarrow>
     reviewed ev h \<lparr>lr_JWT = jwt, lr_Role = role\<rparr> = Inr i \<and> CheckBinding (h_rbac h) role (id_Namespace i) (id_ServiceAccount i) \<and>
     randomHex (ev_rnd1 ev) = Some tok \<and> tok \<noteq> '''' \<and> ev_rnd2 ev \<noteq> None \<and>
     (0 < maxTokensPerIdentity (h_tokens h) \<longrightarrow>
        active_count (h_tokens h) (identityKey (i\<lparr>id_Role := role\<rparr>)) < maxTokensPerIdentity (h_tokens h))"

definition read_granted :: "env \<Rightarrow> Handlers \<Rightarrow> mheap \<Rightarrow> Identity \<Rightarrow> string \<Rightarrow> strmap \<Rightarrow> bool" where
  "read_granted ev h hp i p d \<longleftrightarrow>
     Validate p = Inr () \<and> CheckAccess (h_rbac h) (Some i) p \<and>
     (case h_backend h of None \<Rightarrow> False | Some b \<Rightarrow> offers (ev_remotes ev) (ev_clock ev 2) hp b p d)"

lemma login_then_read:
  assumes "login_possible nr m c role jwt" and "nr (vc_addr c @ ''/v1/secret/data/'' @ p) = None"
    and "handlers_ok (g_handlers g) (w_heap (g_world g))"
    and "login_granted ev1 (g_handlers g) role jwt i tok"
    and "ev_clock ev2 1 \<le> ev_clock ev1 1 + ttlForRole (g_handlers g) role"
    and "read_granted ev2 (g_handlers g) (w_heap (g_world g)) (i\<lparr>id_Role := role\<rparr>) p d"
    and "valid_map d" and "d \<noteq> Map.empty"
  shows "\<exists>st1 st2. inject_login (gateway_http nr de peer m) ctx c role jwt ([(me1, ev1), (me2, ev2)], g) = (Inr tok, st1) \<and>
    readSecret (gateway_http nr de peer m) ctx' (c\<lparr>vc_token := tok\<rparr>) (''secret/data/'' @ p) st1 = (Inr d, st2)"
proof -
  let ?h = "g_handlers g" and ?i = "i\<lparr>id_Role := role\<rparr>"
  obtain acc where acc: "randomHex (ev_rnd2 ev1) = Some acc" using assms(4) by (auto simp: login_granted_def randomHex_def)
  obtain toks where issue: "IssueToken (ev_rnd1 ev1) (ev_rnd2 ev1) (ev_clock ev1 1) ?i (ttlForRole ?h role) (h_tokens ?h) = (Inr (tok, acc), toks)"
    using assms(4) acc by (auto simp: IssueToken_ok login_granted_def)
  obtain g1 where login: "inject_login (gateway_http nr de peer m) ctx c role jwt ([(me1, ev1), (me2, ev2)], g) = (Inr tok, ([(me2, ev2)], g1))"
    and g1: "g_handlers g1 = ?h\<lparr>h_tokens := toks\<rparr>" "w_heap (g_world g1) = w_heap (g_world g)"
    using gateway_login [OF assms(1) _ _ issue, of de peer ctx me1 "[(me2, ev2)]"] assms(4) by (auto simp: login_granted_def)
  have "store_inv (h_tokens ?h)" using assms(3) by (simp add: handlers_ok_def)
  from tokens.issued_token_verifies [OF this issue] assms(5)
  have "VerifyToken (ev_clock ev2 1) tok toks = Some ?i" by simp
  moreover obtain b where "h_backend ?h = Some b" "offers (ev_remotes ev2) (ev_clock ev2 2) (w_heap (g_world g)) b p d"
    using assms(6) by (auto simp: read_granted_def split: option.splits)
  ultimately show ?thesis
    using gateway_read [of nr "c\<lparr>vc_token := tok\<rparr>" p m ev2 g1 ?i b d de peer ctx' me2 "[]"] assms(1,2,3,6-8) login g1
    by (auto simp: read_granted_def login_possible_def handlers_ok_def)
qed


subsection \<open>The application gets its secret\<close>

text \<open>
  The settings of a vault-env process: a command that is found, a client and a token file that can
  be read, and no whole paths to inject.
\<close>

definition workload :: "inject_env \<Rightarrow> vaultClient \<Rightarrow> string \<Rightarrow> string \<Rightarrow> string \<Rightarrow> bool" where
  "workload ie c role jwt binary \<longleftrightarrow>
     2 \<le> length (ie_args ie) \<and> ie_args ie ! 1 \<noteq> ''copy'' \<and> ie_LookPath ie (ie_args ie ! 1) = Some binary \<and>
     newClient (ie_ReadFile ie) (ie_has_certs ie) (getenv (ie_environ ie) ''VAULT_ADDR'' defaultAddr)
       (equal_fold (Getenv (ie_environ ie) ''VAULT_SKIP_VERIFY'') ''true'') (Getenv (ie_environ ie) ''VAULT_CACERT'') = Inr c \<and>
     getenv (ie_environ ie) ''VAULT_ROLE'' defaultRole = role \<and>
     (\<exists>bytes. ie_ReadFile ie (getenv (ie_environ ie) ''VAULT_JWT_FILE'' defaultJWTFile) = Inr bytes \<and> TrimSpace bytes = jwt) \<and>
     Getenv (ie_environ ie) ''VAULT_ENV_FROM_PATH'' = ''''"

lemma run_granted:
  assumes "workload ie c role jwt binary"
    and "\<And>ctx. inject_login hx ctx c role jwt s = (Inr tok, s1)"
    and "\<And>ctx. \<exists>s2. readSecret hx ctx (c\<lparr>vc_token := tok\<rparr>) path s1 = (Inr d, s2)"
    and "refers_only path d (ie_environ ie)"
  shows "\<exists>s2. inject_run hx ie s = (Exec binary (drop 1 (ie_args ie)) (map (substituted d) (kept (ie_environ ie))), s2, [])"
proof -
  have retry: "withRetry 3 500000000 (login_attempt hx ctx c role jwt) ('''', s) = (None, (tok, s1), [])" for ctx
    by (simp add: withRetry_def retry_loop.simps login_attempt_def assms(2))
  have "\<exists>st. resolveEnviron (readSecret hx ctx (c\<lparr>vc_token := tok\<rparr>)) orders (ie_environ ie) [] ign s1 =
      (Inr (map (substituted d) (kept (ie_environ ie))), st)" for ctx orders ign
  proof -
    from assms(3) obtain s2 where "readSecret hx ctx (c\<lparr>vc_token := tok\<rparr>) path s1 = (Inr d, s2)" by blast
    from one_path_loop [where fetch = "readSecret hx ctx (c\<lparr>vc_token := tok\<rparr>)" and s = s1 and acc = "[]" and ign = ign and st = "\<lparr>rv_remote = s1, rv_cache = Map.empty, rv_log = []\<rparr>", OF this assms(4)]
    show ?thesis by (auto simp: resolveEnviron_def)
  qed
  then obtain st where res: "resolveEnviron
      (readSecret hx \<lparr>cx_login = timeout_override (ie_fraction ie) (Getenv (ie_environ ie) ''VAULT_LOGIN_TIMEOUT'') (30 * Second),
         cx_read = Some (timeout_override (ie_fraction ie) (Getenv (ie_environ ie) ''VAULT_READ_TIMEOUT'') (15 * Second))\<rparr> (c\<lparr>vc_token := tok\<rparr>))
      (ie_orders ie) (ie_environ ie) [] (equal_fold (Getenv (ie_environ ie) ''VAULT_IGNORE_MISSING_SECRETS'') ''true'') s1 =
      (Inr (map (substituted d) (kept (ie_environ ie))), st)" by blast
  from assms(1) obtain bytes where "ie_ReadFile ie (getenv (ie_environ ie) ''VAULT_JWT_FILE'' defaultJWTFile) = Inr bytes" "TrimSpace bytes = jwt"
    by (auto simp: workload_def)
  with assms(1) show ?thesis
    by (simp add: inject_run_def workload_def splitCSV_def Let_def retry res [simplified])
qed



subsection \<open>Texts that both sides understand\<close>

text \<open>
  C38. Both programs read what the other one writes. For strings in UTF-8: the gateway decodes from
  the login that vault-env encodes exactly its role and its token; vault-env finds in the text of a
  secret response exactly the data that the gateway encoded, whatever keys and values these are,
  and in the text of a login response exactly the token; and it finds the messages of an error
  response.
\<close>

theorem exchange_roundtrip:
  assumes "valid_utf8 role" "valid_utf8 jwt" "valid_utf8 tok" and "valid_map d" and "list_all valid_utf8 msgs"
  shows "decode_login (Marshal_login role jwt) = Some \<lparr>lr_JWT = jwt, lr_Role = role\<rparr> \<and>
    decode_secretResponse (body_text (secret_body ev r (Some d))) = Some \<lparr>rs_Data = Some d, rs_Errors = []\<rparr> \<and>
    decode_loginResponse (body_text (auth_body r req i ttl tok acc)) = Some \<lparr>ln_ClientToken = tok, ln_Errors = []\<rparr> \<and>
    decode_secretResponse (body_text (BError \<lparr>er_Errors = msgs\<rparr>)) = Some \<lparr>rs_Data = None, rs_Errors = msgs\<rparr> \<and>
    decode_loginResponse (body_text (BError \<lparr>er_Errors = msgs\<rparr>)) = Some \<lparr>ln_ClientToken = '''', ln_Errors = msgs\<rparr>"
proof -
  have "map utf8_text msgs = msgs" using assms(5) by (induction msgs) (simp_all add: utf8_text_valid)
  with assms valid_map_text [OF assms(4)] show ?thesis
    by (simp add: decode_login_request secret_body_def decode_secret_text auth_body_def decode_login_text decode_error_text)
qed

text \<open>
  Data that a backend decodes from JSON is UTF-8 already. Other bytes would not survive: each byte
  that is not part of a rune would reach the application as the replacement rune.
\<close>

lemma gcp_data_is_text: "backend_answer rs (GCP b) path = Value (Some d) \<Longrightarrow> valid_map d"
  by (auto simp: gcp_answer_def gcp_fetch_def dest: Unmarshal_map_valid split: sum.splits if_splits option.splits)

lemma raw_bytes_are_replaced:
  "decode_secretResponse (body_text (secret_body ev r (Some [''value'' \<mapsto> [CHR 0xFF]]))) =
     Some \<lparr>rs_Data = Some [''value'' \<mapsto> [CHR 0xEF, CHR 0xBF, CHR 0xBD]], rs_Errors = []\<rparr>"
proof -
  have "valid_keys [''value'' \<mapsto> [CHR 0xFF]]" by (auto simp: valid_keys_def valid_utf8_ascii ascii_def code_def split: if_splits)
  note keys = this
  have "DecodeRune [CHR 0xFF] = (RuneError, 1)" by (simp add: DecodeRune_def decode_codes_def rune_len_def code_def)
  moreover have "EncodeRune RuneError = [CHR 0xEF, CHR 0xBF, CHR 0xBD]"
    using utf8_bytes_code [of "CHR 0xEF" 239] utf8_bytes_code [of "CHR 0xBF" 191] utf8_bytes_code [of "CHR 0xBD" 189]
    by (simp add: EncodeRune_def code_def) (simp add: utf8_bytes_def)
  ultimately have "utf8_text [CHR 0xFF] = [CHR 0xEF, CHR 0xBF, CHR 0xBD]" by (simp add: utf8_text_step)
  then have "text_map [''value'' \<mapsto> [CHR 0xFF]] = [''value'' \<mapsto> [CHR 0xEF, CHR 0xBF, CHR 0xBD]]" by (auto simp: text_map_def)
  with keys show ?thesis by (simp add: secret_body_def decode_secret_text)
qed

text \<open>
  C39. A refused login is final. When the gateway refuses a login, because the cluster does not
  confirm the service account token or the role is not bound to its owner, vault-env reads the
  refusal from the response, makes no second attempt and does not sleep, and the handlers of the
  gateway are left as they were.
\<close>

theorem refused_login_is_final:
  assumes "login_possible nr m c role jwt"
    and "\<nexists>i. reviewed ev (g_handlers g) \<lparr>lr_JWT = jwt, lr_Role = role\<rparr> = Inr i \<and>
           CheckBinding (h_rbac (g_handlers g)) role (id_Namespace i) (id_ServiceAccount i)"
  shows "\<exists>g'. withRetry 3 500000000 (login_attempt (gateway_http nr de peer m) ctx c role jwt) ('''', ((me, ev) # es, g)) =
      (Some ''login failed (HTTP 403): permission denied'', ('''', (es, g')), []) \<and> g_handlers g' = g_handlers g"
proof -
  obtain g' where login: "inject_login (gateway_http nr de peer m) ctx c role jwt ((me, ev) # es, g) =
      (Inl ''login failed (HTTP 403): permission denied'', (es, g'))" "g_handlers g' = g_handlers g"
    using gateway_denies [OF assms] by blast
  have "\<not> isRetryable ''login failed (HTTP 403): permission denied''" by (simp add: isRetryable_def HasPrefix_def)
  with login show ?thesis by (simp add: withRetry_def retry_loop.simps login_attempt_def)
qed

subsection \<open>An instance\<close>

definition demo_open :: "nat Middleware" where
  "demo_open = fst (NewMiddleware demo_bucket True 1048576 True
     \<lparr>rl_Enabled = False, rl_RequestsPerSecond = 0, rl_Burst = 0\<rparr> \<lparr>co_Enabled = False, co_AllowedOrigins = []\<rparr>)"

definition demo_gateway :: "nat server_state" where
  "demo_gateway = demo_state\<lparr>g_handlers := demo_start\<rparr>"

definition demo_workload :: inject_env where
  "demo_workload = demo_inject
     \<lparr>ie_environ := [''VAULT_ROLE=app'', ''PW=vault:secret/data/db#value'', ''HOME=/root''], ie_ReadFile := (\<lambda>_. Inr ''j'')\<rparr>"

definition demo_client :: vaultClient where
  "demo_client = \<lparr>vc_addr = defaultAddr, vc_token = '''', vc_MinVersion = 0x0303, vc_InsecureSkipVerify = False, vc_RootCAs = None,
     vc_Timeout = 30 * Second\<rparr>"

lemma demo_open_fields: "mw_rateLimit demo_open = \<lparr>rl_Enabled = False, rl_RequestsPerSecond = 0, rl_Burst = 0\<rparr>" "mw_maxBodyBytes demo_open = 1048576"
  by (simp_all add: demo_open_def NewMiddleware_def Let_def)

lemma demo_valid: "valid_utf8 ''app''" "valid_utf8 ''j''" "valid_utf8 ''intruder''"
  by (simp_all add: valid_utf8_ascii ascii_def code_def)

lemma demo_workload_set_up: "workload demo_workload demo_client ''app'' ''j'' ''/bin/app''"
proof -
  have env: "Getenv [''VAULT_ROLE=app'', ''PW=vault:secret/data/db#value'', ''HOME=/root''] k =
      (if k = ''VAULT_ROLE'' then ''app'' else if k = ''PW'' then ''vault:secret/data/db#value'' else if k = ''HOME'' then ''/root'' else '''')" for k
    by (auto simp: Getenv_def env_name_def)
  have "TrimRightByte defaultAddr CHR ''/'' = defaultAddr" by (simp add: defaultAddr_def TrimRightByte_def)
  then show ?thesis
    by (simp add: workload_def demo_workload_def demo_inject_def env getenv_def newClient_def equal_fold_def demo_client_def demo_jwt_visible Let_def)
qed

lemma encode_body_ascii: "ascii s \<Longrightarrow> encode_body s = concat (map encode_ascii s)"
  by (induction s) (simp_all add: encode_body.simps [of "_ # _"] encode_body.simps [of "[]"] ascii_def)

lemma demo_login_possible: "role = ''app'' \<or> role = ''intruder'' \<Longrightarrow> login_possible (\<lambda>_. None) demo_open demo_client role ''j''"
  using demo_valid
  by (auto simp: login_possible_def demo_open_fields Marshal_login_def appendString_def encode_body_ascii ascii_def encode_ascii_def
      htmlSafe_def code_def)

lemma demo_grants:
  "login_granted demo_login_env (g_handlers demo_gateway) ''app'' ''j'' (demo_identity\<lparr>id_Role := ''''\<rparr>) ''ab''"
  "read_granted demo_env (g_handlers demo_gateway) (w_heap (g_world demo_gateway)) demo_identity ''db'' [''value'' \<mapsto> ''plain'']"
proof -
  have g: "g_handlers demo_gateway = demo_start" "g_world demo_gateway = demo_world" by (simp_all add: demo_gateway_def demo_state_def)
  show "login_granted demo_login_env (g_handlers demo_gateway) ''app'' ''j'' (demo_identity\<lparr>id_Role := ''''\<rparr>) ''ab''"
    using demo_bound
    by (simp add: login_granted_def g demo_reviewed demo_hex NewTokenStore_def active_count_def demo_identity_def)
  have "backend_ok demo_aws (w_heap demo_world)"
    using demo_handlers_ok by (simp add: handlers_ok_def) (simp add: demo_handlers_def)
  note aws = demo_get_ok(2,3) [OF this]
  have "h_backend demo_start = Some demo_aws" "CheckAccess (h_rbac demo_start) (Some demo_identity) ''db''"
    using demo_authorized by (simp_all add: authorized_def demo_path) (simp_all add: demo_handlers_def)
  with aws show "read_granted demo_env (g_handlers demo_gateway) (w_heap (g_world demo_gateway)) demo_identity ''db'' [''value'' \<mapsto> ''plain'']"
    by (simp add: read_granted_def g offers_def demo_path demo_env_def)
qed


theorem exchange_roundtrip_witness:
  "decode_secretResponse (body_text (secret_body demo_env (demo_read ''db'' ''ab'') (Some [[CHR 0xC3, CHR 0xA9] \<mapsto> [CHR 0x22, CHR 0x5C, CHR 0x0A]]))) =
     Some \<lparr>rs_Data = Some [[CHR 0xC3, CHR 0xA9] \<mapsto> [CHR 0x22, CHR 0x5C, CHR 0x0A]], rs_Errors = []\<rparr>"
proof -
  have "DecodeRune [CHR 0xC3, CHR 0xA9] = (233, 2)"
    by (simp add: DecodeRune_def decode_codes_def rune_len_def second_ok_def is_cont_def code_def)
  then have "valid_utf8 [CHR 0xC3, CHR 0xA9]"
    by (simp add: valid_utf8.simps [of "[CHR 0xC3, CHR 0xA9]"] valid_utf8.simps [of "[]"])
  moreover have "valid_utf8 [CHR 0x22, CHR 0x5C, CHR 0x0A]" by (simp add: valid_utf8_ascii ascii_def code_def)
  ultimately have "valid_map [[CHR 0xC3, CHR 0xA9] \<mapsto> [CHR 0x22, CHR 0x5C, CHR 0x0A]]" by (auto simp: valid_map_def split: if_splits)
  from exchange_roundtrip [OF demo_valid(1,2,1) this, of "[]"] show ?thesis by simp
qed

theorem refused_login_is_final_witness:
  "\<exists>g'. withRetry 3 500000000 (login_attempt (gateway_http (\<lambda>_. None) (\<lambda>_. ''EOF'') ''10.0.0.1:4711'' demo_open)
       \<lparr>cx_login = 30 * Second, cx_read = None\<rparr> demo_client ''intruder'' ''j'') ('''', ([(demo_me, demo_login_env)], demo_gateway)) =
     (Some ''login failed (HTTP 403): permission denied'', ('''', ([], g')), [])"
proof -
  have "\<not> CheckBinding (h_rbac demo_start) ''intruder'' ''opus'' ''web''" by (simp add: demo_handlers_def) code_simp
  then have "\<nexists>i. reviewed demo_login_env (g_handlers demo_gateway) \<lparr>lr_JWT = ''j'', lr_Role = ''intruder''\<rparr> = Inr i \<and>
      CheckBinding (h_rbac (g_handlers demo_gateway)) ''intruder'' (id_Namespace i) (id_ServiceAccount i)"
    by (simp add: demo_reviewed demo_gateway_def demo_identity_def)
  from refused_login_is_final [OF demo_login_possible this, of _ _ _ demo_me "[]"] show ?thesis by blast
qed

end
