(* ===== verification/Spec2Isabelle.thy ===== *)
theory Spec2Isabelle
  imports Concurrent_Properties Exchange_Properties
begin

text \<open>
  A verification of the vault gateway, a server that speaks the part of the HashiCorp Vault API that
  Kubernetes workloads need and keeps the secrets in AWS Secrets Manager, Azure Key Vault, Google
  Secret Manager or another Vault, and of \<open>vault-env\<close>, the program that workloads start with to get
  their secrets into the environment.

  \<^bold>\<open>How the program works.\<close> The command cmd/vault-gateway reads a configuration (internal/config),
  builds a backend, the token validator, the token store and the access control (internal/auth),
  the API handlers (internal/api) and the HTTP server with its middleware and routes
  (internal/server), and serves until it is stopped. A workload logs in with its service-account
  token; the gateway has it reviewed by the Kubernetes API server, checks that the requested role
  admits the account and issues a token. With the token the workload reads secret paths: the path is
  validated (internal/secretpath), the token verified, the role's path patterns checked, and the
  backend asked, which looks into its cache (internal/cache) first. Two background loops drop expired
  tokens and idle rate limiters. The command cmd/vault-inject logs in, resolves the references in its
  environment by reads and executes the application.

  \<^bold>\<open>Theories.\<close> State is a record that operations take and return; an error is a value of a sum or
  option type; a panic is a value too. Everything that is not in the repository is an argument: the
  clock, random bytes, the order of a map iteration, the SDK clients, the network and the file system.

  \<^item> Gateway_Prelude holds the shared types, collections and lemmas. Go_Utf8, Go_Strings, Go_Time,
    Go_Date, Go_Json, Go_Json_Encode, Json_Text, Json_Valid, Go_Http and Go_Heap model what the program uses of the
    language and its library: strings as byte lists with UTF-8 decoding, durations and dates, the JSON
    scanner, decoder and encoder with their round trip, requests and response writers, and maps as
    references into a heap, so that sharing shows.
  \<^item> Secret_Path (internal/secretpath): the validation, the set of accepted paths, and that an accepted
    path cannot climb out of any directory.
  \<^item> Token_Validator, Rbac and Token_Store (internal/auth): the review of service-account tokens, the
    glob matching against an inductive meaning, access decisions, and the token store. The locale
    token_service states what the store promises; its instance on the model carries quota, expiry,
    revocation and sweeps over all sequences of operations.
  \<^item> Secret_Cache and Cache_Contract (internal/cache): the map and the recency list of the cache refine
    a bounded list with eviction of the least recently used; the locale kv_cache states the contract
    a backend relies on, with the ownership of the maps handed out.
  \<^item> Gateway_World is the state the components share: heap, metrics and log. Secret_Backend has the
    read-through contract as the locale secret_backend; Aws_Backend, Azure_Naming with Azure_Backend,
    Gcp_Backend and Vault_Backend (internal/backend) are the four backends, each an instance, and
    Backends is the interface type that dispatches to them, again an instance.
  \<^item> Api_Handlers (internal/api, pkg/vaultresponse, internal/version): the four handlers;
    Api_Properties: a case rule per handler and what single requests do. Gateway_Run: the token cleanup
    and histories of handler calls.
  \<^item> Gateway_Config (internal/config): defaults, overrides, validation and loading.
  \<^item> Middleware, Routes and Gateway_Server (internal/server): the chain of middleware, the limiters, the
    router on http.ServeMux, TLS settings, the side server, start and shutdown; their properties are in
    Middleware_Properties, Route_Properties and Server_Properties.
  \<^item> Gateway_Main (cmd/vault-gateway): from the configuration to a running gateway. Gateway_History: all
    histories of HTTP requests and cleanups of a running gateway, with the invariant that every stored
    token comes from a login of the history.
  \<^item> Inject_Client, Vault_Inject and Inject_Properties (cmd/vault-inject): the client with its retries,
    the resolution of the environment and the run up to the execution of the application.
  \<^item> Response_Text (pkg/vaultresponse): the bytes of every response. Gateway_Exchange and
    Exchange_Properties: the client with the server as its remote side, so that a whole run of
    \<open>vault-env\<close> goes through the bytes of its requests and of the gateway's responses.

  \<^item> Interleaving: programs that run side by side on a shared state, and the method of rely and guarantee as
    the locale side_by_side. Gateway_Steps: the read and login handlers and the sweep in small steps, one
    locked operation or remote call each. Concurrent_Gateway is the instance of the locale, with the
    assertions about store, cache and the maps in each goroutine's hands; Concurrent_Properties has what
    follows for a started gateway.

  \<^bold>\<open>What is shown.\<close> The theorem of this theory joins all parts of the gateway: in every history of a
  started gateway a secret goes only to a workload that a role of the configuration file admits. Its
  layers are theorems of their own: the whole server on one request, handlers on one request with
  every error path, liveness of tokens until they expire, the contracts of store, cache and backends
  as refinements, exact characterisations of path validation, glob matching, access decisions,
  configuration loading and duration syntax, isolation of rate limits, containment of panics, probes,
  start and stop, and for \<open>vault-env\<close> the resolved environment, the number of fetches and attempts. Of
  both programs together: an application that is entitled to a secret is executed with exactly the
  value the backend holds, both sides decode what the other encodes, and a refusal is final. Of concurrent
  requests: the same guarantee for every interleaving of the steps, that responses say what the remote
  service said, that a map with a secret has one owner, and that every goroutine ends by its own steps.
  Where the code differs from its documents or from its evident intention, a lemma shows the behaviour:
  Rbac.namespace_star_is_literal,
  Gcp_Backend.gcp_paths_alias, Azure_Backend.azure_flat_paths_alias,
  Azure_Naming.flatKeyName_valid_iff, Middleware_Properties.flush_is_unrecorded,
  Server_Properties.metrics_path_may_panic, Inject_Properties.failing_path_is_refetched,
  Inject_Properties.listed_path_may_set_a_setting and Concurrent_Properties.gauge_may_lag.

  \<^bold>\<open>Loops and numbers.\<close> All functions are total; no fuel is used. Loops over lists are structural; index
  and retry loops terminate by a measure, the eviction loop by the size of map and list. Go's \<open>int\<close>
  counters and times are integers, since their ranges are far from the limits in every use; durations
  that are parsed, the retry delay, bytes, TLS versions and cipher suites are words or have the
  overflow written out. The one floating-point step of duration parsing is an argument;
  where exactness matters, exact_fraction of Go_Time says for which operands it is assumed.

  \<^bold>\<open>Concurrency.\<close> Histories (Gateway_Run, Gateway_History) take a request or a tick as one step. The small
  steps of Gateway_Steps take it apart: the store and the cache hold their lock during every operation, and
  a handler does nothing to the shared state between two such operations, so a step is one operation, or
  one remote call, with the lines of the log and the counters that follow. Gateway_Steps.handlers_are_their_steps
  joins the two views. The middleware shares the table of limiters only, which has a lock of its own; the
  several calls of one read of a flat Key Vault are one step, whose answers need not be of one moment.

  \<^bold>\<open>Not modelled.\<close> What the Prometheus client library makes of the registered collectors; YAML
  syntax and the mapping of its keys to fields; metrics paths with wildcards or host names; URLs with
  escapes on the way from \<open>vault-env\<close> to the gateway, and the redirections it would follow; deadlines
  that cut off a call, beyond the error the call then returns; tests, deployment files and documents.
\<close>

section \<open>The gateway as a whole\<close>

text \<open>
  C1. A running gateway gives secrets only to the workloads its configuration names. Take any gateway
  that \<open>run\<close> has started, let it serve any sequence of HTTP requests, with the cleanup of tokens and
  of rate limiters at any moments in between, and then any further request. If a part of the response
  is a secret, then the request addressed a valid secret path, and it presented a token that an
  earlier request of this very history received: a login whose service-account token the Kubernetes
  API server authenticated, as an account of a namespace and name that a role of the configuration
  file admits, no longer ago than the lifetime the file gives to tokens of that role; and a path
  pattern of that role in the file matches the path.
\<close>

theorem secrets_only_to_configured_workloads:
  assumes "gateway_run mn hp = Running gt w"
    and "serve (gt_middleware gt) me ev r new_response (srv_run (gt_middleware gt) hist (start_state gt w)) = (p, w', g')"
    and "BSecret resp \<in> set (rw_body w')"
  shows "\<exists>q me0 ev0 r0 req status ns sa role pattern.
    route (req_Method r) (req_EscapedPath r) = ToSecret q \<and> Validate (TrimPrefix q ''/'') = Inr () \<and>
    Serve me0 ev0 r0 \<in> set hist \<and> route (req_Method r0) (req_EscapedPath r0) = ToLogin \<and> login_fields r0 = Some req \<and>
    ev_reviews ev0 (v_timeout (h_validator (gt_handlers gt)))
      \<lparr>spec_Token = lr_JWT req, spec_Audiences = v_audience (h_validator (gt_handlers gt))\<rparr> = Inr status \<and>
    st_Authenticated status \<and> st_Username status = ''system:serviceaccount:'' @ ns @ '':'' @ sa \<and>
    at_Roles (cfg_Auth (gt_cfg gt)) (lr_Role req) = Some role \<and> ns \<in> set (ro_AllowedNamespaces role) \<and>
    (''*'' \<in> set (ro_AllowedServiceAccounts role) \<or> sa \<in> set (ro_AllowedServiceAccounts role)) \<and>
    randomHex (ev_rnd1 ev0) = Some (req_Header r ''X-Vault-Token'') \<and>
    ev_clock ev 1 \<le> ev_clock ev0 1 + (if 0 < ro_TokenTTL role then ro_TokenTTL role else at_TokenTTL (cfg_Auth (gt_cfg gt))) \<and>
    pattern \<in> set (ro_AllowedPaths role) \<and> MatchPath pattern (TrimPrefix q ''/'')"
proof -
  let ?h = "gt_handlers gt" and ?g = "srv_run (gt_middleware gt) hist (start_state gt w)"
  note run = gateway_run_Running [OF assms(1)]
  then have "h_tokens ?h = NewTokenStore (at_MaxTokensPerIdentity (cfg_Auth (gt_cfg gt)))" by auto
  then have "gateway_inv ?h (login_requests hist) ?g"
    using srv_run_keeps [of "start_state gt w"] started_handlers_ok [OF assms(1)] by simp
  then have inv: "same_config ?h (g_handlers ?g)" "store_inv (h_tokens (g_handlers ?g))"
    "tokens_from ?h (login_requests hist) (h_tokens (g_handlers ?g))"
    by (simp_all add: gateway_inv_def handlers_ok_def)
  have fresh: "rw_sent new_response = None" "rw_body new_response = []" by (simp_all add: new_response_def)
  obtain q i where q: "route (req_Method r) (req_EscapedPath r) = ToSecret q" "Validate (TrimPrefix q ''/'') = Inr ()"
      "VerifyToken (ev_clock ev 1) (req_Header r ''X-Vault-Token'') (h_tokens (g_handlers ?g)) = Some i"
      "CheckAccess (h_rbac (g_handlers ?g)) (Some i) (TrimPrefix q ''/'')"
    using served_secret [OF assms(2) fresh assms(3)] by blast
  obtain ev0 r0 req status ns sa rl pattern where login: "(ev0, r0) \<in> login_requests hist" "login_fields r0 = Some req"
      "ev_reviews ev0 (v_timeout (h_validator ?h)) \<lparr>spec_Token = lr_JWT req, spec_Audiences = v_audience (h_validator ?h)\<rparr> = Inr status"
      "st_Authenticated status" "st_Username status = ''system:serviceaccount:'' @ ns @ '':'' @ sa"
      "roles (h_rbac ?h) (lr_Role req) = Some rl" "ns \<in> set (AllowedNamespaces rl)"
      "''*'' \<in> set (AllowedServiceAccounts rl) \<or> sa \<in> set (AllowedServiceAccounts rl)"
      "randomHex (ev_rnd1 ev0) = Some (req_Header r ''X-Vault-Token'')"
      "ev_clock ev 1 \<le> ev_clock ev0 1 + ttlForRole ?h (lr_Role req)"
      "pattern \<in> set (AllowedPaths rl)" "MatchPath pattern (TrimPrefix q ''/'')"
    using token_is_backed [OF inv(3,1,2) q(3,4)] by blast
  obtain role where role: "at_Roles (cfg_Auth (gt_cfg gt)) (lr_Role req) = Some role"
      "rl = \<lparr>AllowedNamespaces = ro_AllowedNamespaces role, AllowedServiceAccounts = ro_AllowedServiceAccounts role,
             AllowedPaths = ro_AllowedPaths role\<rparr>"
      "ttlForRole ?h (lr_Role req) = (if 0 < ro_TokenTTL role then ro_TokenTTL role else at_TokenTTL (cfg_Auth (gt_cfg gt)))"
    using started_role [OF assms(1) login(6)] .
  obtain me0 where "Serve me0 ev0 r0 \<in> set hist" "route (req_Method r0) (req_EscapedPath r0) = ToLogin"
    using login(1) by (auto simp: login_requests_def)
  with role show ?thesis
    using q(1,2) login(2-5,7-) role by (intro exI conjI) (assumption | simp)+
qed

theorem secrets_only_to_configured_workloads_witness:
  "\<exists>gt w w' g'. gateway_run demo_main (w_heap demo_world) = Running gt w \<and>
     serve (gt_middleware gt) demo_me demo_env (demo_read ''db'' ''ab'') new_response
       (srv_run (gt_middleware gt) [Serve demo_me demo_login_env (demo_login demo_login_text)] (start_state gt w)) = (None, w', g') \<and>
     (\<exists>q role pattern. at_Roles (cfg_Auth (gt_cfg gt)) ''app'' = Some role \<and> pattern \<in> set (ro_AllowedPaths role) \<and>
        route ''GET'' ''/v1/secret/data/db'' = ToSecret q \<and> MatchPath pattern (TrimPrefix q ''/''))"
proof -
  obtain gt w w' g' resp where run: "gateway_run demo_main (w_heap demo_world) = Running gt w"
    and served: "serve (gt_middleware gt) demo_me demo_env (demo_read ''db'' ''ab'') new_response
       (srv_run (gt_middleware gt) [Serve demo_me demo_login_env (demo_login demo_login_text)] (start_state gt w)) = (None, w', g')"
    and "BSecret resp \<in> set (rw_body w')"
    using demo_gateway_serves by blast
  from secrets_only_to_configured_workloads [OF run served this(3)] demo_login_fields run served show ?thesis
    by (auto simp: demo_read_def)
qed

end
